(* ===== verification/Prelude.thy ===== *)
theory Prelude
  imports Main "HOL-Library.Word"
begin

unbundle bit_operations_syntax

text \<open>
  Shared vocabulary of the development: machine integer synonyms, the three-way outcome of a Rust
  call (a value, an \<open>Err\<close>, a panic), state-and-error sequencing for the functions that
  take \<open>&mut\<close> arguments and use the \<open>?\<close> operator, big-endian byte pairs,
  in-place overwriting of a slice, and the collections of rewrite rules the components extend.
\<close>

section \<open>Collections\<close>

named_theorems conv_defs \<open>definitions of constants and one-line conversions, unfolded together\<close>
named_theorems seq_simps \<open>rules that evaluate state-and-error sequencing\<close>

section \<open>Machine integers\<close>

type_synonym u8 = "8 word"
type_synonym u16 = "16 word"
type_synonym usize = nat

section \<open>Outcomes of fallible calls\<close>

text \<open>
  \<open>Ok\<close> and \<open>Err\<close> are the constructors of Rust's \<open>Result\<close>. \<open>Panic\<close> is
  the third way a call can end: an \<open>unwrap\<close>, an index out of bounds, or an arithmetic
  overflow in a build with overflow checks.
\<close>

datatype ('a, 'e) result = Ok 'a | Err 'e | Panic

fun map_err :: "('e \<Rightarrow> 'f) \<Rightarrow> ('a, 'e) result \<Rightarrow> ('a, 'f) result" where
  "map_err f (Ok a) = Ok a"
| "map_err f (Err e) = Err (f e)"
| "map_err f Panic = Panic"

fun bind_result :: "('a, 'e) result \<Rightarrow> ('a \<Rightarrow> ('b, 'e) result) \<Rightarrow> ('b, 'e) result" where
  "bind_result (Ok a) k = k a"
| "bind_result (Err e) k = Err e"
| "bind_result Panic k = Panic"

fun is_Err :: "('a, 'e) result \<Rightarrow> bool" where
  "is_Err (Err _) = True"
| "is_Err _ = False"

lemma map_err_eq_simps [simp]:
  "map_err f r = Ok a \<longleftrightarrow> r = Ok a"
  "map_err f r = Panic \<longleftrightarrow> r = Panic"
  by (cases r; simp)+

lemma map_err_eq_Err: "map_err f r = Err e \<longleftrightarrow> (\<exists>d. r = Err d \<and> e = f d)"
  by (cases r) auto

lemma bind_result_case:
  "bind_result r k = (case r of Ok a \<Rightarrow> k a | Err e \<Rightarrow> Err e | Panic \<Rightarrow> Panic)"
  by (cases r) auto

lemma bind_result_eq_Ok: "bind_result r k = Ok b \<longleftrightarrow> (\<exists>a. r = Ok a \<and> k a = Ok b)"
  by (cases r) auto

section \<open>State and error sequencing\<close>

text \<open>
  A Rust function \<open>fn f(x: &mut S) -> Result<A, E>\<close> is a function from the state to an
  outcome and the state it leaves behind, also on the error path.
\<close>

type_synonym ('s, 'a, 'e) se = "'s \<Rightarrow> ('a, 'e) result \<times> 's"

definition ret :: "'a \<Rightarrow> ('s, 'a, 'e) se" where
  "ret a s = (Ok a, s)"

definition fail :: "'e \<Rightarrow> ('s, 'a, 'e) se" where
  "fail e s = (Err e, s)"

definition bnd :: "('s, 'a, 'e) se \<Rightarrow> ('a \<Rightarrow> ('s, 'b, 'e) se) \<Rightarrow> ('s, 'b, 'e) se" where
  "bnd m k s = (case m s of (Ok a, s') \<Rightarrow> k a s' | (Err e, s') \<Rightarrow> (Err e, s')
     | (Panic, s') \<Rightarrow> (Panic, s'))"

definition lift_result :: "('a, 'e) result \<Rightarrow> ('s, 'a, 'e) se" where
  "lift_result r s = (r, s)"

text \<open>The \<open>?\<close> operator converts the error on its way out.\<close>

definition conv_err :: "('e \<Rightarrow> 'f) \<Rightarrow> ('s, 'a, 'e) se \<Rightarrow> ('s, 'a, 'f) se" where
  "conv_err f m s = (case m s of (r, s') \<Rightarrow> (map_err f r, s'))"

lemma ret_eq [seq_simps]: "ret a s = (Ok a, s)"
  by (simp add: ret_def)

lemma fail_eq [seq_simps]: "fail e s = (Err e, s)"
  by (simp add: fail_def)

lemma lift_result_eq [seq_simps]: "lift_result r s = (r, s)"
  by (simp add: lift_result_def)

lemma bnd_simps [seq_simps]:
  "m s = (Ok a, s') \<Longrightarrow> bnd m k s = k a s'"
  "m s = (Err e, s') \<Longrightarrow> bnd m k s = (Err e, s')"
  "m s = (Panic, s') \<Longrightarrow> bnd m k s = (Panic, s')"
  by (simp_all add: bnd_def)

lemma bnd_ret [simp]: "bnd (ret a) k = k a"
  by (simp add: fun_eq_iff bnd_def ret_def)

lemma bnd_ret_right [simp]: "bnd m ret = m"
  by (simp add: fun_eq_iff bnd_def ret_def split: prod.splits result.splits)

lemma bnd_fail [simp]: "bnd (fail e) k = fail e"
  by (simp add: fun_eq_iff bnd_def fail_def)

lemma bnd_assoc: "bnd (bnd m k) h = bnd m (\<lambda>a. bnd (k a) h)"
  by (simp add: fun_eq_iff bnd_def split: prod.splits result.splits)

lemma conv_err_simps [seq_simps]:
  "m s = (Ok a, s') \<Longrightarrow> conv_err f m s = (Ok a, s')"
  "m s = (Err e, s') \<Longrightarrow> conv_err f m s = (Err (f e), s')"
  "m s = (Panic, s') \<Longrightarrow> conv_err f m s = (Panic, s')"
  by (simp_all add: conv_err_def)

lemma bnd_eq_Ok:
  "bnd m k s = (Ok b, t) \<longleftrightarrow> (\<exists>a s'. m s = (Ok a, s') \<and> k a s' = (Ok b, t))"
  by (auto simp: bnd_def split: prod.splits result.splits)

lemma conv_err_eq_Ok: "conv_err f m s = (Ok a, t) \<longleftrightarrow> m s = (Ok a, t)"
  by (auto simp: conv_err_def split: prod.splits)

text \<open>A property of the state that a computation keeps, whatever its outcome.\<close>

definition keeps :: "('s \<Rightarrow> bool) \<Rightarrow> ('s, 'a, 'e) se \<Rightarrow> bool" where
  "keeps I m \<longleftrightarrow> (\<forall>s. I s \<longrightarrow> I (snd (m s)))"

lemma keepsD: "keeps I m \<Longrightarrow> I s \<Longrightarrow> m s = (r, s') \<Longrightarrow> I s'"
  by (metis keeps_def snd_conv)

lemma keeps_ret [intro, simp]: "keeps I (ret a)"
  by (simp add: keeps_def ret_def)

lemma keeps_fail [intro, simp]: "keeps I (fail e)"
  by (simp add: keeps_def fail_def)

lemma keeps_conv_err [intro]: "keeps I m \<Longrightarrow> keeps I (conv_err f m)"
  by (metis (mono_tags, lifting) keeps_def conv_err_def case_prod_beta snd_conv)

lemma keeps_bnd [intro]: "keeps I m \<Longrightarrow> (\<And>a. keeps I (k a)) \<Longrightarrow> keeps I (bnd m k)"
  by (auto simp: keeps_def bnd_def split: prod.splits result.splits)

section \<open>Byte pairs\<close>

text \<open>The big-endian split of a \<open>u16\<close> and the expression \<open>(b1 << 8) | b2\<close>.\<close>

definition be_hi :: "u16 \<Rightarrow> u8" where
  "be_hi v = ucast (drop_bit 8 v)"

definition be_lo :: "u16 \<Rightarrow> u8" where
  "be_lo v = ucast v"

definition u16_be :: "u8 \<Rightarrow> u8 \<Rightarrow> u16" where
  "u16_be b1 b2 = push_bit 8 (ucast b1) OR ucast b2"

lemma u16_be_split [simp]: "u16_be (be_hi v) (be_lo v) = v"
  by (rule bit_word_eqI)
    (auto simp: u16_be_def be_hi_def be_lo_def bit_simps not_le dest: bit_imp_le_length)

lemma be_hi_u16_be [simp]: "be_hi (u16_be a b) = a"
  by (rule bit_word_eqI)
    (auto simp: u16_be_def be_hi_def bit_simps dest: bit_imp_le_length)

lemma be_lo_u16_be [simp]: "be_lo (u16_be a b) = b"
  by (rule bit_word_eqI) (auto simp: u16_be_def be_lo_def bit_simps)

lemma u16_be_inj [simp]: "u16_be a b = u16_be c d \<longleftrightarrow> a = c \<and> b = d"
  by (metis be_hi_u16_be be_lo_u16_be)

lemma be_pair_inj: "be_hi v = be_hi w \<Longrightarrow> be_lo v = be_lo w \<Longrightarrow> v = w"
  by (metis u16_be_split)

definition be_bytes :: "u16 \<Rightarrow> u8 list" where
  "be_bytes v = [be_hi v, be_lo v]"

lemma length_be_bytes [simp]: "length (be_bytes v) = 2"
  by (simp add: be_bytes_def)

section \<open>Overwriting part of a buffer\<close>

definition patch :: "'a list \<Rightarrow> nat \<Rightarrow> 'a list \<Rightarrow> 'a list" where
  "patch buf p bs = take p buf @ bs @ drop (p + length bs) buf"

lemma length_patch [simp]: "p + length bs \<le> length buf \<Longrightarrow> length (patch buf p bs) = length buf"
  by (simp add: patch_def)

lemma patch_Nil [simp]: "patch buf p [] = buf"
  by (simp add: patch_def)

lemma patch_patch_append:
  assumes "p + length bs + length cs \<le> length buf"
  shows "patch (patch buf p bs) (p + length bs) cs = patch buf p (bs @ cs)"
  using assms by (cases bs) (auto simp: patch_def min_def ac_simps)

lemma patch_patch_at:
  assumes "q = p + length bs" and "q + length cs \<le> length buf"
  shows "patch (patch buf p bs) q cs = patch buf p (bs @ cs)"
  using assms patch_patch_append [of p bs cs buf] by simp

lemma take_patch_end:
  assumes "p + length bs \<le> length buf"
  shows "take (p + length bs) (patch buf p bs) = take p buf @ bs"
  using assms by (simp add: patch_def)

lemma take_patch_before: "q \<le> p \<Longrightarrow> p \<le> length buf \<Longrightarrow> take q (patch buf p bs) = take q buf"
  by (simp add: patch_def min_def)

lemma patch_inside:
  assumes "length bs = length ds" and "length xs = p" and "p + length bs \<le> length buf"
    and "take (p + length bs) buf = xs @ ds"
  shows "patch buf p bs = xs @ bs @ drop (p + length bs) buf"
proof -
  have "take p buf = take p (take (p + length bs) buf)"
    by (simp add: min_def)
  also have "\<dots> = xs"
    using assms(2,4) by simp
  finally have "take p buf = xs" .
  then show ?thesis by (simp add: patch_def)
qed

lemma nth_patch:
  assumes "p + length bs \<le> length buf" and "i < length buf"
  shows "patch buf p bs ! i = (if p \<le> i \<and> i < p + length bs then bs ! (i - p) else buf ! i)"
  using assms by (auto simp: patch_def nth_append min_def)

text \<open>Bytes left out and filled in later.\<close>

lemma patch_gap:
  assumes "p + length xs + length ys + length zs \<le> length buf" and "q = p + length xs"
    and "r = q + length ys"
  shows "patch (patch (patch buf p xs) r zs) q ys = patch buf p (xs @ ys @ zs)"
proof (rule nth_equalityI)
  show "length (patch (patch (patch buf p xs) r zs) q ys) = length (patch buf p (xs @ ys @ zs))"
    using assms by simp
  fix i
  assume "i < length (patch (patch (patch buf p xs) r zs) q ys)"
  then have i: "i < length buf" using assms by simp
  show "patch (patch (patch buf p xs) r zs) q ys ! i = patch buf p (xs @ ys @ zs) ! i"
    using assms i by (auto simp: nth_patch nth_append)
qed

section \<open>Counting and slicing helpers\<close>

lemma unat_u16_less: "unat (x :: u16) < 65536"
  using unsigned_less [of x, where ?'a = nat] by simp

lemma unat_u8_less: "unat (x :: u8) < 256"
  using unsigned_less [of x, where ?'a = nat] by simp

lemma unat_of_nat_u16: "n < 65536 \<Longrightarrow> unat (of_nat n :: u16) = n"
  by (simp add: unat_of_nat)

lemma u16_eq_max: "(a :: u16) = 0xFFFF \<longleftrightarrow> unat a = 65535"
  by unat_arith

lemma unat_of_nat_u8: "n < 256 \<Longrightarrow> unat (of_nat n :: u8) = n"
  by (simp add: unat_of_nat)

text \<open>A masked bit test, as in \<open>(value & (1 << bit)) != 0\<close>.\<close>

lemma masked_bit: "((v :: u8) AND push_bit k 1) \<noteq> 0 \<longleftrightarrow> bit v k"
  by (simp add: bit_iff_and_push_bit_not_eq_0)

lemma masked_bit_power: "((v :: u8) AND 2 ^ k) = 0 \<longleftrightarrow> \<not> bit v k"
  using masked_bit [of v k] by auto

end
