(* ===== verification/Errors.thy ===== *)
theory Errors
  imports Prelude
begin

text \<open>
  The error values of the library: \<open>rodbus/src/exception.rs\<close> (Modbus exception codes and
  their byte encoding), \<open>rodbus/src/error.rs\<close> (the error enums and every \<open>From\<close>
  conversion that the \<open>?\<close> operator applies), the limits of \<open>rodbus/src/constants.rs\<close>
  and the decode levels of \<open>rodbus/src/decode.rs\<close>.
\<close>

section \<open>Constants\<close>

definition coil_ON :: u16 where [conv_defs]: "coil_ON = 0xFF00"
definition coil_OFF :: u16 where [conv_defs]: "coil_OFF = 0x0000"

definition MAX_READ_COILS_COUNT :: u16 where [conv_defs]: "MAX_READ_COILS_COUNT = 0x07D0"
definition MAX_READ_REGISTERS_COUNT :: u16 where [conv_defs]: "MAX_READ_REGISTERS_COUNT = 0x007D"
definition MAX_WRITE_COILS_COUNT :: u16 where [conv_defs]: "MAX_WRITE_COILS_COUNT = 0x07B0"
definition MAX_WRITE_REGISTERS_COUNT :: u16 where [conv_defs]: "MAX_WRITE_REGISTERS_COUNT = 0x007B"

section \<open>Exception codes\<close>

datatype ExceptionCode =
    IllegalFunction
  | IllegalDataAddress
  | IllegalDataValue
  | ServerDeviceFailure
  | Acknowledge
  | ServerDeviceBusy
  | MemoryParityError
  | GatewayPathUnavailable
  | GatewayTargetDeviceFailedToRespond
  | UnknownException u8

definition ExceptionCode_from_u8 :: "u8 \<Rightarrow> ExceptionCode" where
  "ExceptionCode_from_u8 value =
     (if value = 0x01 then IllegalFunction
      else if value = 0x02 then IllegalDataAddress
      else if value = 0x03 then IllegalDataValue
      else if value = 0x04 then ServerDeviceFailure
      else if value = 0x05 then Acknowledge
      else if value = 0x06 then ServerDeviceBusy
      else if value = 0x08 then MemoryParityError
      else if value = 0x0A then GatewayPathUnavailable
      else if value = 0x0B then GatewayTargetDeviceFailedToRespond
      else UnknownException value)"

fun ExceptionCode_to_u8 :: "ExceptionCode \<Rightarrow> u8" where
  "ExceptionCode_to_u8 IllegalFunction = 0x01"
| "ExceptionCode_to_u8 IllegalDataAddress = 0x02"
| "ExceptionCode_to_u8 IllegalDataValue = 0x03"
| "ExceptionCode_to_u8 ServerDeviceFailure = 0x04"
| "ExceptionCode_to_u8 Acknowledge = 0x05"
| "ExceptionCode_to_u8 ServerDeviceBusy = 0x06"
| "ExceptionCode_to_u8 MemoryParityError = 0x08"
| "ExceptionCode_to_u8 GatewayPathUnavailable = 0x0A"
| "ExceptionCode_to_u8 GatewayTargetDeviceFailedToRespond = 0x0B"
| "ExceptionCode_to_u8 (UnknownException value) = value"

text \<open>
  Decoding keeps the byte. Encoding followed by decoding gives a canonical code: the identity on
  the nine codes of the standard, and on \<open>UnknownException\<close> the named code when the byte has one.
\<close>

lemma ExceptionCode_to_from_u8 [simp]: "ExceptionCode_to_u8 (ExceptionCode_from_u8 b) = b"
  by (simp add: ExceptionCode_from_u8_def)

fun is_canonical_exception :: "ExceptionCode \<Rightarrow> bool" where
  "is_canonical_exception (UnknownException b) = (b \<notin> {1, 2, 3, 4, 5, 6, 8, 0x0A, 0x0B})"
| "is_canonical_exception _ = True"

lemma ExceptionCode_from_to_u8:
  "ExceptionCode_from_u8 (ExceptionCode_to_u8 ex) = ex \<longleftrightarrow> is_canonical_exception ex"
  by (cases ex) (auto simp: ExceptionCode_from_u8_def)

section \<open>Error enums\<close>

text \<open>\<open>std::io::ErrorKind\<close>: the kind the library itself creates, and any other by name.\<close>

datatype ErrorKind = UnexpectedEof | OtherKind string

datatype InvalidRange =
    CountOfZero
  | AddressOverflow u16 u16
  | CountTooLargeForType u16 u16

datatype InternalError =
    InsufficientWriteSpace usize usize
  | FrameTooBig usize usize
  | InsufficientBytesForRead usize usize
  | BadSeekOperation
  | BadByteCount usize

datatype FrameParseError =
    MbapLengthZero
  | FrameLengthTooBig usize usize
  | UnknownProtocolId u16
  | UnknownFunctionCode u8
  | CrcValidationFailure u16 u16

datatype AduParseError =
    InsufficientBytes
  | InsufficientBytesForByteCount usize usize
  | TrailingBytes usize
  | ReplyEchoMismatch
  | UnknownResponseFunction u8 u8 u8
  | UnknownCoilState u16

datatype InvalidRequest =
    BadRange InvalidRange
  | CountTooBigForU16 usize
  | CountTooBigForType u16 u16

datatype RequestError =
    Io ErrorKind
  | Exception ExceptionCode
  | BadRequest InvalidRequest
  | BadFrame FrameParseError
  | BadResponse AduParseError
  | Internal InternalError
  | ResponseTimeout
  | NoConnection
  | RequestShutdown

text \<open>
  The errors of the \<open>scursor\<close> crate, as far as \<open>error.rs\<close> matches on them: a read
  error carries nothing that is used, a write error is one of three kinds, and
  \<open>TrailingBytes\<close> carries a count.
\<close>

datatype ReadError = ReadError

datatype WriteError =
    WriteOverflow usize usize \<comment> \<open>remaining, written\<close>
  | NumericOverflow
  | BadSeek

section \<open>Conversions applied by the question mark operator\<close>

fun RequestError_from_WriteError :: "WriteError \<Rightarrow> RequestError" where
  "RequestError_from_WriteError (WriteOverflow remaining written) =
     Internal (InsufficientWriteSpace written remaining)"
| "RequestError_from_WriteError NumericOverflow = Internal BadSeekOperation"
| "RequestError_from_WriteError BadSeek = Internal BadSeekOperation"

definition RequestError_from_io :: "ErrorKind \<Rightarrow> RequestError" where
  [conv_defs]: "RequestError_from_io err = Io err"

definition RequestError_from_InvalidRequest :: "InvalidRequest \<Rightarrow> RequestError" where
  [conv_defs]: "RequestError_from_InvalidRequest err = BadRequest err"

definition RequestError_from_InternalError :: "InternalError \<Rightarrow> RequestError" where
  [conv_defs]: "RequestError_from_InternalError err = Internal err"

definition RequestError_from_AduParseError :: "AduParseError \<Rightarrow> RequestError" where
  [conv_defs]: "RequestError_from_AduParseError err = BadResponse err"

definition RequestError_from_ExceptionCode :: "ExceptionCode \<Rightarrow> RequestError" where
  [conv_defs]: "RequestError_from_ExceptionCode err = Exception err"

definition RequestError_from_FrameParseError :: "FrameParseError \<Rightarrow> RequestError" where
  [conv_defs]: "RequestError_from_FrameParseError err = BadFrame err"

definition InvalidRequest_from_InvalidRange :: "InvalidRange \<Rightarrow> InvalidRequest" where
  [conv_defs]: "InvalidRequest_from_InvalidRange x = BadRange x"

definition RequestError_from_InvalidRange :: "InvalidRange \<Rightarrow> RequestError" where
  [conv_defs]: "RequestError_from_InvalidRange x = BadRequest (InvalidRequest_from_InvalidRange x)"

definition RequestError_from_ReadError :: "ReadError \<Rightarrow> RequestError" where
  [conv_defs]: "RequestError_from_ReadError e = BadResponse InsufficientBytes"

definition RequestError_from_TrailingBytes :: "usize \<Rightarrow> RequestError" where
  [conv_defs]: "RequestError_from_TrailingBytes count = BadResponse (TrailingBytes count)"

lemma RequestError_from_WriteError_Internal: "\<exists>e. RequestError_from_WriteError w = Internal e"
  by (cases w) auto

section \<open>Decode levels\<close>

datatype AppDecodeLevel = AppNothing | AppFunctionCode | AppDataHeaders | AppDataValues
datatype FrameDecodeLevel = FrameNothing | FrameHeaderLevel | FramePayload
datatype PhysDecodeLevel = PhysNothing | PhysLength | PhysData

record DecodeLevel =
  dl_app :: AppDecodeLevel
  dl_frame :: FrameDecodeLevel
  dl_physical :: PhysDecodeLevel

definition DecodeLevel_default :: DecodeLevel where
  "DecodeLevel_default =
     \<lparr>dl_app = AppNothing, dl_frame = FrameNothing, dl_physical = PhysNothing\<rparr>"

definition DecodeLevel_nothing :: DecodeLevel where
  "DecodeLevel_nothing = DecodeLevel_default"

definition DecodeLevel_new :: "AppDecodeLevel \<Rightarrow> FrameDecodeLevel \<Rightarrow> PhysDecodeLevel \<Rightarrow> DecodeLevel" where
  "DecodeLevel_new pdu adu physical = \<lparr>dl_app = pdu, dl_frame = adu, dl_physical = physical\<rparr>"

definition DecodeLevel_application :: "AppDecodeLevel \<Rightarrow> DecodeLevel \<Rightarrow> DecodeLevel" where
  "DecodeLevel_application level d = d\<lparr>dl_app := level\<rparr>"

definition DecodeLevel_frame :: "FrameDecodeLevel \<Rightarrow> DecodeLevel \<Rightarrow> DecodeLevel" where
  "DecodeLevel_frame level d = d\<lparr>dl_frame := level\<rparr>"

definition DecodeLevel_physical :: "PhysDecodeLevel \<Rightarrow> DecodeLevel \<Rightarrow> DecodeLevel" where
  "DecodeLevel_physical level d = d\<lparr>dl_physical := level\<rparr>"

definition DecodeLevel_from_app :: "AppDecodeLevel \<Rightarrow> DecodeLevel" where
  "DecodeLevel_from_app pdu = \<lparr>dl_app = pdu, dl_frame = FrameNothing, dl_physical = PhysNothing\<rparr>"

fun app_header :: "AppDecodeLevel \<Rightarrow> bool" where
  "app_header AppNothing = False"
| "app_header AppFunctionCode = True"
| "app_header AppDataHeaders = True"
| "app_header AppDataValues = True"

definition app_enabled :: "AppDecodeLevel \<Rightarrow> bool" where
  "app_enabled l = app_header l"

fun app_data_headers :: "AppDecodeLevel \<Rightarrow> bool" where
  "app_data_headers AppNothing = False"
| "app_data_headers AppFunctionCode = False"
| "app_data_headers AppDataHeaders = True"
| "app_data_headers AppDataValues = True"

fun app_data_values :: "AppDecodeLevel \<Rightarrow> bool" where
  "app_data_values AppNothing = False"
| "app_data_values AppFunctionCode = False"
| "app_data_values AppDataHeaders = False"
| "app_data_values AppDataValues = True"

fun frame_header_enabled :: "FrameDecodeLevel \<Rightarrow> bool" where
  "frame_header_enabled FrameNothing = False"
| "frame_header_enabled FrameHeaderLevel = True"
| "frame_header_enabled FramePayload = True"

definition frame_enabled :: "FrameDecodeLevel \<Rightarrow> bool" where
  "frame_enabled l = frame_header_enabled l"

fun frame_payload_enabled :: "FrameDecodeLevel \<Rightarrow> bool" where
  "frame_payload_enabled FrameNothing = False"
| "frame_payload_enabled FrameHeaderLevel = False"
| "frame_payload_enabled FramePayload = True"

fun phys_length_enabled :: "PhysDecodeLevel \<Rightarrow> bool" where
  "phys_length_enabled PhysNothing = False"
| "phys_length_enabled PhysLength = True"
| "phys_length_enabled PhysData = True"

definition phys_enabled :: "PhysDecodeLevel \<Rightarrow> bool" where
  "phys_enabled l = phys_length_enabled l"

fun phys_data_enabled :: "PhysDecodeLevel \<Rightarrow> bool" where
  "phys_data_enabled PhysNothing = False"
| "phys_data_enabled PhysLength = False"
| "phys_data_enabled PhysData = True"

text \<open>Each level of detail includes the coarser ones.\<close>

lemma app_levels_monotone:
  "(app_data_values l \<longrightarrow> app_data_headers l) \<and> (app_data_headers l \<longrightarrow> app_enabled l)"
  by (cases l) (simp_all add: app_enabled_def)

lemma frame_phys_levels_monotone:
  "frame_payload_enabled f \<Longrightarrow> frame_enabled f" "phys_data_enabled p \<Longrightarrow> phys_enabled p"
  by (cases f; simp add: frame_enabled_def) (cases p; simp add: phys_enabled_def)

end
