(* ===== verification/Platform.thy ===== *)
theory Platform
  imports Errors
begin

text \<open>
  The code the library calls and does not contain: the byte cursors of the \<open>scursor\<close>
  crate, the CRC engine of the \<open>crc\<close> crate configured for \<open>CRC_16_MODBUS\<close>, the
  asynchronous byte stream of \<open>tokio\<close>, and the compiler's overflow-check setting. They are
  the fields of a record that every definition using them takes as an argument. What the library
  relies on is stated as one locale per interface. The last section gives one concrete platform
  and discharges the laws for it, so that the hypotheses of the theorems can be met and the model
  can be run.
\<close>

section \<open>The parameters\<close>

text \<open>An await either completes with a value or leaves the task waiting.\<close>

datatype 'a poll = Ready 'a | Pending

record ('r, 'w, 'd, 'io) platform =
  overflow_checks :: bool
  rc_new :: "u8 list \<Rightarrow> 'r"
  rc_read_u8 :: "('r, u8, ReadError) se"
  rc_read_u16_be :: "('r, u16, ReadError) se"
  rc_read_bytes :: "usize \<Rightarrow> ('r, u8 list, ReadError) se"
  rc_expect_empty :: "'r \<Rightarrow> (unit, usize) result"
  rc_is_empty :: "'r \<Rightarrow> bool"
  rc_remaining :: "'r \<Rightarrow> usize"
  wc_new :: "u8 list \<Rightarrow> 'w"
  wc_write_u8 :: "u8 \<Rightarrow> ('w, unit, WriteError) se"
  wc_write_u16_be :: "u16 \<Rightarrow> ('w, unit, WriteError) se"
  wc_write_u16_le :: "u16 \<Rightarrow> ('w, unit, WriteError) se"
  wc_position :: "'w \<Rightarrow> usize"
  wc_skip :: "usize \<Rightarrow> ('w, unit, WriteError) se"
  wc_seek_to :: "usize \<Rightarrow> ('w, unit, WriteError) se"
  wc_get :: "usize \<Rightarrow> usize \<Rightarrow> 'w \<Rightarrow> u8 list option"
  wc_buffer :: "'w \<Rightarrow> u8 list"
  crc_digest :: 'd
  crc_update :: "u8 list \<Rightarrow> 'd \<Rightarrow> 'd"
  crc_finalize :: "'d \<Rightarrow> u16"
  crc_checksum :: "u8 list \<Rightarrow> u16"
  io_read :: "usize \<Rightarrow> 'io \<Rightarrow> (u8 list, ErrorKind) result poll \<times> 'io"
  io_write :: "u8 list \<Rightarrow> ('io, unit, ErrorKind) se"

section \<open>What the library relies on\<close>

text \<open>A read cursor is seen through the bytes it has left.\<close>

locale read_cursor =
  fixes P :: "('r, 'w, 'd, 'io) platform"
    and rview :: "'r \<Rightarrow> u8 list"
  assumes rc_new: "rview (rc_new P bs) = bs"
    and rc_read_u8_Cons:
      "rview c = b # bs \<Longrightarrow> \<exists>c'. rc_read_u8 P c = (Ok b, c') \<and> rview c' = bs"
    and rc_read_u8_Nil:
      "rview c = [] \<Longrightarrow> \<exists>c'. rc_read_u8 P c = (Err ReadError, c')"
    and rc_read_u16_be_Cons:
      "rview c = a # b # bs \<Longrightarrow>
         \<exists>c'. rc_read_u16_be P c = (Ok (u16_be a b), c') \<and> rview c' = bs"
    and rc_read_u16_be_short:
      "length (rview c) < 2 \<Longrightarrow> \<exists>c'. rc_read_u16_be P c = (Err ReadError, c')"
    and rc_read_bytes_enough:
      "n \<le> length (rview c) \<Longrightarrow>
         \<exists>c'. rc_read_bytes P n c = (Ok (take n (rview c)), c') \<and> rview c' = drop n (rview c)"
    and rc_read_bytes_short:
      "length (rview c) < n \<Longrightarrow> \<exists>c'. rc_read_bytes P n c = (Err ReadError, c')"
    and rc_expect_empty:
      "rc_expect_empty P c = (if rview c = [] then Ok () else Err (length (rview c)))"
    and rc_is_empty: "rc_is_empty P c \<longleftrightarrow> rview c = []"
    and rc_remaining: "rc_remaining P c = length (rview c)"

text \<open>
  A write cursor is seen through the buffer it borrows and its position. A write that does not
  fit is an error and leaves the size of the buffer alone.
\<close>

locale write_cursor =
  fixes P :: "('r, 'w, 'd, 'io) platform"
    and wbuf :: "'w \<Rightarrow> u8 list"
    and wpos :: "'w \<Rightarrow> nat"
  assumes wc_new: "wbuf (wc_new P bs) = bs" "wpos (wc_new P bs) = 0"
    and wc_buffer: "wc_buffer P w = wbuf w"
    and wc_position: "wc_position P w = wpos w"
    and wc_write_u8_fits:
      "wpos w + 1 \<le> length (wbuf w) \<Longrightarrow> \<exists>w'. wc_write_u8 P b w = (Ok (), w') \<and>
         wbuf w' = patch (wbuf w) (wpos w) [b] \<and> wpos w' = wpos w + 1"
    and wc_write_u8_full:
      "length (wbuf w) < wpos w + 1 \<Longrightarrow> \<exists>e w'. wc_write_u8 P b w = (Err e, w') \<and>
         length (wbuf w') = length (wbuf w)"
    and wc_write_u16_be_fits:
      "wpos w + 2 \<le> length (wbuf w) \<Longrightarrow> \<exists>w'. wc_write_u16_be P v w = (Ok (), w') \<and>
         wbuf w' = patch (wbuf w) (wpos w) (be_bytes v) \<and> wpos w' = wpos w + 2"
    and wc_write_u16_be_full:
      "length (wbuf w) < wpos w + 2 \<Longrightarrow> \<exists>e w'. wc_write_u16_be P v w = (Err e, w') \<and>
         length (wbuf w') = length (wbuf w)"
    and wc_write_u16_le_fits:
      "wpos w + 2 \<le> length (wbuf w) \<Longrightarrow> \<exists>w'. wc_write_u16_le P v w = (Ok (), w') \<and>
         wbuf w' = patch (wbuf w) (wpos w) [be_lo v, be_hi v] \<and> wpos w' = wpos w + 2"
    and wc_write_u16_le_full:
      "length (wbuf w) < wpos w + 2 \<Longrightarrow> \<exists>e w'. wc_write_u16_le P v w = (Err e, w') \<and>
         length (wbuf w') = length (wbuf w)"
    and wc_skip_fits:
      "wpos w + n \<le> length (wbuf w) \<Longrightarrow> \<exists>w'. wc_skip P n w = (Ok (), w') \<and>
         wbuf w' = wbuf w \<and> wpos w' = wpos w + n"
    and wc_skip_full:
      "length (wbuf w) < wpos w + n \<Longrightarrow> \<exists>e w'. wc_skip P n w = (Err e, w') \<and>
         length (wbuf w') = length (wbuf w)"
    and wc_seek_to_fits:
      "n \<le> length (wbuf w) \<Longrightarrow> \<exists>w'. wc_seek_to P n w = (Ok (), w') \<and>
         wbuf w' = wbuf w \<and> wpos w' = n"
    and wc_get_range:
      "i \<le> j \<Longrightarrow> j \<le> length (wbuf w) \<Longrightarrow>
         wc_get P i j w = Some (take (j - i) (drop i (wbuf w)))"

text \<open>
  Feeding a digest piece by piece is the same as feeding the concatenation, and
  \<open>checksum\<close> is the one-shot form.
\<close>

locale crc_engine =
  fixes P :: "('r, 'w, 'd, 'io) platform"
  assumes crc_checksum: "crc_checksum P bs = crc_finalize P (crc_update P bs (crc_digest P))"
    and crc_update_append: "crc_update P cs (crc_update P bs d) = crc_update P (bs @ cs) d"

text \<open>
  A stream is seen through what the peer has made available, in order, and through what has been
  sent. A read never returns more bytes than the slice it is given can hold, and a read that is not
  ready takes nothing from the stream.
\<close>

datatype segment = Data "u8 list" | Hangup | Fails ErrorKind

locale byte_stream =
  fixes P :: "('r, 'w, 'd, 'io) platform"
    and incoming :: "'io \<Rightarrow> segment list"
    and sent :: "'io \<Rightarrow> u8 list"
  assumes io_read_le: "io_read P cap s = (Ready (Ok bs), s') \<Longrightarrow> length bs \<le> cap"
    and io_read_no_panic: "fst (io_read P cap s) \<noteq> Ready Panic"
    and io_read_Data:
      "incoming s = Data bs # rest \<Longrightarrow> bs \<noteq> [] \<Longrightarrow> 0 < cap \<Longrightarrow>
         \<exists>s'. io_read P cap s = (Ready (Ok (take cap bs)), s') \<and> sent s' = sent s \<and>
           incoming s' = (if length bs \<le> cap then rest else Data (drop cap bs) # rest)"
    and io_read_Hangup:
      "incoming s = Hangup # rest \<Longrightarrow> \<exists>s'. io_read P cap s = (Ready (Ok []), s')"
    and io_read_Fails:
      "incoming s = Fails k # rest \<Longrightarrow> \<exists>s'. io_read P cap s = (Ready (Err k), s')"
    and io_read_Nil: "incoming s = [] \<Longrightarrow> io_read P cap s = (Pending, s)"
    and io_read_Pending: "io_read P cap s = (Pending, s') \<Longrightarrow> incoming s' = incoming s \<and> sent s' = sent s"
    and io_write_Ok:
      "io_write P bs s = (Ok (), s') \<Longrightarrow> sent s' = sent s @ bs \<and> incoming s' = incoming s"
    and io_write_no_panic: "fst (io_write P bs s) \<noteq> Panic"

locale platform =
  read_cursor P rview + write_cursor P wbuf wpos + crc_engine P + byte_stream P incoming sent
  for P :: "('r, 'w, 'd, 'io) platform"
    and rview :: "'r \<Rightarrow> u8 list"
    and wbuf :: "'w \<Rightarrow> u8 list"
    and wpos :: "'w \<Rightarrow> nat"
    and incoming :: "'io \<Rightarrow> segment list"
    and sent :: "'io \<Rightarrow> u8 list"

section \<open>A concrete platform\<close>

text \<open>
  Cursors over lists, the bitwise CRC-16/MODBUS algorithm (initial value \<open>0xFFFF\<close>,
  reflected polynomial \<open>0xA001\<close>), and a stream that is a queue of segments and a log of
  the bytes sent.
\<close>

fun list_read_u8 :: "(u8 list, u8, ReadError) se" where
  "list_read_u8 [] = (Err ReadError, [])"
| "list_read_u8 (b # bs) = (Ok b, bs)"

fun list_read_u16_be :: "(u8 list, u16, ReadError) se" where
  "list_read_u16_be (a # b # bs) = (Ok (u16_be a b), bs)"
| "list_read_u16_be bs = (Err ReadError, bs)"

definition list_read_bytes :: "usize \<Rightarrow> (u8 list, u8 list, ReadError) se" where
  "list_read_bytes n bs =
     (if n \<le> length bs then (Ok (take n bs), drop n bs) else (Err ReadError, bs))"

type_synonym list_writer = "u8 list \<times> nat"

definition list_write :: "u8 list \<Rightarrow> (list_writer, unit, WriteError) se" where
  "list_write bs w = (case w of (buf, p) \<Rightarrow>
     if p + length bs \<le> length buf then (Ok (), (patch buf p bs, p + length bs))
     else (Err (WriteOverflow (length buf - p) (length bs)), w))"

definition list_skip :: "usize \<Rightarrow> (list_writer, unit, WriteError) se" where
  "list_skip n w = (case w of (buf, p) \<Rightarrow>
     if p + n \<le> length buf then (Ok (), (buf, p + n))
     else (Err (WriteOverflow (length buf - p) n), w))"

definition list_seek_to :: "usize \<Rightarrow> (list_writer, unit, WriteError) se" where
  "list_seek_to n w = (case w of (buf, p) \<Rightarrow>
     if n \<le> length buf then (Ok (), (buf, n)) else (Err BadSeek, w))"

definition list_get :: "usize \<Rightarrow> usize \<Rightarrow> list_writer \<Rightarrow> u8 list option" where
  "list_get i j w = (case w of (buf, p) \<Rightarrow>
     if i \<le> j \<and> j \<le> length buf then Some (take (j - i) (drop i buf)) else None)"

definition crc_bit :: "u16 \<Rightarrow> u16" where
  "crc_bit c = (if bit c 0 then drop_bit 1 c XOR 0xA001 else drop_bit 1 c)"

definition crc_byte :: "u8 \<Rightarrow> u16 \<Rightarrow> u16" where
  "crc_byte b c = (crc_bit ^^ 8) (c XOR ucast b)"

definition crc_bytes :: "u8 list \<Rightarrow> u16 \<Rightarrow> u16" where
  "crc_bytes bs c = fold crc_byte bs c"

type_synonym queue_stream = "segment list \<times> u8 list"

fun queue_read :: "usize \<Rightarrow> queue_stream \<Rightarrow> (u8 list, ErrorKind) result poll \<times> queue_stream" where
  "queue_read cap ([], out) = (Pending, ([], out))"
| "queue_read cap (Data bs # rest, out) =
     (Ready (Ok (take cap bs)),
      (if length bs \<le> cap then rest else Data (drop cap bs) # rest, out))"
| "queue_read cap (Hangup # rest, out) = (Ready (Ok []), (Hangup # rest, out))"
| "queue_read cap (Fails k # rest, out) = (Ready (Err k), (rest, out))"

fun queue_write :: "u8 list \<Rightarrow> (queue_stream, unit, ErrorKind) se" where
  "queue_write bs (inc, out) = (Ok (), (inc, out @ bs))"

type_synonym list_platform = "(u8 list, list_writer, u16, queue_stream) platform"

definition list_platform :: "bool \<Rightarrow> list_platform" where
  "list_platform checks = \<lparr>
     overflow_checks = checks,
     rc_new = (\<lambda>bs. bs),
     rc_read_u8 = list_read_u8,
     rc_read_u16_be = list_read_u16_be,
     rc_read_bytes = list_read_bytes,
     rc_expect_empty = (\<lambda>bs. if bs = [] then Ok () else Err (length bs)),
     rc_is_empty = (\<lambda>bs. bs = []),
     rc_remaining = length,
     wc_new = (\<lambda>buf. (buf, 0)),
     wc_write_u8 = (\<lambda>b. list_write [b]),
     wc_write_u16_be = (\<lambda>v. list_write (be_bytes v)),
     wc_write_u16_le = (\<lambda>v. list_write [be_lo v, be_hi v]),
     wc_position = snd,
     wc_skip = list_skip,
     wc_seek_to = list_seek_to,
     wc_get = list_get,
     wc_buffer = fst,
     crc_digest = 0xFFFF,
     crc_update = crc_bytes,
     crc_finalize = (\<lambda>d. d),
     crc_checksum = (\<lambda>bs. crc_bytes bs 0xFFFF),
     io_read = queue_read,
     io_write = queue_write \<rparr>"

lemma list_read_u16_be_short: "length bs < 2 \<Longrightarrow> list_read_u16_be bs = (Err ReadError, bs)"
  by (cases bs rule: list_read_u16_be.cases) auto

lemma queue_read_le: "queue_read cap s = (Ready (Ok bs), s') \<Longrightarrow> length bs \<le> cap"
  by (cases "(cap, s)" rule: queue_read.cases) auto

lemma queue_read_no_panic: "fst (queue_read cap s) \<noteq> Ready Panic"
  by (cases "(cap, s)" rule: queue_read.cases) auto

lemma list_read_cursor: "read_cursor (list_platform checks) (\<lambda>bs. bs)"
  by unfold_locales (auto simp: list_platform_def list_read_bytes_def list_read_u16_be_short)

lemma list_write_cursor: "write_cursor (list_platform checks) fst snd"
  by unfold_locales (auto simp: list_platform_def list_write_def list_skip_def list_seek_to_def
      list_get_def split: prod.splits)

lemma list_crc_engine: "crc_engine (list_platform checks)"
  by unfold_locales (simp_all add: list_platform_def crc_bytes_def)

lemma queue_read_pending: "queue_read cap s = (Pending, s') \<Longrightarrow> s' = s"
  by (cases "(cap, s)" rule: queue_read.cases) auto

lemma queue_byte_stream: "byte_stream (list_platform checks) fst snd"
proof (unfold_locales, goal_cases)
  case (1 cap s bs s')
  then show ?case by (simp add: list_platform_def queue_read_le)
next
  case (2 cap s)
  then show ?case by (simp add: list_platform_def queue_read_no_panic)
next
  case (3 s bs rest cap)
  then show ?case by (cases s) (simp add: list_platform_def)
next
  case (7 cap s s')
  then have "queue_read cap s = (Pending, s')" by (simp add: list_platform_def)
  from queue_read_pending [OF this] show ?case by simp
qed (auto simp: list_platform_def)

interpretation lp: platform "list_platform checks" "\<lambda>bs. bs" fst snd fst snd
  by (intro platform.intro list_read_cursor list_write_cursor list_crc_engine queue_byte_stream)

end
