(* ===== verification/Types.thy ===== *)
theory Types
  imports Platform
begin

text \<open>
  The value types of \<open>rodbus/src/types.rs\<close>: unit identifiers, address ranges with their
  validation, indexed values, the address iterator, and the lazy bit and register iterators.
  Arithmetic on \<open>u16\<close> follows Rust: it panics on overflow when the build has overflow checks
  and wraps otherwise.
\<close>

section \<open>Checked and wrapping arithmetic\<close>

definition add_u16 :: "('r, 'w, 'd, 'io) platform \<Rightarrow> u16 \<Rightarrow> u16 \<Rightarrow> (u16, 'e) result" where
  "add_u16 P a b =
     (if overflow_checks P \<and> 65536 \<le> unat a + unat b then Panic else Ok (a + b))"

definition sub_u16 :: "('r, 'w, 'd, 'io) platform \<Rightarrow> u16 \<Rightarrow> u16 \<Rightarrow> (u16, 'e) result" where
  "sub_u16 P a b = (if overflow_checks P \<and> unat a < unat b then Panic else Ok (a - b))"

lemma add_u16_fits [simp]: "unat a + unat b < 65536 \<Longrightarrow> add_u16 P a b = Ok (a + b)"
  by (simp add: add_u16_def)

lemma unat_add_u16_fits: "unat (a :: u16) + unat b < 65536 \<Longrightarrow> unat (a + b) = unat a + unat b"
  by (simp add: unat_word_ariths)

section \<open>Unit identifiers\<close>

datatype UnitId = UnitId (uid_value: u8)

instantiation UnitId :: linorder
begin

definition less_eq_UnitId :: "UnitId \<Rightarrow> UnitId \<Rightarrow> bool" where
  "less_eq_UnitId a b \<longleftrightarrow> uid_value a \<le> uid_value b"

definition less_UnitId :: "UnitId \<Rightarrow> UnitId \<Rightarrow> bool" where
  "less_UnitId a b \<longleftrightarrow> uid_value a < uid_value b"

instance
  by standard (auto simp: less_eq_UnitId_def less_UnitId_def UnitId.expand)

end

definition UnitId_new :: "u8 \<Rightarrow> UnitId" where
  [conv_defs]: "UnitId_new value = UnitId value"

definition UnitId_broadcast :: UnitId where
  [conv_defs]: "UnitId_broadcast = UnitId 0x00"

definition UnitId_is_rtu_reserved :: "UnitId \<Rightarrow> bool" where
  "UnitId_is_rtu_reserved u \<longleftrightarrow> 248 \<le> uid_value u"

definition UnitId_default :: UnitId where
  [conv_defs]: "UnitId_default = UnitId 0xFF"

section \<open>Address ranges\<close>

record AddressRange =
  ar_start :: u16
  ar_count :: u16

datatype ReadBitsRange = ReadBitsRange (rbr_inner: AddressRange)
datatype ReadRegistersRange = ReadRegistersRange (rrr_inner: AddressRange)

definition AddressRange_try_from :: "u16 \<Rightarrow> u16 \<Rightarrow> (AddressRange, InvalidRange) result" where
  "AddressRange_try_from start count =
     (if count = 0 then Err CountOfZero
      else let max_start = 0xFFFF - (count - 1) in
        if start > max_start then Err (AddressOverflow start count)
        else Ok \<lparr>ar_start = start, ar_count = count\<rparr>)"

definition AddressRange_to_std_range :: "AddressRange \<Rightarrow> usize \<times> usize" where
  "AddressRange_to_std_range r =
     (let start = unat (ar_start r); end = start + unat (ar_count r) in (start, end))"

definition AddressRange_limited_count :: "u16 \<Rightarrow> AddressRange \<Rightarrow> (AddressRange, InvalidRange) result" where
  "AddressRange_limited_count limit r =
     (if ar_count r > limit then Err (CountTooLargeForType (ar_count r) limit) else Ok r)"

definition AddressRange_of_read_bits :: "AddressRange \<Rightarrow> (ReadBitsRange, InvalidRange) result" where
  "AddressRange_of_read_bits r =
     bind_result (AddressRange_limited_count MAX_READ_COILS_COUNT r) (\<lambda>x. Ok (ReadBitsRange x))"

definition AddressRange_of_read_registers ::
    "AddressRange \<Rightarrow> (ReadRegistersRange, InvalidRange) result" where
  "AddressRange_of_read_registers r =
     bind_result (AddressRange_limited_count MAX_READ_REGISTERS_COUNT r)
       (\<lambda>x. Ok (ReadRegistersRange x))"

text \<open>The invariant the constructor establishes, and the addresses a range stands for.\<close>

definition valid_range :: "AddressRange \<Rightarrow> bool" where
  "valid_range r \<longleftrightarrow> 0 < unat (ar_count r) \<and> unat (ar_start r) + unat (ar_count r) \<le> 65536"

definition range_addresses :: "AddressRange \<Rightarrow> u16 list" where
  "range_addresses r = map (\<lambda>i. ar_start r + of_nat i) [0..<unat (ar_count r)]"

lemma max_start_exceeded:
  fixes start count :: u16
  assumes "count \<noteq> 0"
  shows "start > 0xFFFF - (count - 1) \<longleftrightarrow> 65536 < unat start + unat count"
proof -
  have pos: "0 < unat count"
    using assms by (simp add: unat_gt_0)
  have c1: "unat (count - 1) = unat count - 1"
    using assms by (rule unat_minus_one)
  have lim: "count - 1 \<le> 0xFFFF"
    using unat_u16_less [of "count - 1"] by (simp add: word_le_nat_alt)
  have "unat (0xFFFF - (count - 1)) = 0xFFFF - (unat count - 1)"
    using unat_sub [OF lim] by (simp add: c1)
  then show ?thesis
    using pos unat_u16_less [of count] by (simp add: word_less_nat_alt) arith
qed

lemma AddressRange_try_from_eq:
  "AddressRange_try_from start count =
     (if count = 0 then Err CountOfZero
      else if 65536 < unat start + unat count then Err (AddressOverflow start count)
      else Ok \<lparr>ar_start = start, ar_count = count\<rparr>)"
proof (cases "count = 0")
  case False
  then show ?thesis
    unfolding AddressRange_try_from_def Let_def max_start_exceeded [OF False] by simp
qed (simp add: AddressRange_try_from_def)

lemma AddressRange_try_from_Ok_iff:
  "AddressRange_try_from start count = Ok r \<longleftrightarrow>
     r = \<lparr>ar_start = start, ar_count = count\<rparr> \<and> valid_range r"
  by (auto simp: AddressRange_try_from_eq valid_range_def unat_gt_0)

lemma valid_range_try_from:
  "valid_range r \<Longrightarrow> AddressRange_try_from (ar_start r) (ar_count r) = Ok r"
  by (simp add: AddressRange_try_from_Ok_iff)

lemma AddressRange_of_read_Ok_iff:
  "AddressRange_of_read_bits r = Ok x \<longleftrightarrow> x = ReadBitsRange r \<and> unat (ar_count r) \<le> 2000"
  "AddressRange_of_read_registers r = Ok y \<longleftrightarrow> y = ReadRegistersRange r \<and> unat (ar_count r) \<le> 125"
  by (auto simp: AddressRange_of_read_bits_def AddressRange_of_read_registers_def
      AddressRange_limited_count_def MAX_READ_COILS_COUNT_def MAX_READ_REGISTERS_COUNT_def
      word_less_nat_alt)

lemma length_range_addresses [simp]: "length (range_addresses r) = unat (ar_count r)"
  by (simp add: range_addresses_def)

lemma range_addresses_nth:
  "i < unat (ar_count r) \<Longrightarrow> range_addresses r ! i = ar_start r + of_nat i"
  by (simp add: range_addresses_def)

lemma unat_range_address:
  assumes "valid_range r" and "i < unat (ar_count r)"
  shows "unat (ar_start r + of_nat i) = unat (ar_start r) + i"
  using assms unat_u16_less [of "ar_count r"]
  by (simp add: valid_range_def unat_add_u16_fits unat_of_nat_u16)

lemma distinct_range_addresses: "valid_range r \<Longrightarrow> distinct (range_addresses r)"
  by (auto simp: range_addresses_def distinct_map inj_on_def)
    (metis add_left_cancel unat_range_address)

section \<open>Indexed values and coil states\<close>

record 'a Indexed =
  ix_index :: u16
  ix_value :: 'a

definition Indexed_new :: "u16 \<Rightarrow> 'a \<Rightarrow> 'a Indexed" where
  [conv_defs]: "Indexed_new index value = \<lparr>ix_index = index, ix_value = value\<rparr>"

definition coil_from_u16 :: "u16 \<Rightarrow> (bool, AduParseError) result" where
  "coil_from_u16 value =
     (if value = coil_ON then Ok True
      else if value = coil_OFF then Ok False
      else Err (UnknownCoilState value))"

definition coil_to_u16 :: "bool \<Rightarrow> u16" where
  "coil_to_u16 value = (if value then coil_ON else coil_OFF)"

lemma coil_from_to_u16 [simp]: "coil_from_u16 (coil_to_u16 b) = Ok b"
  by (simp add: coil_from_u16_def coil_to_u16_def conv_defs)

lemma coil_from_u16_Ok: "coil_from_u16 v = Ok b \<longleftrightarrow> v = coil_to_u16 b"
  by (auto simp: coil_from_u16_def coil_to_u16_def conv_defs)

section \<open>The address iterator\<close>

record AddressIterator =
  ai_current :: u16
  ai_remain :: u16

definition AddressIterator_new :: "u16 \<Rightarrow> u16 \<Rightarrow> AddressIterator" where
  "AddressIterator_new current remain = \<lparr>ai_current = current, ai_remain = remain\<rparr>"

definition AddressIterator_next ::
    "('r, 'w, 'd, 'io) platform \<Rightarrow> (AddressIterator, u16 option, 'e) se" where
  "AddressIterator_next P it =
     (if ai_remain it = 0 then (Ok None, it)
      else let x = ai_remain it - 1; rt = ai_current it in
        case add_u16 P (ai_current it) 1 of
          Ok current \<Rightarrow> (Ok (Some rt), \<lparr>ai_current = current, ai_remain = x\<rparr>)
        | Err e \<Rightarrow> (Err e, it)
        | Panic \<Rightarrow> (Panic, it))"

definition AddressRange_iter :: "AddressRange \<Rightarrow> AddressIterator" where
  "AddressRange_iter r = AddressIterator_new (ar_start r) (ar_count r)"

text \<open>A \<open>for\<close> loop over an address iterator, with a body that may fail.\<close>

function for_addresses ::
    "('r, 'w, 'd, 'io) platform \<Rightarrow> (u16 \<Rightarrow> ('s, unit, 'e) se) \<Rightarrow> AddressIterator \<Rightarrow>
     ('s, unit, 'e) se" where
  "for_addresses P body it s =
     (case AddressIterator_next P it of
        (Ok None, _) \<Rightarrow> (Ok (), s)
      | (Ok (Some a), it') \<Rightarrow> (case body a s of
            (Ok _, s') \<Rightarrow> for_addresses P body it' s'
          | (Err e, s') \<Rightarrow> (Err e, s')
          | (Panic, s') \<Rightarrow> (Panic, s'))
      | (Err e, _) \<Rightarrow> (Err e, s)
      | (Panic, _) \<Rightarrow> (Panic, s))"
  by pat_completeness auto
termination
  by (relation "measure (\<lambda>(P, body, it, s). unat (ai_remain it))")
    (auto simp: AddressIterator_next_def unat_minus_one unat_gt_0
      split: if_splits result.splits)

declare for_addresses.simps [simp del]

text \<open>The same loop over a list of addresses: what the iterator is meant to do.\<close>

fun for_list :: "('a \<Rightarrow> ('s, unit, 'e) se) \<Rightarrow> 'a list \<Rightarrow> ('s, unit, 'e) se" where
  "for_list body [] s = (Ok (), s)"
| "for_list body (a # as) s = (case body a s of
      (Ok _, s') \<Rightarrow> for_list body as s'
    | (Err e, s') \<Rightarrow> (Err e, s')
    | (Panic, s') \<Rightarrow> (Panic, s'))"

abbreviation addresses_from :: "u16 \<Rightarrow> nat \<Rightarrow> u16 list" where
  "addresses_from a n \<equiv> map (\<lambda>i. a + of_nat i) [0..<n]"

lemma addresses_from_Suc: "addresses_from a (Suc n) = a # addresses_from (a + 1) n"
proof -
  have "[0..<Suc n] = 0 # map Suc [0..<n]"
    by (simp add: upt_conv_Cons map_Suc_upt del: upt_Suc)
  then show ?thesis by (simp add: comp_def add.assoc del: upt_Suc)
qed

lemma AddressIterator_next_Suc:
  assumes "unat (ai_remain it) = Suc n"
  shows "AddressIterator_next P it =
    (if overflow_checks P \<and> ai_current it = 0xFFFF then (Panic, it)
     else (Ok (Some (ai_current it)),
       \<lparr>ai_current = ai_current it + 1, ai_remain = ai_remain it - 1\<rparr>))"
    and "unat (ai_remain it - 1) = n"
proof -
  have nz: "ai_remain it \<noteq> 0" using assms by auto
  show "unat (ai_remain it - 1) = n" using assms unat_minus_one [OF nz] by simp
  have "65536 \<le> unat (ai_current it) + 1 \<longleftrightarrow> ai_current it = 0xFFFF"
    using unat_u16_less [of "ai_current it"] by (simp only: u16_eq_max) arith
  then show "AddressIterator_next P it =
    (if overflow_checks P \<and> ai_current it = 0xFFFF then (Panic, it)
     else (Ok (Some (ai_current it)),
       \<lparr>ai_current = ai_current it + 1, ai_remain = ai_remain it - 1\<rparr>))"
    using nz by (simp add: AddressIterator_next_def add_u16_def)
qed

text \<open>
  Without overflow checks, or when the range stops short of the last address, the loop visits the
  addresses of the range in order.
\<close>

lemma for_addresses_list:
  assumes "\<not> overflow_checks P \<or> unat (ai_current it) + unat (ai_remain it) < 65536"
  shows "for_addresses P body it s =
    for_list body (addresses_from (ai_current it) (unat (ai_remain it))) s"
  using assms
proof (induction "unat (ai_remain it)" arbitrary: it s)
  case 0
  then show ?case
    by (simp add: for_addresses.simps [of P body it s] AddressIterator_next_def unat_eq_0)
next
  case (Suc n)
  let ?it = "\<lparr>ai_current = ai_current it + 1, ai_remain = ai_remain it - 1\<rparr>"
  have rem: "unat (ai_remain ?it) = n"
    using AddressIterator_next_Suc(2) [OF Suc.hyps(2) [symmetric]] by simp
  have not_max: "\<not> (overflow_checks P \<and> ai_current it = 0xFFFF)"
    using Suc.prems Suc.hyps(2) by auto
  have nxt: "AddressIterator_next P it = (Ok (Some (ai_current it)), ?it)"
    using AddressIterator_next_Suc(1) [OF Suc.hyps(2) [symmetric], of P] not_max by auto
  have "\<not> overflow_checks P \<or> unat (ai_current ?it) + unat (ai_remain ?it) < 65536"
    using Suc.prems Suc.hyps(2) rem by (auto simp: unat_word_ariths)
  from Suc.hyps(1) [OF rem [symmetric] this] rem
  have IH: "for_addresses P body ?it s' = for_list body (addresses_from (ai_current it + 1) n) s'" for s'
    by simp
  show ?case
    by (simp add: for_addresses.simps [of P body it s] nxt IH Suc.hyps(2) [symmetric]
        addresses_from_Suc del: upt_Suc split: prod.splits result.splits)
qed

lemma for_addresses_range:
  assumes "\<not> overflow_checks P \<or> unat (ar_start r) + unat (ar_count r) < 65536"
  shows "for_addresses P body (AddressRange_iter r) s = for_list body (range_addresses r) s"
  using for_addresses_list [of P "AddressRange_iter r" body s] assms
  by (simp add: AddressRange_iter_def AddressIterator_new_def range_addresses_def)

text \<open>
  With overflow checks, a valid range that ends at the last address makes the loop panic when it
  asks for that address, after the body has run on the addresses before it.
\<close>

lemma for_addresses_panic:
  assumes "overflow_checks P" and "unat (ai_current it) + unat (ai_remain it) = 65536"
  shows "for_addresses P body it s =
    (case for_list body (addresses_from (ai_current it) (unat (ai_remain it) - 1)) s of
       (Ok _, s') \<Rightarrow> (Panic, s') | r \<Rightarrow> r)"
  using assms
proof (induction "unat (ai_remain it)" arbitrary: it s)
  case 0
  then show ?case using unat_u16_less [of "ai_current it"] by simp
next
  case (Suc n)
  let ?it = "\<lparr>ai_current = ai_current it + 1, ai_remain = ai_remain it - 1\<rparr>"
  note step = AddressIterator_next_Suc [OF Suc.hyps(2) [symmetric]]
  show ?case
  proof (cases n)
    case 0
    then have "ai_current it = 0xFFFF"
      using Suc.prems(2) Suc.hyps(2) by (simp only: u16_eq_max)
    then show ?thesis
      using Suc.prems(1) 0 Suc.hyps(2) by (simp add: for_addresses.simps [of P body it s] step(1))
  next
    case (Suc m)
    have cur: "unat (ai_current it) + 1 < 65536"
      using Suc.prems(2) Suc.hyps(2) Suc by simp
    then have not_max: "ai_current it \<noteq> 0xFFFF" by (auto simp only: u16_eq_max)
    have nxt: "AddressIterator_next P it = (Ok (Some (ai_current it)), ?it)"
      using step(1) [of P] not_max by simp
    have sum: "unat (ai_current ?it) + unat (ai_remain ?it) = 65536"
      using cur Suc.prems(2) Suc.hyps(2) step(2) by (simp add: unat_word_ariths)
    from Suc.hyps(1) [of ?it, OF _ Suc.prems(1) sum] step(2)
    have IH: "for_addresses P body ?it s' =
      (case for_list body (addresses_from (ai_current it + 1) m) s' of
         (Ok _, s'') \<Rightarrow> (Panic, s'') | r \<Rightarrow> r)" for s'
      using Suc by simp
    show ?thesis
      by (simp add: for_addresses.simps [of P body it s] nxt IH Suc.hyps(2) [symmetric] Suc
          addresses_from_Suc del: upt_Suc split: prod.splits result.splits)
  qed
qed

section \<open>Bit and register iterators\<close>

record BitIterator =
  bi_bytes :: "u8 list"
  bi_range :: AddressRange
  bi_pos :: u16

record RegisterIterator =
  ri_bytes :: "u8 list"
  ri_range :: AddressRange
  ri_pos :: u16

definition num_bytes_for_bits :: "u16 \<Rightarrow> usize" where
  "num_bytes_for_bits count = (unat count + 7) div 8"

definition get_index :: "'a list \<Rightarrow> usize \<Rightarrow> 'a option" where
  "get_index xs i = (if i < length xs then Some (xs ! i) else None)"

definition get_range :: "'a list \<Rightarrow> usize \<Rightarrow> usize \<Rightarrow> 'a list option" where
  "get_range xs i j = (if i \<le> j \<and> j \<le> length xs then Some (take (j - i) (drop i xs)) else None)"

definition expect_empty :: "('r, 'w, 'd, 'io) platform \<Rightarrow> ('r, unit, RequestError) se" where
  "expect_empty P c = (map_err RequestError_from_TrailingBytes (rc_expect_empty P c), c)"

definition BitIterator_parse_all ::
    "('r, 'w, 'd, 'io) platform \<Rightarrow> AddressRange \<Rightarrow> ('r, BitIterator, RequestError) se" where
  "BitIterator_parse_all P rng =
     bnd (conv_err RequestError_from_ReadError (rc_read_bytes P (num_bytes_for_bits (ar_count rng))))
       (\<lambda>bytes. bnd (expect_empty P)
         (\<lambda>_. ret \<lparr>bi_bytes = bytes, bi_range = rng, bi_pos = 0\<rparr>))"

definition RegisterIterator_parse_all ::
    "('r, 'w, 'd, 'io) platform \<Rightarrow> AddressRange \<Rightarrow> ('r, RegisterIterator, RequestError) se" where
  "RegisterIterator_parse_all P rng =
     bnd (conv_err RequestError_from_ReadError (rc_read_bytes P (2 * unat (ar_count rng))))
       (\<lambda>bytes. bnd (expect_empty P)
         (\<lambda>_. ret \<lparr>ri_bytes = bytes, ri_range = rng, ri_pos = 0\<rparr>))"

definition BitIterator_next ::
    "('r, 'w, 'd, 'io) platform \<Rightarrow> (BitIterator, bool Indexed option, 'e) se" where
  "BitIterator_next P it =
     (if bi_pos it = ar_count (bi_range it) then (Ok None, it)
      else let byte = bi_pos it div 8; bt = unat (bi_pos it mod 8) in
        case get_index (bi_bytes it) (unat byte) of
          Some value \<Rightarrow>
            let b = (value AND push_bit bt 1) \<noteq> 0 in
            (case add_u16 P (ar_start (bi_range it)) (bi_pos it) of
               Ok address \<Rightarrow> (case add_u16 P (bi_pos it) 1 of
                   Ok pos \<Rightarrow> (Ok (Some (Indexed_new address b)), it\<lparr>bi_pos := pos\<rparr>)
                 | Err e \<Rightarrow> (Err e, it) | Panic \<Rightarrow> (Panic, it))
             | Err e \<Rightarrow> (Err e, it) | Panic \<Rightarrow> (Panic, it))
        | None \<Rightarrow> (Ok None, it))"

definition RegisterIterator_next ::
    "('r, 'w, 'd, 'io) platform \<Rightarrow> (RegisterIterator, u16 Indexed option, 'e) se" where
  "RegisterIterator_next P it =
     (if ri_pos it = ar_count (ri_range it) then (Ok None, it)
      else let pos = 2 * unat (ri_pos it) in
        case get_range (ri_bytes it) pos (pos + 2) of
          Some [high, low] \<Rightarrow>
            let value = push_bit 8 (ucast high) OR ucast low in
            (case add_u16 P (ri_pos it) (ar_start (ri_range it)) of
               Ok index \<Rightarrow> (case add_u16 P (ri_pos it) 1 of
                   Ok p \<Rightarrow> (Ok (Some (Indexed_new index value)), it\<lparr>ri_pos := p\<rparr>)
                 | Err e \<Rightarrow> (Err e, it) | Panic \<Rightarrow> (Panic, it))
             | Err e \<Rightarrow> (Err e, it) | Panic \<Rightarrow> (Panic, it))
        | _ \<Rightarrow> (Ok None, it))"

definition BitIterator_size_hint ::
    "('r, 'w, 'd, 'io) platform \<Rightarrow> BitIterator \<Rightarrow> (usize \<times> usize option, 'e) result" where
  "BitIterator_size_hint P it =
     bind_result (sub_u16 P (ar_count (bi_range it)) (bi_pos it))
       (\<lambda>d. let remaining = unat d in Ok (remaining, Some remaining))"

definition RegisterIterator_size_hint ::
    "('r, 'w, 'd, 'io) platform \<Rightarrow> RegisterIterator \<Rightarrow> (usize \<times> usize option, 'e) result" where
  "RegisterIterator_size_hint P it =
     bind_result (sub_u16 P (ar_count (ri_range it)) (ri_pos it))
       (\<lambda>d. let remaining = unat d in Ok (remaining, Some remaining))"

lemma BitIterator_next_advances:
  assumes "BitIterator_next P it = (Ok (Some x), it')"
  shows "bi_pos it' = bi_pos it + 1 \<and> bi_range it' = bi_range it \<and> bi_bytes it' = bi_bytes it \<and>
    bi_pos it \<noteq> ar_count (bi_range it)"
  using assms
  by (auto simp: BitIterator_next_def Let_def add_u16_def split: if_splits option.splits result.splits)

lemma RegisterIterator_next_advances:
  assumes "RegisterIterator_next P it = (Ok (Some x), it')"
  shows "ri_pos it' = ri_pos it + 1 \<and> ri_range it' = ri_range it \<and> ri_bytes it' = ri_bytes it \<and>
    ri_pos it \<noteq> ar_count (ri_range it)"
  using assms
  by (auto simp: RegisterIterator_next_def Let_def add_u16_def
      split: if_splits option.splits result.splits list.splits)

lemma unat_distance_step:
  fixes pos count :: u16
  assumes "pos \<noteq> count"
  shows "unat (count - (pos + 1)) < unat (count - pos)"
proof -
  have "count - pos \<noteq> 0" using assms by simp
  then have "unat ((count - pos) - 1) < unat (count - pos)"
    by (simp add: unat_minus_one unat_gt_0)
  then show ?thesis by (simp add: algebra_simps)
qed

text \<open>\<open>collect()\<close>: iterate until \<open>None\<close>.\<close>

function BitIterator_collect ::
    "('r, 'w, 'd, 'io) platform \<Rightarrow> BitIterator \<Rightarrow> (bool Indexed list, 'e) result" where
  "BitIterator_collect P it =
     (case BitIterator_next P it of
        (Ok None, _) \<Rightarrow> Ok []
      | (Ok (Some x), it') \<Rightarrow> bind_result (BitIterator_collect P it') (\<lambda>xs. Ok (x # xs))
      | (Err e, _) \<Rightarrow> Err e
      | (Panic, _) \<Rightarrow> Panic)"
  by pat_completeness auto
termination
  by (relation "measure (\<lambda>(P, it). unat (ar_count (bi_range it) - bi_pos it))")
    (auto dest!: BitIterator_next_advances [OF sym] simp: unat_distance_step)

function RegisterIterator_collect ::
    "('r, 'w, 'd, 'io) platform \<Rightarrow> RegisterIterator \<Rightarrow> (u16 Indexed list, 'e) result" where
  "RegisterIterator_collect P it =
     (case RegisterIterator_next P it of
        (Ok None, _) \<Rightarrow> Ok []
      | (Ok (Some x), it') \<Rightarrow> bind_result (RegisterIterator_collect P it') (\<lambda>xs. Ok (x # xs))
      | (Err e, _) \<Rightarrow> Err e
      | (Panic, _) \<Rightarrow> Panic)"
  by pat_completeness auto
termination
  by (relation "measure (\<lambda>(P, it). unat (ar_count (ri_range it) - ri_pos it))")
    (auto dest!: RegisterIterator_next_advances [OF sym] simp: unat_distance_step)

declare BitIterator_collect.simps [simp del] RegisterIterator_collect.simps [simp del]

text \<open>What the iterators are meant to produce: bit \<open>i\<close> and register \<open>i\<close> of the payload.\<close>

definition bit_at :: "u8 list \<Rightarrow> nat \<Rightarrow> bool" where
  "bit_at bytes i = bit (bytes ! (i div 8)) (i mod 8)"

definition register_at :: "u8 list \<Rightarrow> nat \<Rightarrow> u16" where
  "register_at bytes i = u16_be (bytes ! (2 * i)) (bytes ! (2 * i + 1))"

definition indexed_values :: "AddressRange \<Rightarrow> (nat \<Rightarrow> 'a) \<Rightarrow> 'a Indexed list" where
  "indexed_values r f =
     map (\<lambda>i. Indexed_new (ar_start r + of_nat i) (f i)) [0..<unat (ar_count r)]"

lemma length_indexed_values [simp]: "length (indexed_values r f) = unat (ar_count r)"
  by (simp add: indexed_values_def)

lemma num_bytes_index: "i < unat c \<Longrightarrow> i div 8 < num_bytes_for_bits c"
  by (simp add: num_bytes_for_bits_def)

lemma BitIterator_next_at:
  assumes "valid_range r" and "num_bytes_for_bits (ar_count r) \<le> length bytes"
    and "i < unat (ar_count r)"
  shows "BitIterator_next P \<lparr>bi_bytes = bytes, bi_range = r, bi_pos = of_nat i\<rparr> =
    (Ok (Some (Indexed_new (ar_start r + of_nat i) (bit_at bytes i))),
     \<lparr>bi_bytes = bytes, bi_range = r, bi_pos = of_nat (Suc i)\<rparr>)"
proof -
  have i: "i < 65535" using assms(3) unat_u16_less [of "ar_count r"] by simp
  then have u: "unat (of_nat i :: u16) = i" by (simp add: unat_of_nat_u16)
  have ne: "of_nat i \<noteq> ar_count r" using assms(3) u by auto
  have byte: "unat (of_nat i div 8 :: u16) = i div 8" "unat (of_nat i mod 8 :: u16) = i mod 8"
    by (simp_all add: unat_div unat_mod u)
  have idx: "i div 8 < length bytes" using num_bytes_index [OF assms(3)] assms(2) by simp
  have addr: "unat (ar_start r) + unat (of_nat i :: u16) < 65536"
    using assms(1,3) u by (simp add: valid_range_def)
  have pos: "unat (of_nat i :: u16) + unat (1 :: u16) < 65536" using i u by simp
  show ?thesis
    by (simp add: BitIterator_next_def Let_def ne byte get_index_def idx masked_bit_power bit_at_def
        add_u16_fits [OF addr] add_u16_fits [OF pos] add.commute)
qed

lemma BitIterator_collect_from:
  assumes "valid_range r" and "num_bytes_for_bits (ar_count r) \<le> length bytes"
    and "i \<le> unat (ar_count r)"
  shows "BitIterator_collect P \<lparr>bi_bytes = bytes, bi_range = r, bi_pos = of_nat i\<rparr> =
    Ok (map (\<lambda>i. Indexed_new (ar_start r + of_nat i) (bit_at bytes i)) [i..<unat (ar_count r)])"
  using assms(3)
proof (induction rule: inc_induct)
  case base
  show ?case by (simp add: BitIterator_collect.simps BitIterator_next_def)
next
  case (step i)
  then show ?case
    by (simp add: BitIterator_collect.simps [of P "\<lparr>bi_bytes = bytes, bi_range = r, bi_pos = of_nat i\<rparr>"]
        BitIterator_next_at [OF assms(1,2)] upt_conv_Cons del: of_nat_Suc)
qed

lemma BitIterator_collect_all:
  assumes "valid_range r" and "num_bytes_for_bits (ar_count r) \<le> length bytes"
  shows "BitIterator_collect P \<lparr>bi_bytes = bytes, bi_range = r, bi_pos = 0\<rparr> =
    Ok (indexed_values r (bit_at bytes))"
  using BitIterator_collect_from [OF assms, of 0 P] by (simp add: indexed_values_def)

lemma two_bytes_at:
  assumes "2 * i + 2 \<le> length bytes"
  shows "get_range bytes (2 * i) (2 * i + 2) = Some [bytes ! (2 * i), bytes ! (2 * i + 1)]"
proof -
  have "drop (2 * i) bytes = bytes ! (2 * i) # bytes ! (2 * i + 1) # drop (2 * i + 2) bytes"
    using assms by (simp add: Cons_nth_drop_Suc)
  then show ?thesis using assms by (simp add: get_range_def)
qed

lemma RegisterIterator_next_at:
  assumes "valid_range r" and "2 * unat (ar_count r) \<le> length bytes"
    and "i < unat (ar_count r)"
  shows "RegisterIterator_next P \<lparr>ri_bytes = bytes, ri_range = r, ri_pos = of_nat i\<rparr> =
    (Ok (Some (Indexed_new (ar_start r + of_nat i) (register_at bytes i))),
     \<lparr>ri_bytes = bytes, ri_range = r, ri_pos = of_nat (Suc i)\<rparr>)"
proof -
  have i: "i < 65535" using assms(3) unat_u16_less [of "ar_count r"] by simp
  then have u: "unat (of_nat i :: u16) = i" by (simp add: unat_of_nat_u16)
  have ne: "of_nat i \<noteq> ar_count r" using assms(3) u by auto
  have two: "get_range bytes (2 * i) (2 * i + 2) = Some [bytes ! (2 * i), bytes ! (2 * i + 1)]"
    by (rule two_bytes_at) (use assms(2,3) in simp)
  have addr: "unat (of_nat i :: u16) + unat (ar_start r) < 65536"
    using assms(1,3) u by (simp add: valid_range_def)
  have pos: "unat (of_nat i :: u16) + unat (1 :: u16) < 65536" using i u by simp
  show ?thesis
    by (simp only: RegisterIterator_next_def Let_def RegisterIterator.simps ne u two if_False
          option.case list.case add_u16_fits [OF addr] add_u16_fits [OF pos] result.case)
      (simp add: register_at_def u16_be_def add.commute)
qed

lemma RegisterIterator_collect_from:
  assumes "valid_range r" and "2 * unat (ar_count r) \<le> length bytes"
    and "i \<le> unat (ar_count r)"
  shows "RegisterIterator_collect P \<lparr>ri_bytes = bytes, ri_range = r, ri_pos = of_nat i\<rparr> =
    Ok (map (\<lambda>i. Indexed_new (ar_start r + of_nat i) (register_at bytes i)) [i..<unat (ar_count r)])"
  using assms(3)
proof (induction rule: inc_induct)
  case base
  show ?case by (simp add: RegisterIterator_collect.simps RegisterIterator_next_def)
next
  case (step i)
  then show ?case
    by (simp add: RegisterIterator_collect.simps [of P "\<lparr>ri_bytes = bytes, ri_range = r, ri_pos = of_nat i\<rparr>"]
        RegisterIterator_next_at [OF assms(1,2)] upt_conv_Cons del: of_nat_Suc)
qed

lemma RegisterIterator_collect_all:
  assumes "valid_range r" and "2 * unat (ar_count r) \<le> length bytes"
  shows "RegisterIterator_collect P \<lparr>ri_bytes = bytes, ri_range = r, ri_pos = 0\<rparr> =
    Ok (indexed_values r (register_at bytes))"
  using RegisterIterator_collect_from [OF assms, of 0 P] by (simp add: indexed_values_def)

end
