(* ===== verification/Buffer.thy ===== *)
theory Buffer
  imports Platform
begin

text \<open>
  The receive buffer of \<open>rodbus/src/common/buffer.rs\<close>: a fixed array of 260 bytes with the
  indices of the unread part. Every operation is described by what it does to the unread bytes,
  \<open>rb_view\<close>, and keeps the invariant \<open>rb_wf\<close>. Under that invariant the
  subtractions and additions of the code stay within \<open>usize\<close>, so they are written on
  natural numbers.
\<close>

section \<open>Frame sizes\<close>

definition MAX_ADU_LENGTH :: usize where [conv_defs]: "MAX_ADU_LENGTH = 253"

definition tcp_HEADER_LENGTH :: usize where [conv_defs]: "tcp_HEADER_LENGTH = 7"
definition tcp_MAX_FRAME_LENGTH :: usize where
  [conv_defs]: "tcp_MAX_FRAME_LENGTH = tcp_HEADER_LENGTH + MAX_ADU_LENGTH"
definition MAX_LENGTH_FIELD :: usize where [conv_defs]: "MAX_LENGTH_FIELD = MAX_ADU_LENGTH + 1"

definition rtu_HEADER_LENGTH :: usize where [conv_defs]: "rtu_HEADER_LENGTH = 1"
definition FUNCTION_CODE_LENGTH :: usize where [conv_defs]: "FUNCTION_CODE_LENGTH = 1"
definition CRC_LENGTH :: usize where [conv_defs]: "CRC_LENGTH = 2"
definition rtu_MAX_FRAME_LENGTH :: usize where
  [conv_defs]: "rtu_MAX_FRAME_LENGTH = rtu_HEADER_LENGTH + MAX_ADU_LENGTH + CRC_LENGTH"

definition MAX_FRAME_LENGTH :: usize where
  [conv_defs]: "MAX_FRAME_LENGTH =
     (if tcp_MAX_FRAME_LENGTH > rtu_MAX_FRAME_LENGTH then tcp_MAX_FRAME_LENGTH
      else rtu_MAX_FRAME_LENGTH)"

lemma MAX_FRAME_LENGTH_eq [simp]: "MAX_FRAME_LENGTH = 260"
  by (simp add: conv_defs)

section \<open>The buffer and its operations\<close>

record ReadBuffer =
  rb_buffer :: "u8 list"
  rb_begin :: usize
  rb_end :: usize

definition ReadBuffer_new :: ReadBuffer where
  "ReadBuffer_new = \<lparr>rb_buffer = replicate MAX_FRAME_LENGTH 0, rb_begin = 0, rb_end = 0\<rparr>"

definition ReadBuffer_len :: "ReadBuffer \<Rightarrow> usize" where
  "ReadBuffer_len rb = rb_end rb - rb_begin rb"

definition ReadBuffer_is_empty :: "ReadBuffer \<Rightarrow> bool" where
  "ReadBuffer_is_empty rb \<longleftrightarrow> rb_begin rb = rb_end rb"

definition ReadBuffer_read :: "usize \<Rightarrow> (ReadBuffer, u8 list, InternalError) se" where
  "ReadBuffer_read count rb =
     (if ReadBuffer_len rb < count
      then (Err (InsufficientBytesForRead count (ReadBuffer_len rb)), rb)
      else if rb_begin rb + count \<le> length (rb_buffer rb)
      then (Ok (take count (drop (rb_begin rb) (rb_buffer rb))), rb\<lparr>rb_begin := rb_begin rb + count\<rparr>)
      else (Err (InsufficientBytesForRead count (ReadBuffer_len rb)), rb))"

definition ReadBuffer_read_u8 :: "(ReadBuffer, u8, InternalError) se" where
  "ReadBuffer_read_u8 rb =
     (if ReadBuffer_is_empty rb then (Err (InsufficientBytesForRead 1 0), rb)
      else if rb_begin rb < length (rb_buffer rb)
      then (Ok (rb_buffer rb ! rb_begin rb), rb\<lparr>rb_begin := rb_begin rb + 1\<rparr>)
      else (Err (InsufficientBytesForRead 1 0), rb))"

definition ReadBuffer_peek_at :: "usize \<Rightarrow> (ReadBuffer, u8, InternalError) se" where
  "ReadBuffer_peek_at idx rb =
     (let len = ReadBuffer_len rb in
      if len < idx then (Err (InsufficientBytesForRead (idx + 1) len), rb)
      else if rb_begin rb + idx < length (rb_buffer rb)
      then (Ok (rb_buffer rb ! (rb_begin rb + idx)), rb)
      else (Err (InsufficientBytesForRead (idx + 1) len), rb))"

definition ReadBuffer_read_u16_be :: "(ReadBuffer, u16, InternalError) se" where
  "ReadBuffer_read_u16_be =
     bnd ReadBuffer_read_u8 (\<lambda>b1. bnd ReadBuffer_read_u8 (\<lambda>b2. ret (push_bit 8 (ucast b1) OR ucast b2)))"

definition ReadBuffer_read_u16_le :: "(ReadBuffer, u16, InternalError) se" where
  "ReadBuffer_read_u16_le =
     bnd ReadBuffer_read_u8 (\<lambda>b1. bnd ReadBuffer_read_u8 (\<lambda>b2. ret (push_bit 8 (ucast b2) OR ucast b1)))"

text \<open>
  \<open>read_some\<close> first rewinds an empty buffer and then, when \<open>end == len()\<close>, moves
  the unread bytes to the front. A pending read leaves these index adjustments in place.
\<close>

definition ReadBuffer_rewind :: "ReadBuffer \<Rightarrow> ReadBuffer" where
  "ReadBuffer_rewind rb =
     (let rb1 = (if ReadBuffer_is_empty rb then rb\<lparr>rb_begin := 0, rb_end := 0\<rparr> else rb)
      in if rb_end rb1 = ReadBuffer_len rb1
         then let len = ReadBuffer_len rb1;
                  unread = take len (drop (rb_begin rb1) (rb_buffer rb1))
              in rb1\<lparr>rb_buffer := patch (rb_buffer rb1) 0 unread, rb_begin := 0, rb_end := len\<rparr>
         else rb1)"

definition ReadBuffer_read_some ::
    "('r, 'w, 'd, 'io) platform \<Rightarrow> ReadBuffer \<Rightarrow> 'io \<Rightarrow>
     (usize, ErrorKind) result poll \<times> ReadBuffer \<times> 'io" where
  "ReadBuffer_read_some P rb0 io =
     (let rb = ReadBuffer_rewind rb0 in
      if length (rb_buffer rb) < rb_end rb then (Ready Panic, rb, io)
      else case io_read P (length (rb_buffer rb) - rb_end rb) io of
        (Ready (Ok bs), io') \<Rightarrow>
          let count = length bs; rb' = rb\<lparr>rb_buffer := patch (rb_buffer rb) (rb_end rb) bs\<rparr> in
          if count = 0 then (Ready (Err UnexpectedEof), rb', io')
          else (Ready (Ok count), rb'\<lparr>rb_end := rb_end rb + count\<rparr>, io')
      | (Ready (Err e), io') \<Rightarrow> (Ready (Err e), rb, io')
      | (Ready Panic, io') \<Rightarrow> (Ready Panic, rb, io')
      | (Pending, io') \<Rightarrow> (Pending, rb, io'))"

section \<open>Invariant and abstraction\<close>

definition rb_wf :: "ReadBuffer \<Rightarrow> bool" where
  "rb_wf rb \<longleftrightarrow> length (rb_buffer rb) = MAX_FRAME_LENGTH \<and> rb_begin rb \<le> rb_end rb \<and>
     rb_end rb \<le> MAX_FRAME_LENGTH"

definition rb_view :: "ReadBuffer \<Rightarrow> u8 list" where
  "rb_view rb = take (rb_end rb - rb_begin rb) (drop (rb_begin rb) (rb_buffer rb))"

lemma rb_wf_new [simp]: "rb_wf ReadBuffer_new" "rb_view ReadBuffer_new = []"
  by (simp_all add: rb_wf_def rb_view_def ReadBuffer_new_def)

lemma length_rb_view: "rb_wf rb \<Longrightarrow> length (rb_view rb) = ReadBuffer_len rb"
  by (auto simp add: rb_wf_def rb_view_def ReadBuffer_len_def)

lemma ReadBuffer_is_empty_iff: "rb_wf rb \<Longrightarrow> ReadBuffer_is_empty rb \<longleftrightarrow> rb_view rb = []"
  by (auto simp: rb_wf_def rb_view_def ReadBuffer_is_empty_def)

lemma rb_view_nth:
  "rb_wf rb \<Longrightarrow> i < length (rb_view rb) \<Longrightarrow> rb_view rb ! i = rb_buffer rb ! (rb_begin rb + i)"
  by (simp add: rb_wf_def rb_view_def)

text \<open>What an operation that only consumes bytes does: the rest is left, the end stays.\<close>

definition rb_skip :: "nat \<Rightarrow> ReadBuffer \<Rightarrow> ReadBuffer" where
  "rb_skip n rb = rb\<lparr>rb_begin := rb_begin rb + n\<rparr>"

lemma rb_skip_props:
  assumes "rb_wf rb" and "n \<le> length (rb_view rb)"
  shows "rb_wf (rb_skip n rb)" and "rb_view (rb_skip n rb) = drop n (rb_view rb)"
    and "rb_end (rb_skip n rb) = rb_end rb"
  using assms by (auto simp: rb_wf_def rb_view_def rb_skip_def drop_take add.commute)

lemma rb_skip_skip [simp]: "rb_skip m (rb_skip n rb) = rb_skip (n + m) rb"
  by (simp add: rb_skip_def add.assoc)

lemma rb_skip_0 [simp]: "rb_skip 0 rb = rb"
  by (simp add: rb_skip_def)

lemma ReadBuffer_read_enough:
  assumes "rb_wf rb" and "n \<le> length (rb_view rb)"
  shows "ReadBuffer_read n rb = (Ok (take n (rb_view rb)), rb_skip n rb)"
  using assms
  by (simp add: ReadBuffer_read_def length_rb_view rb_skip_def)
    (auto simp: rb_wf_def rb_view_def ReadBuffer_len_def min_def)

lemma ReadBuffer_read_short:
  assumes "rb_wf rb" and "length (rb_view rb) < n"
  shows "ReadBuffer_read n rb = (Err (InsufficientBytesForRead n (length (rb_view rb))), rb)"
  using assms by (simp add: ReadBuffer_read_def length_rb_view)

lemma ReadBuffer_read_u8_Cons:
  assumes "rb_wf rb" and "rb_view rb = b # bs"
  shows "ReadBuffer_read_u8 rb = (Ok b, rb_skip 1 rb)"
proof -
  have "rb_view rb ! 0 = rb_buffer rb ! rb_begin rb"
    using rb_view_nth [OF assms(1), of 0] assms(2) by simp
  moreover have "\<not> ReadBuffer_is_empty rb"
    using assms by (simp add: ReadBuffer_is_empty_iff)
  moreover have "rb_begin rb < length (rb_buffer rb)"
    using assms length_rb_view [OF assms(1)] by (auto simp: rb_wf_def ReadBuffer_len_def)
  ultimately show ?thesis
    using assms(2) by (simp add: ReadBuffer_read_u8_def rb_skip_def)
qed

lemma ReadBuffer_read_u8_Nil:
  "rb_wf rb \<Longrightarrow> rb_view rb = [] \<Longrightarrow>
     ReadBuffer_read_u8 rb = (Err (InsufficientBytesForRead 1 0), rb)"
  by (simp add: ReadBuffer_read_u8_def ReadBuffer_is_empty_iff)

lemma ReadBuffer_read_u16:
  assumes "rb_wf rb" and "rb_view rb = a # b # bs"
  shows "ReadBuffer_read_u16_be rb = (Ok (u16_be a b), rb_skip 2 rb)"
    and "ReadBuffer_read_u16_le rb = (Ok (u16_be b a), rb_skip 2 rb)"
proof -
  have wf: "rb_wf (rb_skip 1 rb)" and view: "rb_view (rb_skip 1 rb) = b # bs"
    using rb_skip_props [OF assms(1), of 1] assms(2) by simp_all
  note reads = ReadBuffer_read_u8_Cons [OF assms]
    ReadBuffer_read_u8_Cons [OF wf view, unfolded One_nat_def]
  show "ReadBuffer_read_u16_be rb = (Ok (u16_be a b), rb_skip 2 rb)"
    by (simp add: ReadBuffer_read_u16_be_def bnd_def ret_def reads u16_be_def numeral_2_eq_2)
  show "ReadBuffer_read_u16_le rb = (Ok (u16_be b a), rb_skip 2 rb)"
    by (simp add: ReadBuffer_read_u16_le_def bnd_def ret_def reads u16_be_def numeral_2_eq_2)
qed

text \<open>
  \<open>peek_at\<close> returns the byte at an index of the unread part; for the index just past it,
  it returns a byte that is not part of the input.
\<close>

lemma ReadBuffer_peek_at_inside:
  assumes "rb_wf rb" and "i < length (rb_view rb)"
  shows "ReadBuffer_peek_at i rb = (Ok (rb_view rb ! i), rb)"
  using assms rb_view_nth [OF assms]
  by (auto simp: ReadBuffer_peek_at_def Let_def length_rb_view rb_wf_def ReadBuffer_len_def)

lemma ReadBuffer_peek_at_past_end:
  assumes "rb_wf rb" and "rb_end rb < MAX_FRAME_LENGTH"
  shows "ReadBuffer_peek_at (length (rb_view rb)) rb = (Ok (rb_buffer rb ! rb_end rb), rb)"
  using assms by (auto simp: ReadBuffer_peek_at_def Let_def length_rb_view rb_wf_def ReadBuffer_len_def)

lemma keeps_buffer_ops [intro]:
  "keeps rb_wf (ReadBuffer_read n)" "keeps rb_wf ReadBuffer_read_u8" "keeps rb_wf (ReadBuffer_peek_at i)"
  by (auto simp: keeps_def ReadBuffer_read_def ReadBuffer_read_u8_def ReadBuffer_peek_at_def Let_def
      rb_wf_def ReadBuffer_len_def ReadBuffer_is_empty_def)

lemma keeps_buffer_u16 [intro]: "keeps rb_wf ReadBuffer_read_u16_be" "keeps rb_wf ReadBuffer_read_u16_le"
  unfolding ReadBuffer_read_u16_be_def ReadBuffer_read_u16_le_def by (intro keeps_bnd keeps_ret keeps_buffer_ops)+

lemma ReadBuffer_rewind_props:
  assumes "rb_wf rb"
  shows "rb_wf (ReadBuffer_rewind rb)" and "rb_view (ReadBuffer_rewind rb) = rb_view rb"
    and "rb_end (ReadBuffer_rewind rb) = (if rb_view rb = [] then 0 else rb_end rb)"
proof -
  have "rb_wf (ReadBuffer_rewind rb) \<and> rb_view (ReadBuffer_rewind rb) = rb_view rb \<and>
      rb_end (ReadBuffer_rewind rb) = (if rb_view rb = [] then 0 else rb_end rb)"
  proof (cases "ReadBuffer_is_empty rb")
    case True
    then have "rb_view rb = []" using assms by (simp add: ReadBuffer_is_empty_iff)
    then show ?thesis
      using True assms by (auto simp: ReadBuffer_rewind_def Let_def ReadBuffer_len_def rb_wf_def rb_view_def)
  next
    case False
    then have "rb_view rb \<noteq> []" using assms by (simp add: ReadBuffer_is_empty_iff)
    then show ?thesis
      using False assms
      by (auto simp: ReadBuffer_rewind_def Let_def ReadBuffer_len_def rb_wf_def rb_view_def patch_def)
  qed
  then show "rb_wf (ReadBuffer_rewind rb)" "rb_view (ReadBuffer_rewind rb) = rb_view rb"
    "rb_end (ReadBuffer_rewind rb) = (if rb_view rb = [] then 0 else rb_end rb)" by auto
qed

lemma rb_view_append:
  assumes "rb_wf rb" and "rb_end rb + length bs \<le> MAX_FRAME_LENGTH"
  shows "rb_view (rb\<lparr>rb_buffer := patch (rb_buffer rb) (rb_end rb) bs, rb_end := rb_end rb + length bs\<rparr>)
    = rb_view rb @ bs"
    and "rb_wf (rb\<lparr>rb_buffer := patch (rb_buffer rb) (rb_end rb) bs, rb_end := rb_end rb + length bs\<rparr>)"
proof -
  let ?b = "rb_buffer rb" and ?e = "rb_end rb" and ?s = "rb_begin rb"
  have wf: "length ?b = 260" "?s \<le> ?e" "?e + length bs \<le> 260" using assms by (auto simp: rb_wf_def)
  have "take (?e + length bs - ?s) (drop ?s (patch ?b ?e bs)) =
      drop ?s (take (?e + length bs) (patch ?b ?e bs))"
    by (simp add: drop_take)
  also have "\<dots> = drop ?s (take ?e ?b @ bs)"
    using wf by (simp add: take_patch_end)
  also have "\<dots> = take (?e - ?s) (drop ?s ?b) @ bs"
    using wf by (simp add: drop_take)
  finally show "rb_view (rb\<lparr>rb_buffer := patch ?b ?e bs, rb_end := ?e + length bs\<rparr>) = rb_view rb @ bs"
    by (simp add: rb_view_def)
  show "rb_wf (rb\<lparr>rb_buffer := patch ?b ?e bs, rb_end := ?e + length bs\<rparr>)"
    using wf by (simp add: rb_wf_def)
qed

lemma rb_view_patch_tail:
  assumes "rb_wf rb"
  shows "rb_view (rb\<lparr>rb_buffer := patch (rb_buffer rb) (rb_end rb) []\<rparr>) = rb_view rb"
  by simp

text \<open>
  With unread bytes that end at the capacity but do not start at the front, the buffer is not
  shifted: the slice handed to the stream is empty, whatever the peer has sent.
\<close>

lemma ReadBuffer_rewind_no_shift:
  assumes "rb_wf rb" and "0 < rb_begin rb" and "rb_begin rb < rb_end rb"
  shows "ReadBuffer_rewind rb = rb"
  using assms by (auto simp: ReadBuffer_rewind_def Let_def ReadBuffer_is_empty_def ReadBuffer_len_def rb_wf_def)

context byte_stream
begin

lemma read_some_Data:
  assumes "rb_wf rb" and "incoming io = Data bs # rest" and "bs \<noteq> []"
    and "(if rb_view rb = [] then 0 else rb_end rb) < MAX_FRAME_LENGTH"
  defines "cap \<equiv> MAX_FRAME_LENGTH - (if rb_view rb = [] then 0 else rb_end rb)"
  shows "\<exists>rb' io'. ReadBuffer_read_some P rb io = (Ready (Ok (length (take cap bs))), rb', io') \<and>
    rb_wf rb' \<and> rb_view rb' = rb_view rb @ take cap bs \<and>
    rb_end rb' = (if rb_view rb = [] then 0 else rb_end rb) + length (take cap bs) \<and>
    incoming io' = (if length bs \<le> cap then rest else Data (drop cap bs) # rest) \<and>
    sent io' = sent io"
proof -
  let ?rb = "ReadBuffer_rewind rb"
  note rw = ReadBuffer_rewind_props [OF assms(1)]
  have len: "length (rb_buffer ?rb) = MAX_FRAME_LENGTH" using rw(1) by (simp add: rb_wf_def)
  have cap: "MAX_FRAME_LENGTH - rb_end ?rb = cap" "0 < cap" using rw(3) assms(4) by (simp_all add: cap_def)
  obtain io' where io': "io_read P cap io = (Ready (Ok (take cap bs)), io')" "sent io' = sent io"
    "incoming io' = (if length bs \<le> cap then rest else Data (drop cap bs) # rest)"
    using io_read_Data [OF assms(2,3) cap(2)] by blast
  have fits: "rb_end ?rb + length (take cap bs) \<le> MAX_FRAME_LENGTH"
    using rw(1) cap by (simp add: rb_wf_def)
  have "take cap bs \<noteq> []" using cap(2) assms(3) by simp
  moreover have "\<not> length (rb_buffer ?rb) < rb_end ?rb" using rw(1) by (simp add: rb_wf_def)
  ultimately have "ReadBuffer_read_some P rb io = (Ready (Ok (length (take cap bs))),
      ?rb\<lparr>rb_buffer := patch (rb_buffer ?rb) (rb_end ?rb) (take cap bs),
          rb_end := rb_end ?rb + length (take cap bs)\<rparr>, io')"
    using io'(1) cap(1) len by (simp add: ReadBuffer_read_some_def Let_def)
  then show ?thesis
    using rb_view_append [OF rw(1) fits] io'(2,3) rw(2,3) by auto
qed

text \<open>Every outcome of a read keeps the invariant, and a successful one adds bytes.\<close>

lemma read_some_wf:
  assumes "rb_wf rb" and "ReadBuffer_read_some P rb io = (r, rb', io')"
  shows "rb_wf rb' \<and> r \<noteq> Ready Panic \<and>
    (case r of
       Ready (Ok n) \<Rightarrow> 0 < n \<and> length (rb_view rb') = length (rb_view rb) + n
     | _ \<Rightarrow> rb_view rb' = rb_view rb)"
proof -
  let ?rb = "ReadBuffer_rewind rb"
  let ?cap = "length (rb_buffer ?rb) - rb_end ?rb"
  note rw = ReadBuffer_rewind_props [OF assms(1)]
  have no: "\<not> length (rb_buffer ?rb) < rb_end ?rb" using rw(1) by (simp add: rb_wf_def)
  obtain x io1 where x: "io_read P ?cap io = (x, io1)" by fastforce
  show ?thesis
  proof (cases x)
    case (Ready y)
    show ?thesis
    proof (cases y)
      case (Ok bs)
      have le: "length bs \<le> ?cap" using io_read_le x Ready Ok by blast
      then have fits: "rb_end ?rb + length bs \<le> MAX_FRAME_LENGTH"
        using rw(1) by (auto simp: rb_wf_def)
      show ?thesis
        using assms(2) x Ready Ok no rw rb_view_append [OF rw(1) fits]
        by (auto simp: ReadBuffer_read_some_def Let_def split: if_splits)
    next
      case Panic
      then show ?thesis using io_read_no_panic [of ?cap io] x Ready by simp
    qed (use assms(2) x Ready no rw in \<open>auto simp: ReadBuffer_read_some_def Let_def\<close>)
  qed (use assms(2) x no rw in \<open>auto simp: ReadBuffer_read_some_def Let_def\<close>)
qed

end

end
