(* ===== verification/Frame.thy ===== *)
theory Frame
  imports Types Buffer
begin

text \<open>
  Frames and function codes: \<open>rodbus/src/common/function.rs\<close> and the data types of
  \<open>rodbus/src/common/frame.rs\<close>.
\<close>

section \<open>Function codes\<close>

datatype FunctionCode =
    ReadCoils
  | ReadDiscreteInputs
  | ReadHoldingRegisters
  | ReadInputRegisters
  | WriteSingleCoil
  | WriteSingleRegister
  | WriteMultipleCoils
  | WriteMultipleRegisters

fun FunctionCode_get_value :: "FunctionCode \<Rightarrow> u8" where
  "FunctionCode_get_value ReadCoils = 1"
| "FunctionCode_get_value ReadDiscreteInputs = 2"
| "FunctionCode_get_value ReadHoldingRegisters = 3"
| "FunctionCode_get_value ReadInputRegisters = 4"
| "FunctionCode_get_value WriteSingleCoil = 5"
| "FunctionCode_get_value WriteSingleRegister = 6"
| "FunctionCode_get_value WriteMultipleCoils = 15"
| "FunctionCode_get_value WriteMultipleRegisters = 16"

definition FunctionCode_as_error :: "FunctionCode \<Rightarrow> u8" where
  "FunctionCode_as_error f = FunctionCode_get_value f OR 0x80"

definition FunctionCode_get :: "u8 \<Rightarrow> FunctionCode option" where
  "FunctionCode_get value =
     (if value = 1 then Some ReadCoils
      else if value = 2 then Some ReadDiscreteInputs
      else if value = 3 then Some ReadHoldingRegisters
      else if value = 4 then Some ReadInputRegisters
      else if value = 5 then Some WriteSingleCoil
      else if value = 6 then Some WriteSingleRegister
      else if value = 15 then Some WriteMultipleCoils
      else if value = 16 then Some WriteMultipleRegisters
      else None)"

lemma FunctionCode_get_get_value [simp]: "FunctionCode_get (FunctionCode_get_value f) = Some f"
  by (cases f) (simp_all add: FunctionCode_get_def)

lemma FunctionCode_get_Some: "FunctionCode_get b = Some f \<longleftrightarrow> b = FunctionCode_get_value f"
  by (cases f) (auto simp: FunctionCode_get_def split: if_splits)

text \<open>The error bit separates replies from exceptions: no function code has it set.\<close>

lemma FunctionCode_value_no_error_bit [simp]: "FunctionCode_get_value f AND 0x80 = 0"
  by (cases f) simp_all

lemma FunctionCode_as_error_bit [simp]: "FunctionCode_as_error f AND 0x80 \<noteq> 0"
  by (cases f) (simp_all add: FunctionCode_as_error_def)

lemma FunctionCode_as_error_neq [simp]: "FunctionCode_as_error f \<noteq> FunctionCode_get_value g"
  by (metis FunctionCode_value_no_error_bit FunctionCode_as_error_bit)

lemma FunctionCode_get_as_error [simp]: "FunctionCode_get (FunctionCode_as_error f) = None"
  by (cases f) (simp_all add: FunctionCode_as_error_def FunctionCode_get_def)

lemma FunctionCode_get_value_inj [simp]:
  "FunctionCode_get_value f = FunctionCode_get_value g \<longleftrightarrow> f = g"
  by (metis FunctionCode_get_get_value option.inject)

lemma FunctionCode_as_error_inj [simp]: "FunctionCode_as_error f = FunctionCode_as_error g \<longleftrightarrow> f = g"
  by (cases f; cases g) (simp_all add: FunctionCode_as_error_def)

datatype FunctionField =
    Field_Valid FunctionCode
  | Field_Exception FunctionCode
  | UnknownFunction u8

definition FunctionField_unknown :: "u8 \<Rightarrow> FunctionField" where
  [conv_defs]: "FunctionField_unknown fc = UnknownFunction fc"

fun FunctionField_get_value :: "FunctionField \<Rightarrow> u8" where
  "FunctionField_get_value (Field_Valid x) = FunctionCode_get_value x"
| "FunctionField_get_value (Field_Exception x) = FunctionCode_get_value x OR 0x80"
| "FunctionField_get_value (UnknownFunction x) = x OR 0x80"

section \<open>Frames\<close>

datatype TxId = TxId (tx_value: u16)

definition TxId_new :: "u16 \<Rightarrow> TxId" where
  [conv_defs]: "TxId_new value = TxId value"

definition TxId_default :: TxId where
  [conv_defs]: "TxId_default = TxId_new 0"

text \<open>The id handed out and the counter left behind; both branches wrap at \<open>u16::MAX\<close>.\<close>

definition TxId_next :: "TxId \<Rightarrow> TxId \<times> TxId" where
  "TxId_next t =
     (if tx_value t = 0xFFFF then (TxId_new 0xFFFF, TxId 0)
      else (TxId_new (tx_value t), TxId (tx_value t + 1)))"

lemma TxId_next_eq: "TxId_next t = (t, TxId (tx_value t + 1))"
  by (cases t) (simp add: TxId_next_def TxId_new_def)

datatype FrameDestination = Dest_UnitId UnitId | Broadcast

fun FrameDestination_value :: "FrameDestination \<Rightarrow> u8" where
  "FrameDestination_value (Dest_UnitId unit_id) = uid_value unit_id"
| "FrameDestination_value Broadcast = uid_value UnitId_broadcast"

definition FrameDestination_into_unit_id :: "FrameDestination \<Rightarrow> UnitId" where
  "FrameDestination_into_unit_id d = UnitId_new (FrameDestination_value d)"

definition FrameDestination_is_broadcast :: "FrameDestination \<Rightarrow> bool" where
  "FrameDestination_is_broadcast d \<longleftrightarrow> d = Broadcast"

record FrameHeader =
  fh_destination :: FrameDestination
  fh_tx_id :: "TxId option"

definition FrameHeader_new_tcp_header :: "UnitId \<Rightarrow> TxId \<Rightarrow> FrameHeader" where
  "FrameHeader_new_tcp_header unit_id tx_id =
     \<lparr>fh_destination = Dest_UnitId unit_id, fh_tx_id = Some tx_id\<rparr>"

definition FrameHeader_new_rtu_header :: "FrameDestination \<Rightarrow> FrameHeader" where
  "FrameHeader_new_rtu_header destination = \<lparr>fh_destination = destination, fh_tx_id = None\<rparr>"

record Frame =
  fr_header :: FrameHeader
  fr_length :: usize
  fr_pdu :: "u8 list"

definition Frame_new :: "FrameHeader \<Rightarrow> Frame" where
  "Frame_new header = \<lparr>fr_header = header, fr_length = 0, fr_pdu = replicate MAX_ADU_LENGTH 0\<rparr>"

definition Frame_set :: "u8 list \<Rightarrow> Frame \<Rightarrow> bool \<times> Frame" where
  "Frame_set src f =
     (if length src > length (fr_pdu f) then (False, f)
      else (True, f\<lparr>fr_pdu := patch (fr_pdu f) 0 src, fr_length := length src\<rparr>))"

definition Frame_payload :: "Frame \<Rightarrow> u8 list" where
  "Frame_payload f = take (fr_length f) (fr_pdu f)"

text \<open>A frame with a given header and payload, as the parsers build it.\<close>

definition frame_of :: "FrameHeader \<Rightarrow> u8 list \<Rightarrow> Frame" where
  "frame_of h pdu = snd (Frame_set pdu (Frame_new h))"

lemma frame_of_props [simp]:
  "fr_header (frame_of h pdu) = h"
  "length pdu \<le> MAX_ADU_LENGTH \<Longrightarrow> Frame_payload (frame_of h pdu) = pdu"
  by (simp_all add: frame_of_def Frame_set_def Frame_new_def Frame_payload_def patch_def)

text \<open>A payload that is too long is dropped: the frame stays empty.\<close>

lemma frame_of_too_long: "length pdu > MAX_ADU_LENGTH \<Longrightarrow> Frame_payload (frame_of h pdu) = []"
  by (simp add: frame_of_def Frame_set_def Frame_new_def Frame_payload_def)

end
