(* ===== verification/Serialize.thy ===== *)
theory Serialize
  imports Types
begin

text \<open>
  Encoding and decoding of protocol values: \<open>rodbus/src/common/parse.rs\<close>,
  \<open>rodbus/src/common/serialize.rs\<close>, \<open>rodbus/src/common/bits.rs\<close>, the reply writers
  of \<open>rodbus/src/server/response.rs\<close> and the \<open>WriteMultiple\<close> collection of
  \<open>rodbus/src/client/requests/write_multiple.rs\<close>. Every serializer is characterised by the
  bytes it emits.
\<close>

section \<open>Parsing\<close>

abbreviation read_u8 :: "('r, 'w, 'd, 'io) platform \<Rightarrow> ('r, u8, RequestError) se" where
  "read_u8 P \<equiv> conv_err RequestError_from_ReadError (rc_read_u8 P)"

abbreviation read_u16_be :: "('r, 'w, 'd, 'io) platform \<Rightarrow> ('r, u16, RequestError) se" where
  "read_u16_be P \<equiv> conv_err RequestError_from_ReadError (rc_read_u16_be P)"

definition AddressRange_parse :: "('r, 'w, 'd, 'io) platform \<Rightarrow> ('r, AddressRange, RequestError) se" where
  "AddressRange_parse P =
     bnd (read_u16_be P) (\<lambda>start. bnd (read_u16_be P) (\<lambda>count.
       lift_result (map_err RequestError_from_InvalidRange (AddressRange_try_from start count))))"

definition IndexedBool_parse :: "('r, 'w, 'd, 'io) platform \<Rightarrow> ('r, bool Indexed, RequestError) se" where
  "IndexedBool_parse P =
     bnd (read_u16_be P) (\<lambda>index. bnd (read_u16_be P) (\<lambda>raw.
       bnd (lift_result (map_err RequestError_from_AduParseError (coil_from_u16 raw)))
         (\<lambda>value. ret (Indexed_new index value))))"

definition IndexedU16_parse :: "('r, 'w, 'd, 'io) platform \<Rightarrow> ('r, u16 Indexed, RequestError) se" where
  "IndexedU16_parse P =
     bnd (read_u16_be P) (\<lambda>index. bnd (read_u16_be P) (\<lambda>value. ret (Indexed_new index value)))"

section \<open>Serializing\<close>

abbreviation write_u8 :: "('r, 'w, 'd, 'io) platform \<Rightarrow> u8 \<Rightarrow> ('w, unit, RequestError) se" where
  "write_u8 P b \<equiv> conv_err RequestError_from_WriteError (wc_write_u8 P b)"

abbreviation write_u16_be :: "('r, 'w, 'd, 'io) platform \<Rightarrow> u16 \<Rightarrow> ('w, unit, RequestError) se" where
  "write_u16_be P v \<equiv> conv_err RequestError_from_WriteError (wc_write_u16_be P v)"

definition u8_try_from :: "usize \<Rightarrow> u8 option" where
  "u8_try_from n = (if n \<le> 255 then Some (of_nat n) else None)"

definition calc_bytes_for_bits :: "usize \<Rightarrow> (u8, InternalError) result" where
  "calc_bytes_for_bits num_bits =
     (let div_8 = num_bits div 8;
          count = (if num_bits mod 8 = 0 then div_8 else div_8 + 1)
      in case u8_try_from count of Some b \<Rightarrow> Ok b | None \<Rightarrow> Err (BadByteCount count))"

definition calc_bytes_for_registers :: "usize \<Rightarrow> (u8, InternalError) result" where
  "calc_bytes_for_registers num_registers =
     (let count = 2 * num_registers
      in case u8_try_from count of Some b \<Rightarrow> Ok b | None \<Rightarrow> Err (BadByteCount count))"

definition AddressRange_serialize ::
    "('r, 'w, 'd, 'io) platform \<Rightarrow> AddressRange \<Rightarrow> ('w, unit, RequestError) se" where
  "AddressRange_serialize P r =
     bnd (write_u16_be P (ar_start r)) (\<lambda>_. bnd (write_u16_be P (ar_count r)) (\<lambda>_. ret ()))"

definition ExceptionCode_serialize ::
    "('r, 'w, 'd, 'io) platform \<Rightarrow> ExceptionCode \<Rightarrow> ('w, unit, RequestError) se" where
  "ExceptionCode_serialize P ex = bnd (write_u8 P (ExceptionCode_to_u8 ex)) (\<lambda>_. ret ())"

definition IndexedBool_serialize ::
    "('r, 'w, 'd, 'io) platform \<Rightarrow> bool Indexed \<Rightarrow> ('w, unit, RequestError) se" where
  "IndexedBool_serialize P x =
     bnd (write_u16_be P (ix_index x)) (\<lambda>_.
       bnd (write_u16_be P (coil_to_u16 (ix_value x))) (\<lambda>_. ret ()))"

definition IndexedU16_serialize ::
    "('r, 'w, 'd, 'io) platform \<Rightarrow> u16 Indexed \<Rightarrow> ('w, unit, RequestError) se" where
  "IndexedU16_serialize P x =
     bnd (write_u16_be P (ix_index x)) (\<lambda>_. bnd (write_u16_be P (ix_value x)) (\<lambda>_. ret ()))"

text \<open>The slice method \<open>chunks(8)\<close>, and the inner loop that packs one chunk into a byte.\<close>

function chunks8 :: "'a list \<Rightarrow> 'a list list" where
  "chunks8 xs = (if xs = [] then [] else take 8 xs # chunks8 (drop 8 xs))"
  by pat_completeness auto
termination
  by (relation "measure length") auto

declare chunks8.simps [simp del]

fun pack_chunk :: "nat \<Rightarrow> bool list \<Rightarrow> u8 \<Rightarrow> u8" where
  "pack_chunk count [] acc = acc"
| "pack_chunk count (b # bs) acc =
     pack_chunk (Suc count) bs (if b then acc OR push_bit count 1 else acc)"

definition bool_slice_serialize ::
    "('r, 'w, 'd, 'io) platform \<Rightarrow> bool list \<Rightarrow> ('w, unit, RequestError) se" where
  "bool_slice_serialize P bs =
     bnd (lift_result (map_err RequestError_from_InternalError (calc_bytes_for_bits (length bs))))
       (\<lambda>num_bytes. bnd (write_u8 P num_bytes) (\<lambda>_.
          for_list (\<lambda>byte. write_u8 P (pack_chunk 0 byte 0)) (chunks8 bs)))"

definition u16_slice_serialize ::
    "('r, 'w, 'd, 'io) platform \<Rightarrow> u16 list \<Rightarrow> ('w, unit, RequestError) se" where
  "u16_slice_serialize P vs =
     bnd (lift_result (map_err RequestError_from_InternalError (calc_bytes_for_registers (length vs))))
       (\<lambda>num_bytes. bnd (write_u8 P num_bytes) (\<lambda>_. for_list (write_u16_be P) vs))"

text \<open>Reply writers: a range and the getter that reads one value from the user's handler.\<close>

record BitWriter =
  bw_range :: ReadBitsRange
  bw_getter :: "u16 \<Rightarrow> (bool, ExceptionCode) result"

record RegisterWriter =
  rw_range :: ReadRegistersRange
  rw_getter :: "u16 \<Rightarrow> (u16, ExceptionCode) result"

definition BitWriter_step ::
    "('r, 'w, 'd, 'io) platform \<Rightarrow> (u16 \<Rightarrow> (bool, ExceptionCode) result) \<Rightarrow> u16 \<Rightarrow>
     (u8 \<times> nat \<times> 'w, unit, RequestError) se" where
  "BitWriter_step P getter address s = (case s of (acc, num_bits, w) \<Rightarrow>
     (case map_err RequestError_from_ExceptionCode (getter address) of
        Ok b \<Rightarrow>
          let acc' = (if b then acc OR push_bit num_bits 1 else acc);
              num_bits' = num_bits + 1
          in if num_bits' = 8
             then (case write_u8 P acc' w of
                 (Ok _, w') \<Rightarrow> (Ok (), (0, 0, w'))
               | (Err e, w') \<Rightarrow> (Err e, (acc', num_bits', w'))
               | (Panic, w') \<Rightarrow> (Panic, (acc', num_bits', w')))
             else (Ok (), (acc', num_bits', w))
      | Err e \<Rightarrow> (Err e, s)
      | Panic \<Rightarrow> (Panic, s)))"

definition BitWriter_flush ::
    "('r, 'w, 'd, 'io) platform \<Rightarrow> (unit, RequestError) result \<times> u8 \<times> nat \<times> 'w \<Rightarrow>
     (unit, RequestError) result \<times> 'w" where
  "BitWriter_flush P x = (case x of
      (Ok _, (acc, num_bits, w)) \<Rightarrow> if num_bits > 0 then write_u8 P acc w else (Ok (), w)
    | (Err e, (_, _, w)) \<Rightarrow> (Err e, w)
    | (Panic, (_, _, w)) \<Rightarrow> (Panic, w))"

definition BitWriter_serialize ::
    "('r, 'w, 'd, 'io) platform \<Rightarrow> BitWriter \<Rightarrow> ('w, unit, RequestError) se" where
  "BitWriter_serialize P bw =
     (let rng = rbr_inner (bw_range bw) in
      bnd (lift_result (map_err RequestError_from_InternalError
             (calc_bytes_for_bits (unat (ar_count rng)))))
        (\<lambda>num_bytes. bnd (write_u8 P num_bytes) (\<lambda>_ w.
           BitWriter_flush P
             (for_addresses P (BitWriter_step P (bw_getter bw)) (AddressRange_iter rng) (0, 0, w)))))"

definition RegisterWriter_serialize ::
    "('r, 'w, 'd, 'io) platform \<Rightarrow> RegisterWriter \<Rightarrow> ('w, unit, RequestError) se" where
  "RegisterWriter_serialize P rw =
     (let rng = rrr_inner (rw_range rw) in
      bnd (lift_result (map_err RequestError_from_InternalError
             (calc_bytes_for_registers (unat (ar_count rng)))))
        (\<lambda>num_bytes. bnd (write_u8 P num_bytes) (\<lambda>_.
           for_addresses P
             (\<lambda>address. bnd (lift_result (map_err RequestError_from_ExceptionCode (rw_getter rw address)))
                (\<lambda>value. write_u16_be P value))
             (AddressRange_iter rng))))"

section \<open>Collections of values to write\<close>

record 'a WriteMultiple =
  wm_range :: AddressRange
  wm_values :: "'a list"

definition u16_try_from :: "usize \<Rightarrow> u16 option" where
  "u16_try_from n = (if n \<le> 65535 then Some (of_nat n) else None)"

definition WriteMultiple_from :: "u16 \<Rightarrow> 'a list \<Rightarrow> ('a WriteMultiple, InvalidRequest) result" where
  "WriteMultiple_from start values = (case u16_try_from (length values) of
      None \<Rightarrow> Err (CountTooBigForU16 (length values))
    | Some count \<Rightarrow> bind_result (map_err InvalidRequest_from_InvalidRange (AddressRange_try_from start count))
        (\<lambda>rng. Ok \<lparr>wm_range = rng, wm_values = values\<rparr>))"

record 'a WriteMultipleIterator =
  wmi_range :: AddressRange
  wmi_pos :: u16
  wmi_iter :: "'a list"

definition WriteMultiple_iter :: "'a WriteMultiple \<Rightarrow> 'a WriteMultipleIterator" where
  "WriteMultiple_iter wm = \<lparr>wmi_range = wm_range wm, wmi_pos = 0, wmi_iter = wm_values wm\<rparr>"

definition WriteMultipleIterator_next ::
    "('r, 'w, 'd, 'io) platform \<Rightarrow> ('a WriteMultipleIterator, 'a Indexed option, 'e) se" where
  "WriteMultipleIterator_next P it = (case wmi_iter it of
      x # rest \<Rightarrow>
        let it' = it\<lparr>wmi_iter := rest\<rparr> in
        (case add_u16 P (ar_start (wmi_range it)) (wmi_pos it) of
           Ok a \<Rightarrow> (case add_u16 P (wmi_pos it) 1 of
               Ok pos \<Rightarrow> (Ok (Some (Indexed_new a x)), it'\<lparr>wmi_pos := pos\<rparr>)
             | Err e \<Rightarrow> (Err e, it') | Panic \<Rightarrow> (Panic, it'))
         | Err e \<Rightarrow> (Err e, it') | Panic \<Rightarrow> (Panic, it'))
    | [] \<Rightarrow> (Ok None, it))"

definition WriteMultipleBool_serialize ::
    "('r, 'w, 'd, 'io) platform \<Rightarrow> bool WriteMultiple \<Rightarrow> ('w, unit, RequestError) se" where
  "WriteMultipleBool_serialize P wm =
     bnd (AddressRange_serialize P (wm_range wm)) (\<lambda>_. bool_slice_serialize P (wm_values wm))"

definition WriteMultipleU16_serialize ::
    "('r, 'w, 'd, 'io) platform \<Rightarrow> u16 WriteMultiple \<Rightarrow> ('w, unit, RequestError) se" where
  "WriteMultipleU16_serialize P wm =
     bnd (AddressRange_serialize P (wm_range wm)) (\<lambda>_. u16_slice_serialize P (wm_values wm))"

section \<open>Packed bits and registers\<close>

text \<open>
  The bytes of a sequence of bits, least significant bit first: the incremental loop of
  \<open>BitWriter\<close> as a pure function, its equivalence with the chunk-wise packing of
  \<open>&[bool]\<close>, and what a reader finds at each bit position.
\<close>

fun bit_loop :: "bool list \<Rightarrow> u8 \<Rightarrow> nat \<Rightarrow> u8 list" where
  "bit_loop [] acc n = (if n > 0 then [acc] else [])"
| "bit_loop (b # bs) acc n =
     (let acc' = (if b then acc OR push_bit n 1 else acc)
      in if n + 1 = 8 then acc' # bit_loop bs 0 0 else bit_loop bs acc' (n + 1))"

definition packed_bits :: "bool list \<Rightarrow> u8 list" where
  "packed_bits bs = bit_loop bs 0 0"

lemma length_bit_loop: "n < 8 \<Longrightarrow> length (bit_loop bs acc n) = (n + length bs + 7) div 8"
proof (induction bs acc n rule: bit_loop.induct)
  case (2 b bs acc n)
  show ?case
  proof (cases "n + 1 = 8")
    case True
    then have "length (bit_loop bs 0 0) = (length bs + 7) div 8"
      using 2(1) by simp
    then show ?thesis using True by (simp add: Let_def)
  next
    case False
    with 2(3) have "n + 1 < 8" by simp
    then show ?thesis using False 2(2) [OF refl False] by (simp add: Let_def add.commute)
  qed
qed auto

lemma length_packed_bits: "length (packed_bits bs) = (length bs + 7) div 8"
  by (simp add: packed_bits_def length_bit_loop)

lemma bit_loop_full_chunk:
  "n + length xs = 8 \<Longrightarrow> xs \<noteq> [] \<Longrightarrow>
     bit_loop (xs @ ys) acc n = pack_chunk n xs acc # bit_loop ys 0 0"
proof (induction xs arbitrary: acc n)
  case (Cons b xs)
  show ?case
  proof (cases "xs = []")
    case True
    then show ?thesis using Cons.prems by (simp add: Let_def)
  next
    case False
    then have "n + 1 \<noteq> 8" and "Suc n + length xs = 8" using Cons.prems by auto
    then show ?thesis using Cons.IH [OF _ False] by (simp add: Let_def)
  qed
qed simp

lemma bit_loop_partial_chunk:
  "n + length xs < 8 \<Longrightarrow>
     bit_loop xs acc n = (if n + length xs = 0 then [] else [pack_chunk n xs acc])"
  by (induction xs arbitrary: acc n) (auto simp: Let_def)

lemma chunks8_packed: "map (\<lambda>c. pack_chunk 0 c 0) (chunks8 bs) = packed_bits bs"
proof (induction bs rule: chunks8.induct)
  case (1 bs)
  show ?case
  proof (cases "bs = []")
    case False
    have tail: "map (\<lambda>c. pack_chunk 0 c 0) (chunks8 (drop 8 bs)) = bit_loop (drop 8 bs) 0 0"
      using 1 False by (simp add: packed_bits_def)
    show ?thesis
    proof (cases "length bs < 8")
      case True
      then show ?thesis
        using False bit_loop_partial_chunk [of 0 bs 0]
        by (simp add: chunks8.simps [of bs] chunks8.simps [of "[]"] packed_bits_def)
    next
      case full: False
      have "bit_loop (take 8 bs @ drop 8 bs) 0 0 = pack_chunk 0 (take 8 bs) 0 # bit_loop (drop 8 bs) 0 0"
        by (rule bit_loop_full_chunk) (use full False in auto)
      then show ?thesis using False tail by (simp add: chunks8.simps [of bs] packed_bits_def)
    qed
  qed (simp add: chunks8.simps packed_bits_def)
qed

lemma bit_loop_reads:
  assumes "n < 8" and "\<forall>k \<ge> n. \<not> bit acc k"
  shows "(i < n \<longrightarrow> bit_loop bs acc n \<noteq> [] \<longrightarrow> bit_at (bit_loop bs acc n) i = bit acc i) \<and>
    (i < length bs \<longrightarrow> bit_at (bit_loop bs acc n) (n + i) = bs ! i)"
  using assms
proof (induction bs acc n arbitrary: i rule: bit_loop.induct)
  case (1 acc n)
  then show ?case by (simp add: bit_at_def)
next
  case (2 b bs acc n)
  define acc' where "acc' = (if b then acc OR push_bit n 1 else acc)"
  have acc'_old: "bit acc' k = bit acc k" if "k < n" for k
    using that by (auto simp: acc'_def bit_simps)
  have acc'_new: "bit acc' n = b"
    using "2.prems" by (auto simp: acc'_def bit_simps)
  have acc'_high: "\<not> bit acc' k" if "n < k" for k
    using that "2.prems" by (auto simp: acc'_def bit_simps)
  show ?case
  proof (cases "n + 1 = 8")
    case True
    have IH: "j < length bs \<Longrightarrow> bit_at (bit_loop bs 0 0) j = bs ! j" for j
      using "2.IH"(1) [OF acc'_def True, of j] by simp
    have shift: "bit_at (acc' # bit_loop bs 0 0) (8 + j) = bit_at (bit_loop bs 0 0) j" for j
    proof -
      have "(8 + j) div 8 = Suc (j div 8)" by presburger
      then show ?thesis by (simp add: bit_at_def)
    qed
    have "bit_at (acc' # bit_loop bs 0 0) (n + i) = (b # bs) ! i" if "i < Suc (length bs)"
    proof (cases i)
      case 0
      then show ?thesis using True acc'_new by (simp add: bit_at_def)
    next
      case (Suc j)
      then show ?thesis using that True IH [of j] shift [of j] by (simp add: ac_simps)
    qed
    moreover have "i < n \<longrightarrow> bit_at (acc' # bit_loop bs 0 0) i = bit acc i"
      using True acc'_old by (simp add: bit_at_def)
    moreover have "bit_loop (b # bs) acc n = acc' # bit_loop bs 0 0"
      using True by (simp add: Let_def acc'_def)
    ultimately show ?thesis by (simp only: list.size) simp
  next
    case False
    have n': "n + 1 < 8" using False "2.prems"(1) by simp
    have high: "\<forall>k \<ge> n + 1. \<not> bit acc' k" using acc'_high by auto
    note IH = "2.IH"(2) [OF acc'_def False n' high]
    have ne: "bit_loop bs acc' (n + 1) \<noteq> []"
      using length_bit_loop [OF n', of bs acc'] by auto
    have "bit_at (bit_loop bs acc' (n + 1)) (n + i) = (b # bs) ! i" if "i < Suc (length bs)"
    proof (cases i)
      case 0
      then show ?thesis using IH [of n] ne acc'_new by simp
    next
      case (Suc j)
      then show ?thesis using that IH [of j] by simp
    qed
    moreover have "i < n \<longrightarrow> bit_at (bit_loop bs acc' (n + 1)) i = bit acc i"
      using IH [of i] ne acc'_old by simp
    moreover have "bit_loop (b # bs) acc n = bit_loop bs acc' (n + 1)"
      using False by (simp add: Let_def acc'_def)
    ultimately show ?thesis by (simp only: list.size) simp
  qed
qed

lemma packed_bits_reads: "i < length bs \<Longrightarrow> bit_at (packed_bits bs) i = bs ! i"
  using bit_loop_reads [of 0 0 i bs] by (simp add: packed_bits_def)

definition register_bytes :: "u16 list \<Rightarrow> u8 list" where
  "register_bytes vs = concat (map be_bytes vs)"

lemma length_register_bytes [simp]: "length (register_bytes vs) = 2 * length vs"
  by (induction vs) (auto simp: register_bytes_def)

lemma register_bytes_reads: "i < length vs \<Longrightarrow> register_at (register_bytes vs) i = vs ! i"
proof (induction vs arbitrary: i)
  case (Cons v vs)
  show ?case
  proof (cases i)
    case 0
    then show ?thesis by (simp add: register_bytes_def register_at_def be_bytes_def)
  next
    case (Suc j)
    then have "register_at (register_bytes (v # vs)) i = register_at (register_bytes vs) j"
      by (simp add: register_bytes_def register_at_def be_bytes_def)
    then show ?thesis using Cons Suc by simp
  qed
qed simp

section \<open>The bytes a serializer emits\<close>

text \<open>
  \<open>emits wbuf wpos m bs\<close>: run on a cursor, \<open>m\<close> appends exactly \<open>bs\<close> when
  they fit and otherwise fails with an internal error. \<open>raises wbuf m k ex\<close>: given room for
  \<open>k\<close> bytes, \<open>m\<close> ends with the Modbus exception \<open>ex\<close>.
\<close>

definition emits ::
    "('w \<Rightarrow> u8 list) \<Rightarrow> ('w \<Rightarrow> nat) \<Rightarrow> ('w, unit, RequestError) se \<Rightarrow> u8 list \<Rightarrow> bool" where
  "emits wbuf wpos m bs \<longleftrightarrow> (\<forall>w. wpos w \<le> length (wbuf w) \<longrightarrow>
     (if wpos w + length bs \<le> length (wbuf w)
      then \<exists>w'. m w = (Ok (), w') \<and> wbuf w' = patch (wbuf w) (wpos w) bs \<and>
        wpos w' = wpos w + length bs
      else \<exists>e w'. m w = (Err (Internal e), w') \<and> length (wbuf w') = length (wbuf w)))"

definition raises ::
    "('w \<Rightarrow> u8 list) \<Rightarrow> ('w \<Rightarrow> nat) \<Rightarrow> ('w, unit, RequestError) se \<Rightarrow> nat \<Rightarrow> ExceptionCode \<Rightarrow> bool" where
  "raises wbuf wpos m k ex \<longleftrightarrow> (\<forall>w. wpos w + k \<le> length (wbuf w) \<longrightarrow>
     (\<exists>w'. m w = (Err (Exception ex), w') \<and> length (wbuf w') = length (wbuf w)))"

lemma emitsD_fits:
  assumes "emits wbuf wpos m bs" and "wpos w + length bs \<le> length (wbuf w)"
  obtains w' where "m w = (Ok (), w')" and "wbuf w' = patch (wbuf w) (wpos w) bs"
    and "wpos w' = wpos w + length bs" and "length (wbuf w') = length (wbuf w)"
proof -
  from assms obtain w' where "m w = (Ok (), w')" "wbuf w' = patch (wbuf w) (wpos w) bs"
    "wpos w' = wpos w + length bs"
    unfolding emits_def by (metis add_leD1)
  then show ?thesis using assms(2) that by simp
qed

lemma emitsD_full:
  assumes "emits wbuf wpos m bs" and "wpos w \<le> length (wbuf w)"
    and "length (wbuf w) < wpos w + length bs"
  obtains e w' where "m w = (Err (Internal e), w')" and "length (wbuf w') = length (wbuf w)"
  using assms unfolding emits_def by (metis not_less)

lemma emitsI:
  assumes "\<And>w. wpos w + length bs \<le> length (wbuf w) \<Longrightarrow>
      \<exists>w'. m w = (Ok (), w') \<and> wbuf w' = patch (wbuf w) (wpos w) bs \<and> wpos w' = wpos w + length bs"
    and "\<And>w. length (wbuf w) < wpos w + length bs \<Longrightarrow>
      \<exists>e w'. m w = (Err (Internal e), w') \<and> length (wbuf w') = length (wbuf w)"
  shows "emits wbuf wpos m bs"
  using assms by (simp add: emits_def not_le)

lemma emits_ret [intro]: "emits wbuf wpos (ret ()) []"
  by (simp add: emits_def ret_def)

lemma emits_bnd [intro]:
  assumes m: "emits wbuf wpos m bs" and n: "emits wbuf wpos n cs"
  shows "emits wbuf wpos (bnd m (\<lambda>_. n)) (bs @ cs)"
  unfolding emits_def
proof (intro allI impI)
  fix w
  assume pos: "wpos w \<le> length (wbuf w)"
  show "if wpos w + length (bs @ cs) \<le> length (wbuf w)
    then \<exists>w'. bnd m (\<lambda>_. n) w = (Ok (), w') \<and> wbuf w' = patch (wbuf w) (wpos w) (bs @ cs) \<and>
      wpos w' = wpos w + length (bs @ cs)
    else \<exists>e w'. bnd m (\<lambda>_. n) w = (Err (Internal e), w') \<and> length (wbuf w') = length (wbuf w)"
  proof (cases "wpos w + length bs \<le> length (wbuf w)")
    case True
    then obtain w1 where w1: "m w = (Ok (), w1)" "wbuf w1 = patch (wbuf w) (wpos w) bs"
      "wpos w1 = wpos w + length bs" "length (wbuf w1) = length (wbuf w)"
      using emitsD_fits [OF m] by blast
    show ?thesis
    proof (cases "wpos w1 + length cs \<le> length (wbuf w1)")
      case fits: True
      then obtain w2 where w2: "n w1 = (Ok (), w2)" "wbuf w2 = patch (wbuf w1) (wpos w1) cs"
        "wpos w2 = wpos w1 + length cs"
        using emitsD_fits [OF n] by blast
      then show ?thesis
        using w1 fits by (simp add: bnd_def patch_patch_append add.assoc)
    next
      case False
      then obtain e w2 where "n w1 = (Err (Internal e), w2)" "length (wbuf w2) = length (wbuf w1)"
        using emitsD_full [OF n, of w1] w1 True by auto
      then show ?thesis using w1 False by (simp add: bnd_def)
    qed
  next
    case False
    then obtain e w1 where "m w = (Err (Internal e), w1)" "length (wbuf w1) = length (wbuf w)"
      using emitsD_full [OF m pos] by auto
    then show ?thesis using False by (simp add: bnd_def)
  qed
qed

lemma emits_for_list:
  assumes "\<And>a. a \<in> set as \<Longrightarrow> emits wbuf wpos (body a) (g a)"
  shows "emits wbuf wpos (for_list body as) (concat (map g as))"
  using assms
proof (induction as)
  case Nil
  have "for_list body [] = ret ()" by (simp add: fun_eq_iff ret_def)
  then show ?case by (simp add: emits_ret)
next
  case (Cons a as)
  have "for_list body (a # as) = bnd (body a) (\<lambda>_. for_list body as)"
    by (simp add: fun_eq_iff bnd_def split: prod.splits result.splits)
  then show ?case using Cons by (simp add: emits_bnd)
qed

lemma emits_raises:
  assumes "emits wbuf wpos m bs" and "raises wbuf wpos n k ex"
  shows "raises wbuf wpos (bnd m (\<lambda>_. n)) (length bs + k) ex"
  unfolding raises_def
proof (intro allI impI)
  fix w
  assume room: "wpos w + (length bs + k) \<le> length (wbuf w)"
  then obtain w1 where w1: "m w = (Ok (), w1)" "wpos w1 = wpos w + length bs"
    "length (wbuf w1) = length (wbuf w)"
    using emitsD_fits [OF assms(1), of w] by (metis add.assoc add_leD1)
  have "wpos w1 + k \<le> length (wbuf w1)" using w1 room by simp
  then obtain w2 where "n w1 = (Err (Exception ex), w2)" "length (wbuf w2) = length (wbuf w1)"
    using assms(2) unfolding raises_def by blast
  with w1 show "\<exists>w'. bnd m (\<lambda>_. n) w = (Err (Exception ex), w') \<and>
      length (wbuf w') = length (wbuf w)"
    by (simp add: bnd_def)
qed

text \<open>The wire format of each value.\<close>

definition range_bytes :: "AddressRange \<Rightarrow> u8 list" where
  "range_bytes r = be_bytes (ar_start r) @ be_bytes (ar_count r)"

definition indexed_bool_bytes :: "bool Indexed \<Rightarrow> u8 list" where
  "indexed_bool_bytes x = be_bytes (ix_index x) @ be_bytes (coil_to_u16 (ix_value x))"

definition indexed_u16_bytes :: "u16 Indexed \<Rightarrow> u8 list" where
  "indexed_u16_bytes x = be_bytes (ix_index x) @ be_bytes (ix_value x)"

definition bool_slice_bytes :: "bool list \<Rightarrow> u8 list" where
  "bool_slice_bytes bs = of_nat ((length bs + 7) div 8) # packed_bits bs"

definition u16_slice_bytes :: "u16 list \<Rightarrow> u8 list" where
  "u16_slice_bytes vs = of_nat (2 * length vs) # register_bytes vs"

lemma wire_lengths [simp]:
  "length (range_bytes r) = 4"
  "length (indexed_bool_bytes x) = 4"
  "length (indexed_u16_bytes y) = 4"
  "length (bool_slice_bytes bs) = 1 + (length bs + 7) div 8"
  "length (u16_slice_bytes vs) = 1 + 2 * length vs"
  by (simp_all add: range_bytes_def indexed_bool_bytes_def indexed_u16_bytes_def
      bool_slice_bytes_def u16_slice_bytes_def length_packed_bits)

lemma calc_bytes_for_bits_eq:
  "calc_bytes_for_bits n = (let count = (n + 7) div 8 in
     if count \<le> 255 then Ok (of_nat count) else Err (BadByteCount count))"
proof -
  have "(if n mod 8 = 0 then n div 8 else n div 8 + 1) = (n + 7) div 8" by presburger
  then show ?thesis
    by (cases "(n + 7) div 8 \<le> 255") (simp_all add: calc_bytes_for_bits_def Let_def u8_try_from_def)
qed

lemma calc_bytes_for_registers_eq:
  "calc_bytes_for_registers n =
     (if 2 * n \<le> 255 then Ok (of_nat (2 * n)) else Err (BadByteCount (2 * n)))"
  by (simp add: calc_bytes_for_registers_def Let_def u8_try_from_def)

lemma lift_result_Ok: "lift_result (Ok a) = ret a"
  by (simp add: fun_eq_iff lift_result_def ret_def)

context write_cursor
begin

lemma write_error_internal:
  assumes "\<exists>e w'. m w = (Err e, w') \<and> length (wbuf w') = length (wbuf w)"
  shows "\<exists>e w'. conv_err RequestError_from_WriteError m w = (Err (Internal e), w') \<and>
    length (wbuf w') = length (wbuf w)"
proof -
  from assms obtain e w' where "m w = (Err e, w')" "length (wbuf w') = length (wbuf w)" by blast
  moreover obtain d where "RequestError_from_WriteError e = Internal d"
    using RequestError_from_WriteError_Internal by blast
  ultimately show ?thesis by (simp add: conv_err_def)
qed

lemma emits_write_u8 [intro]: "emits wbuf wpos (write_u8 P b) [b]"
proof (rule emitsI)
  fix w
  assume "wpos w + length [b] \<le> length (wbuf w)"
  then show "\<exists>w'. write_u8 P b w = (Ok (), w') \<and> wbuf w' = patch (wbuf w) (wpos w) [b] \<and>
      wpos w' = wpos w + length [b]"
    using wc_write_u8_fits [of w b] by (auto simp: conv_err_def)
qed (use wc_write_u8_full in \<open>auto intro!: write_error_internal\<close>)

lemma emits_write_u16_be [intro]: "emits wbuf wpos (write_u16_be P v) (be_bytes v)"
proof (rule emitsI)
  fix w
  assume "wpos w + length (be_bytes v) \<le> length (wbuf w)"
  then show "\<exists>w'. write_u16_be P v w = (Ok (), w') \<and> wbuf w' = patch (wbuf w) (wpos w) (be_bytes v) \<and>
      wpos w' = wpos w + length (be_bytes v)"
    using wc_write_u16_be_fits [of w v] by (auto simp: conv_err_def)
qed (use wc_write_u16_be_full in \<open>auto intro!: write_error_internal\<close>)

lemma emits_AddressRange: "emits wbuf wpos (AddressRange_serialize P r) (range_bytes r)"
  using emits_bnd [OF emits_write_u16_be [of "ar_start r"]
      emits_bnd [OF emits_write_u16_be [of "ar_count r"] emits_ret]]
  by (simp add: AddressRange_serialize_def range_bytes_def)

lemma emits_ExceptionCode: "emits wbuf wpos (ExceptionCode_serialize P ex) [ExceptionCode_to_u8 ex]"
  using emits_bnd [OF emits_write_u8 [of "ExceptionCode_to_u8 ex"] emits_ret]
  by (simp add: ExceptionCode_serialize_def)

lemma emits_IndexedBool: "emits wbuf wpos (IndexedBool_serialize P x) (indexed_bool_bytes x)"
  using emits_bnd [OF emits_write_u16_be [of "ix_index x"]
      emits_bnd [OF emits_write_u16_be [of "coil_to_u16 (ix_value x)"] emits_ret]]
  by (simp add: IndexedBool_serialize_def indexed_bool_bytes_def)

lemma emits_IndexedU16: "emits wbuf wpos (IndexedU16_serialize P x) (indexed_u16_bytes x)"
  using emits_bnd [OF emits_write_u16_be [of "ix_index x"]
      emits_bnd [OF emits_write_u16_be [of "ix_value x"] emits_ret]]
  by (simp add: IndexedU16_serialize_def indexed_u16_bytes_def)

lemma emits_bool_slice:
  assumes "(length bs + 7) div 8 \<le> 255"
  shows "emits wbuf wpos (bool_slice_serialize P bs) (bool_slice_bytes bs)"
proof -
  have "concat (map (\<lambda>c. [pack_chunk 0 c 0]) (chunks8 bs)) = packed_bits bs"
    by (simp add: chunks8_packed [symmetric])
  then have "emits wbuf wpos (for_list (\<lambda>byte. write_u8 P (pack_chunk 0 byte 0)) (chunks8 bs))
      (packed_bits bs)"
    using emits_for_list [of "chunks8 bs" wbuf wpos _ "\<lambda>c. [pack_chunk 0 c 0]"] emits_write_u8
    by metis
  from emits_bnd [OF emits_write_u8 this] show ?thesis
    using assms
    by (simp add: bool_slice_serialize_def bool_slice_bytes_def calc_bytes_for_bits_eq
        lift_result_Ok)
qed

lemma emits_u16_slice:
  assumes "2 * length vs \<le> 255"
  shows "emits wbuf wpos (u16_slice_serialize P vs) (u16_slice_bytes vs)"
proof -
  have "emits wbuf wpos (for_list (write_u16_be P) vs) (register_bytes vs)"
    unfolding register_bytes_def by (rule emits_for_list) (rule emits_write_u16_be)
  from emits_bnd [OF emits_write_u8 this] show ?thesis
    using assms
    by (simp add: u16_slice_serialize_def u16_slice_bytes_def calc_bytes_for_registers_eq
        lift_result_Ok)
qed

lemma emits_WriteMultipleBool:
  assumes "(length (wm_values wm) + 7) div 8 \<le> 255"
  shows "emits wbuf wpos (WriteMultipleBool_serialize P wm)
    (range_bytes (wm_range wm) @ bool_slice_bytes (wm_values wm))"
  unfolding WriteMultipleBool_serialize_def
  by (rule emits_bnd [OF emits_AddressRange emits_bool_slice [OF assms]])

lemma emits_WriteMultipleU16:
  assumes "2 * length (wm_values wm) \<le> 255"
  shows "emits wbuf wpos (WriteMultipleU16_serialize P wm)
    (range_bytes (wm_range wm) @ u16_slice_bytes (wm_values wm))"
  unfolding WriteMultipleU16_serialize_def
  by (rule emits_bnd [OF emits_AddressRange emits_u16_slice [OF assms]])

text \<open>The bit loop of the reply writer, started with \<open>n\<close> bits in the accumulator.\<close>

lemma emits_bit_loop:
  assumes "\<And>a. a \<in> set as \<Longrightarrow> getter a = Ok (v a)"
  shows "emits wbuf wpos
    (\<lambda>w. BitWriter_flush P (for_list (BitWriter_step P getter) as (acc, n, w)))
    (bit_loop (map v as) acc n)"
  using assms
proof (induction as arbitrary: acc n)
  case Nil
  have "(\<lambda>w. BitWriter_flush P (for_list (BitWriter_step P getter) [] (acc, n, w))) =
      (if n > 0 then write_u8 P acc else ret ())"
    by (auto simp: BitWriter_flush_def ret_def)
  then show ?case by (cases "n > 0") (simp_all add: emits_write_u8 emits_ret)
next
  case (Cons a as)
  define acc' where "acc' = (if v a then acc OR push_bit n 1 else acc)"
  have ga: "getter a = Ok (v a)" using Cons.prems by simp
  show ?case
  proof (cases "n + 1 = 8")
    case True
    have "(\<lambda>w. BitWriter_flush P (for_list (BitWriter_step P getter) (a # as) (acc, n, w))) =
        bnd (write_u8 P acc')
          (\<lambda>_ w. BitWriter_flush P (for_list (BitWriter_step P getter) as (0, 0, w)))"
      using True
      by (auto simp: fun_eq_iff BitWriter_step_def ga acc'_def Let_def bnd_def BitWriter_flush_def
          split: prod.splits result.splits)
    moreover have "emits wbuf wpos
        (\<lambda>w. BitWriter_flush P (for_list (BitWriter_step P getter) as (0, 0, w)))
        (bit_loop (map v as) 0 0)"
      using Cons by simp
    moreover have "bit_loop (map v (a # as)) acc n = [acc'] @ bit_loop (map v as) 0 0"
      using True by (simp add: acc'_def Let_def)
    ultimately show ?thesis by (simp only:) (rule emits_bnd [OF emits_write_u8])
  next
    case False
    have "(\<lambda>w. BitWriter_flush P (for_list (BitWriter_step P getter) (a # as) (acc, n, w))) =
        (\<lambda>w. BitWriter_flush P (for_list (BitWriter_step P getter) as (acc', n + 1, w)))"
      using False by (auto simp: fun_eq_iff BitWriter_step_def ga acc'_def Let_def)
    moreover have "bit_loop (map v (a # as)) acc n = bit_loop (map v as) acc' (n + 1)"
      using False by (simp add: acc'_def Let_def)
    ultimately show ?thesis using Cons by simp
  qed
qed

lemma BitWriter_loop_range:
  assumes "\<not> overflow_checks P \<or> unat (ar_start r) + unat (ar_count r) < 65536"
  shows "(\<lambda>_ :: unit. \<lambda>w. BitWriter_flush P
      (for_addresses P (BitWriter_step P getter) (AddressRange_iter r) (0, 0, w))) =
    (\<lambda>_ w. BitWriter_flush P (for_list (BitWriter_step P getter) (range_addresses r) (0, 0, w)))"
  by (simp add: for_addresses_range [OF assms])

lemma emits_BitWriter:
  assumes "\<not> overflow_checks P \<or>
      unat (ar_start (rbr_inner (bw_range bw))) + unat (ar_count (rbr_inner (bw_range bw))) < 65536"
    and "unat (ar_count (rbr_inner (bw_range bw))) \<le> 2040"
    and "\<And>a. a \<in> set (range_addresses (rbr_inner (bw_range bw))) \<Longrightarrow> bw_getter bw a = Ok (v a)"
  shows "emits wbuf wpos (BitWriter_serialize P bw)
    (bool_slice_bytes (map v (range_addresses (rbr_inner (bw_range bw)))))"
proof -
  let ?r = "rbr_inner (bw_range bw)"
  have "(unat (ar_count ?r) + 7) div 8 \<le> 255" using assms(2) by simp
  then have "BitWriter_serialize P bw = bnd (write_u8 P (of_nat ((unat (ar_count ?r) + 7) div 8)))
      (\<lambda>_ w. BitWriter_flush P
         (for_list (BitWriter_step P (bw_getter bw)) (range_addresses ?r) (0, 0, w)))"
    by (simp add: BitWriter_serialize_def Let_def calc_bytes_for_bits_eq lift_result_Ok
        BitWriter_loop_range [OF assms(1)])
  then show ?thesis
    using emits_bnd [OF emits_write_u8 [of "of_nat ((unat (ar_count ?r) + 7) div 8)"]
        emits_bit_loop [OF assms(3), where acc = 0 and n = 0]]
    by (simp add: bool_slice_bytes_def packed_bits_def)
qed

lemma emits_RegisterWriter:
  assumes "\<not> overflow_checks P \<or>
      unat (ar_start (rrr_inner (rw_range rw))) + unat (ar_count (rrr_inner (rw_range rw))) < 65536"
    and "unat (ar_count (rrr_inner (rw_range rw))) \<le> 127"
    and "\<And>a. a \<in> set (range_addresses (rrr_inner (rw_range rw))) \<Longrightarrow> rw_getter rw a = Ok (v a)"
  shows "emits wbuf wpos (RegisterWriter_serialize P rw)
    (u16_slice_bytes (map v (range_addresses (rrr_inner (rw_range rw)))))"
proof -
  let ?r = "rrr_inner (rw_range rw)"
  let ?body = "\<lambda>address. bnd (lift_result (map_err RequestError_from_ExceptionCode (rw_getter rw address)))
    (write_u16_be P)"
  have "RegisterWriter_serialize P rw = bnd (write_u8 P (of_nat (2 * unat (ar_count ?r))))
      (\<lambda>_. for_list ?body (range_addresses ?r))"
    using assms(2) by (simp add: RegisterWriter_serialize_def Let_def calc_bytes_for_registers_eq
        lift_result_Ok for_addresses_range [OF assms(1), THEN ext])
  moreover have "emits wbuf wpos (for_list ?body (range_addresses ?r))
      (register_bytes (map v (range_addresses ?r)))"
    unfolding register_bytes_def map_map comp_def
    by (rule emits_for_list) (simp add: assms(3) lift_result_Ok emits_write_u16_be)
  ultimately show ?thesis
    using emits_bnd [OF emits_write_u8] by (simp add: u16_slice_bytes_def)
qed

text \<open>The first exception of a getter ends the reply with that exception.\<close>

lemma raises_bit_loop:
  assumes "\<And>a. a \<in> set pre \<Longrightarrow> getter a = Ok (v a)" and "getter a = Err ex" and "n < 8"
  shows "raises wbuf wpos
    (\<lambda>w. BitWriter_flush P (for_list (BitWriter_step P getter) (pre @ a # post) (acc, n, w)))
    ((n + length pre) div 8) ex"
  using assms
proof (induction pre arbitrary: acc n)
  case Nil
  then show ?case
    by (simp add: raises_def BitWriter_step_def BitWriter_flush_def RequestError_from_ExceptionCode_def)
next
  case (Cons b pre)
  define acc' where "acc' = (if v b then acc OR push_bit n 1 else acc)"
  have gb: "getter b = Ok (v b)" using Cons.prems by simp
  let ?run = "\<lambda>as acc n w. BitWriter_flush P (for_list (BitWriter_step P getter) as (acc, n, w))"
  show ?case
  proof (cases "n + 1 = 8")
    case True
    have "?run ((b # pre) @ a # post) acc n = bnd (write_u8 P acc') (\<lambda>_. ?run (pre @ a # post) 0 0)"
      using True
      by (auto simp: fun_eq_iff BitWriter_step_def gb acc'_def Let_def bnd_def BitWriter_flush_def
          split: prod.splits result.splits)
    moreover have "raises wbuf wpos (?run (pre @ a # post) 0 0) (length pre div 8) ex"
      using Cons.IH [of 0 0] Cons.prems by simp
    moreover have "(n + length (b # pre)) div 8 = length [acc'] + length pre div 8"
      using True by simp
    ultimately show ?thesis by (simp only:) (rule emits_raises [OF emits_write_u8])
  next
    case False
    have "?run ((b # pre) @ a # post) acc n = ?run (pre @ a # post) acc' (n + 1)"
      using False by (auto simp: fun_eq_iff BitWriter_step_def gb acc'_def Let_def)
    then show ?thesis using Cons.IH [of "n + 1" acc'] Cons.prems False by simp
  qed
qed

lemma raises_mono: "raises wbuf wpos m k ex \<Longrightarrow> k \<le> k' \<Longrightarrow> raises wbuf wpos m k' ex"
  unfolding raises_def by (meson add_left_mono le_trans)

lemma raises_BitWriter:
  assumes "\<not> overflow_checks P \<or>
      unat (ar_start (rbr_inner (bw_range bw))) + unat (ar_count (rbr_inner (bw_range bw))) < 65536"
    and "unat (ar_count (rbr_inner (bw_range bw))) \<le> 2040"
    and "range_addresses (rbr_inner (bw_range bw)) = pre @ a # post"
    and "\<And>a. a \<in> set pre \<Longrightarrow> bw_getter bw a = Ok (v a)" and "bw_getter bw a = Err ex"
  shows "raises wbuf wpos (BitWriter_serialize P bw) (1 + length pre div 8) ex"
proof -
  let ?r = "rbr_inner (bw_range bw)"
  have "(unat (ar_count ?r) + 7) div 8 \<le> 255" using assms(2) by simp
  then have "BitWriter_serialize P bw = bnd (write_u8 P (of_nat ((unat (ar_count ?r) + 7) div 8)))
      (\<lambda>_ w. BitWriter_flush P
         (for_list (BitWriter_step P (bw_getter bw)) (pre @ a # post) (0, 0, w)))"
    by (simp add: BitWriter_serialize_def Let_def calc_bytes_for_bits_eq lift_result_Ok
        BitWriter_loop_range [OF assms(1)] assms(3))
  then show ?thesis
    using emits_raises [OF emits_write_u8 raises_bit_loop [where getter = "bw_getter bw" and v = v and pre = pre and a = a and
          post = post and acc = 0 and n = 0 and ex = ex, OF assms(4,5)]]
    by simp
qed

lemma raises_RegisterWriter:
  assumes "\<not> overflow_checks P \<or>
      unat (ar_start (rrr_inner (rw_range rw))) + unat (ar_count (rrr_inner (rw_range rw))) < 65536"
    and "unat (ar_count (rrr_inner (rw_range rw))) \<le> 127"
    and "range_addresses (rrr_inner (rw_range rw)) = pre @ a # post"
    and "\<And>a. a \<in> set pre \<Longrightarrow> rw_getter rw a = Ok (v a)" and "rw_getter rw a = Err ex"
  shows "raises wbuf wpos (RegisterWriter_serialize P rw) (1 + 2 * length pre) ex"
proof -
  let ?r = "rrr_inner (rw_range rw)"
  let ?body = "\<lambda>address. bnd (lift_result (map_err RequestError_from_ExceptionCode (rw_getter rw address)))
    (write_u16_be P)"
  have "RegisterWriter_serialize P rw = bnd (write_u8 P (of_nat (2 * unat (ar_count ?r))))
      (\<lambda>_. for_list ?body (pre @ a # post))"
    using assms(2) by (simp add: RegisterWriter_serialize_def Let_def calc_bytes_for_registers_eq
        lift_result_Ok for_addresses_range [OF assms(1), THEN ext] assms(3))
  moreover have "raises wbuf wpos (for_list ?body (pre @ a # post)) (2 * length pre) ex"
    using assms(4)
  proof (induction pre)
    case Nil
    show ?case by (simp add: raises_def bnd_def lift_result_def assms(5) RequestError_from_ExceptionCode_def)
  next
    case (Cons b pre)
    have "for_list ?body ((b # pre) @ a # post) =
        bnd (write_u16_be P (v b)) (\<lambda>_. for_list ?body (pre @ a # post))"
      by (simp add: fun_eq_iff Cons.prems lift_result_Ok bnd_def split: prod.splits result.splits)
    then show ?case
      using emits_raises [OF emits_write_u16_be [of "v b"] Cons.IH] Cons.prems by simp
  qed
  ultimately show ?thesis
    using emits_raises [OF emits_write_u8] by simp
qed

end

section \<open>The bytes a parser consumes\<close>

text \<open>
  \<open>reads rview m f\<close>: on every cursor, \<open>m\<close> behaves like the function
  \<open>f\<close> on the list of bytes the cursor has left, which returns a value and the remaining
  bytes or fails.
\<close>

definition reads ::
    "('r \<Rightarrow> u8 list) \<Rightarrow> ('r, 'a, 'e) se \<Rightarrow> (u8 list \<Rightarrow> ('a \<times> u8 list, 'e) result) \<Rightarrow> bool" where
  "reads rview m f \<longleftrightarrow> (\<forall>c. case f (rview c) of
      Ok (a, rest) \<Rightarrow> \<exists>c'. m c = (Ok a, c') \<and> rview c' = rest
    | Err e \<Rightarrow> \<exists>c'. m c = (Err e, c')
    | Panic \<Rightarrow> \<exists>c'. m c = (Panic, c'))"

definition bnd_list ::
    "(u8 list \<Rightarrow> ('a \<times> u8 list, 'e) result) \<Rightarrow> ('a \<Rightarrow> u8 list \<Rightarrow> ('b \<times> u8 list, 'e) result) \<Rightarrow>
     u8 list \<Rightarrow> ('b \<times> u8 list, 'e) result" where
  "bnd_list f g bs = (case f bs of Ok (a, rest) \<Rightarrow> g a rest | Err e \<Rightarrow> Err e | Panic \<Rightarrow> Panic)"

lemma reads_bnd:
  assumes "reads rview m f" and "\<And>a. reads rview (k a) (g a)"
  shows "reads rview (bnd m k) (bnd_list f g)"
  unfolding reads_def
proof
  fix c
  have m: "case f (rview c) of
      Ok (a, rest) \<Rightarrow> \<exists>c'. m c = (Ok a, c') \<and> rview c' = rest
    | Err e \<Rightarrow> \<exists>c'. m c = (Err e, c')
    | Panic \<Rightarrow> \<exists>c'. m c = (Panic, c')"
    using assms(1) by (simp add: reads_def)
  show "case bnd_list f g (rview c) of
      Ok (a, rest) \<Rightarrow> \<exists>c'. bnd m k c = (Ok a, c') \<and> rview c' = rest
    | Err e \<Rightarrow> \<exists>c'. bnd m k c = (Err e, c')
    | Panic \<Rightarrow> \<exists>c'. bnd m k c = (Panic, c')"
  proof (cases "f (rview c)")
    case (Ok x)
    obtain a rest where x: "x = (a, rest)" by (cases x)
    then obtain c' where c': "m c = (result.Ok a, c')" "rview c' = rest" using m Ok by auto
    have "case g a (rview c') of
        result.Ok (b, rest) \<Rightarrow> \<exists>c''. k a c' = (result.Ok b, c'') \<and> rview c'' = rest
      | Err e \<Rightarrow> \<exists>c''. k a c' = (Err e, c'')
      | Panic \<Rightarrow> \<exists>c''. k a c' = (Panic, c'')"
      using assms(2) by (simp add: reads_def)
    then show ?thesis
      using Ok x c' by (simp add: bnd_list_def bnd_def split: result.splits prod.splits)
  qed (use m in \<open>auto simp: bnd_list_def bnd_def\<close>)
qed

lemma reads_ret: "reads rview (ret a) (\<lambda>bs. Ok (a, bs))"
  by (simp add: reads_def ret_def)

lemma reads_lift_result:
  "reads rview (lift_result r) (\<lambda>bs. bind_result r (\<lambda>a. Ok (a, bs)))"
  by (cases r) (simp_all add: reads_def lift_result_def)

text \<open>The values as functions of the bytes.\<close>

fun list_u16 :: "u8 list \<Rightarrow> (u16 \<times> u8 list, RequestError) result" where
  "list_u16 (a # b # bs) = Ok (u16_be a b, bs)"
| "list_u16 bs = Err (BadResponse InsufficientBytes)"

fun list_u8 :: "u8 list \<Rightarrow> (u8 \<times> u8 list, RequestError) result" where
  "list_u8 (b # bs) = Ok (b, bs)"
| "list_u8 [] = Err (BadResponse InsufficientBytes)"

fun list_two :: "(u16 \<Rightarrow> u16 \<Rightarrow> ('a, RequestError) result) \<Rightarrow> u8 list \<Rightarrow> ('a \<times> u8 list, RequestError) result" where
  "list_two f (a # b # c # d # bs) = bind_result (f (u16_be a b) (u16_be c d)) (\<lambda>x. Ok (x, bs))"
| "list_two f bs = Err (BadResponse InsufficientBytes)"

definition range_of :: "u16 \<Rightarrow> u16 \<Rightarrow> (AddressRange, RequestError) result" where
  "range_of s n = map_err RequestError_from_InvalidRange (AddressRange_try_from s n)"

definition coil_of :: "u16 \<Rightarrow> u16 \<Rightarrow> (bool Indexed, RequestError) result" where
  "coil_of i v = bind_result (map_err RequestError_from_AduParseError (coil_from_u16 v))
     (\<lambda>b. Ok (Indexed_new i b))"

definition register_of :: "u16 \<Rightarrow> u16 \<Rightarrow> (u16 Indexed, RequestError) result" where
  "register_of i v = Ok (Indexed_new i v)"

definition list_end :: "u8 list \<Rightarrow> (unit \<times> u8 list, RequestError) result" where
  "list_end bs = (if bs = [] then Ok ((), []) else Err (BadResponse (TrailingBytes (length bs))))"

definition list_bytes :: "nat \<Rightarrow> u8 list \<Rightarrow> (u8 list \<times> u8 list, RequestError) result" where
  "list_bytes n bs = (if n \<le> length bs then Ok (take n bs, drop n bs) else Err (BadResponse InsufficientBytes))"

lemma list_two_eq:
  "list_two f bs = bnd_list list_u16 (\<lambda>x. bnd_list list_u16 (\<lambda>y r. bind_result (f x y) (\<lambda>z. Ok (z, r)))) bs"
  by (cases "(f, bs)" rule: list_two.cases) (simp_all add: bnd_list_def)

lemma bnd_lift_ret:
  "bnd (lift_result r) (\<lambda>b. ret (g b)) = lift_result (bind_result r (\<lambda>b. Ok (g b)))"
  by (cases r) (simp_all add: fun_eq_iff bnd_def lift_result_def ret_def)

context read_cursor
begin

lemma reads_u8: "reads rview (read_u8 P) list_u8"
  unfolding reads_def
proof
  fix c
  show "case list_u8 (rview c) of
      Ok (a, rest) \<Rightarrow> \<exists>c'. read_u8 P c = (Ok a, c') \<and> rview c' = rest
    | Err e \<Rightarrow> \<exists>c'. read_u8 P c = (Err e, c')
    | Panic \<Rightarrow> \<exists>c'. read_u8 P c = (Panic, c')"
    using rc_read_u8_Cons [of c] rc_read_u8_Nil [of c]
    by (cases "rview c") (auto simp: conv_err_def RequestError_from_ReadError_def)
qed

lemma reads_u16_be: "reads rview (read_u16_be P) list_u16"
  unfolding reads_def
proof
  fix c
  show "case list_u16 (rview c) of
      Ok (a, rest) \<Rightarrow> \<exists>c'. read_u16_be P c = (Ok a, c') \<and> rview c' = rest
    | Err e \<Rightarrow> \<exists>c'. read_u16_be P c = (Err e, c')
    | Panic \<Rightarrow> \<exists>c'. read_u16_be P c = (Panic, c')"
    using rc_read_u16_be_Cons [of c] rc_read_u16_be_short [of c]
    by (cases "rview c" rule: list_u16.cases) (auto simp: conv_err_def RequestError_from_ReadError_def)
qed

lemma reads_bytes:
  "reads rview (conv_err RequestError_from_ReadError (rc_read_bytes P n)) (list_bytes n)"
  unfolding reads_def
proof
  fix c
  show "case list_bytes n (rview c) of
      Ok (a, rest) \<Rightarrow> \<exists>c'. conv_err RequestError_from_ReadError (rc_read_bytes P n) c = (Ok a, c') \<and> rview c' = rest
    | Err e \<Rightarrow> \<exists>c'. conv_err RequestError_from_ReadError (rc_read_bytes P n) c = (Err e, c')
    | Panic \<Rightarrow> \<exists>c'. conv_err RequestError_from_ReadError (rc_read_bytes P n) c = (Panic, c')"
    using rc_read_bytes_enough [of n c] rc_read_bytes_short [of c n]
    by (cases "n \<le> length (rview c)")
      (auto simp: list_bytes_def conv_err_def RequestError_from_ReadError_def)
qed

lemma reads_expect_empty: "reads rview (expect_empty P) list_end"
  by (simp add: reads_def expect_empty_def list_end_def rc_expect_empty RequestError_from_TrailingBytes_def)

lemma reads_two:
  "reads rview (bnd (read_u16_be P) (\<lambda>x. bnd (read_u16_be P) (\<lambda>y. lift_result (f x y)))) (list_two f)"
  using reads_bnd [OF reads_u16_be reads_bnd [OF reads_u16_be reads_lift_result]]
  by (simp add: list_two_eq [abs_def])

lemma reads_AddressRange: "reads rview (AddressRange_parse P) (list_two range_of)"
  using reads_two [of range_of] by (simp add: AddressRange_parse_def range_of_def)

lemma reads_IndexedU16: "reads rview (IndexedU16_parse P) (list_two register_of)"
  using reads_two [of register_of] by (simp add: IndexedU16_parse_def register_of_def lift_result_Ok)

lemma reads_IndexedBool: "reads rview (IndexedBool_parse P) (list_two coil_of)"
  using reads_two [of coil_of] by (simp add: IndexedBool_parse_def coil_of_def bnd_lift_ret)

lemma reads_BitIterator_all:
  "reads rview (BitIterator_parse_all P r)
     (bnd_list (list_bytes (num_bytes_for_bits (ar_count r))) (\<lambda>bytes. bnd_list list_end
        (\<lambda>_ bs. Ok (\<lparr>bi_bytes = bytes, bi_range = r, bi_pos = 0\<rparr>, bs))))"
  unfolding BitIterator_parse_all_def
  by (rule reads_bnd [OF reads_bytes reads_bnd [OF reads_expect_empty reads_ret]])

lemma reads_RegisterIterator_all:
  "reads rview (RegisterIterator_parse_all P r)
     (bnd_list (list_bytes (2 * unat (ar_count r))) (\<lambda>bytes. bnd_list list_end
        (\<lambda>_ bs. Ok (\<lparr>ri_bytes = bytes, ri_range = r, ri_pos = 0\<rparr>, bs))))"
  unfolding RegisterIterator_parse_all_def
  by (rule reads_bnd [OF reads_bytes reads_bnd [OF reads_expect_empty reads_ret]])

end

end
