(* ===== verification/Mbap.thy ===== *)
theory Mbap
  imports Frame Serialize
begin

text \<open>
  The MBAP framing of Modbus TCP, \<open>rodbus/src/tcp/frame.rs\<close>: the incremental parser and
  the formatter, and the frame layout both implement.
\<close>

section \<open>Parser\<close>

record MbapHeader =
  mh_tx_id :: TxId
  mh_len_field :: u16
  mh_unit_id :: UnitId

datatype MbapParseState = Mbap_Begin | Mbap_Header MbapHeader usize

record MbapParser =
  mp_state :: MbapParseState

definition MbapParser_new :: MbapParser where
  "MbapParser_new = \<lparr>mp_state = Mbap_Begin\<rparr>"

abbreviation buf_u8 :: "(ReadBuffer, u8, RequestError) se" where
  "buf_u8 \<equiv> conv_err RequestError_from_InternalError ReadBuffer_read_u8"

abbreviation buf_u16_be :: "(ReadBuffer, u16, RequestError) se" where
  "buf_u16_be \<equiv> conv_err RequestError_from_InternalError ReadBuffer_read_u16_be"

abbreviation buf_u16_le :: "(ReadBuffer, u16, RequestError) se" where
  "buf_u16_le \<equiv> conv_err RequestError_from_InternalError ReadBuffer_read_u16_le"

abbreviation buf_peek :: "usize \<Rightarrow> (ReadBuffer, u8, RequestError) se" where
  "buf_peek i \<equiv> conv_err RequestError_from_InternalError (ReadBuffer_peek_at i)"

abbreviation buf_read :: "usize \<Rightarrow> (ReadBuffer, u8 list, RequestError) se" where
  "buf_read n \<equiv> conv_err RequestError_from_InternalError (ReadBuffer_read n)"

definition MbapParser_parse_header :: "(ReadBuffer, MbapHeader \<times> usize, RequestError) se" where
  "MbapParser_parse_header =
     bnd buf_u16_be (\<lambda>tx. bnd buf_u16_be (\<lambda>protocol_id. bnd buf_u16_be (\<lambda>len_field.
     bnd buf_u8 (\<lambda>unit.
       let tx_id = TxId_new tx; len = unat len_field; unit_id = UnitId_new unit in
       if protocol_id \<noteq> 0
       then fail (RequestError_from_FrameParseError (UnknownProtocolId protocol_id))
       else if len > MAX_LENGTH_FIELD
       then fail (RequestError_from_FrameParseError (FrameLengthTooBig len MAX_LENGTH_FIELD))
       else if len < 1 then fail (RequestError_from_FrameParseError MbapLengthZero)
       else let adu_length = len - 1 in
         ret (\<lparr>mh_tx_id = tx_id, mh_len_field = len_field, mh_unit_id = unit_id\<rparr>, adu_length)))))"

definition MbapParser_parse_body :: "MbapHeader \<Rightarrow> usize \<Rightarrow> (ReadBuffer, Frame, RequestError) se" where
  "MbapParser_parse_body header adu_length =
     (let frame = Frame_new (FrameHeader_new_tcp_header (mh_unit_id header) (mh_tx_id header)) in
      bnd (buf_read adu_length) (\<lambda>data. ret (snd (Frame_set data frame))))"

text \<open>
  The two arms of \<open>parse\<close>; the arm for \<open>Begin\<close> ends with a second call that finds
  the state \<open>Header\<close>.
\<close>

definition MbapParser_parse_at_header ::
    "MbapHeader \<Rightarrow> usize \<Rightarrow> (MbapParser \<times> ReadBuffer, Frame option, RequestError) se" where
  "MbapParser_parse_at_header header adu_length s = (case s of (p, rb) \<Rightarrow>
     if ReadBuffer_len rb < adu_length then (Ok None, (p, rb))
     else case MbapParser_parse_body header adu_length rb of
        (Ok frame, rb') \<Rightarrow> (Ok (Some frame), (p\<lparr>mp_state := Mbap_Begin\<rparr>, rb'))
      | (Err e, rb') \<Rightarrow> (Err e, (p, rb'))
      | (Panic, rb') \<Rightarrow> (Panic, (p, rb')))"

definition MbapParser_parse :: "(MbapParser \<times> ReadBuffer, Frame option, RequestError) se" where
  "MbapParser_parse s = (case s of (p, rb) \<Rightarrow>
     (case mp_state p of
        Mbap_Header header adu_length \<Rightarrow> MbapParser_parse_at_header header adu_length (p, rb)
      | Mbap_Begin \<Rightarrow>
          if ReadBuffer_len rb < tcp_HEADER_LENGTH then (Ok None, (p, rb))
          else case MbapParser_parse_header rb of
             (Ok (header, adu_len), rb') \<Rightarrow>
               MbapParser_parse_at_header header adu_len (p\<lparr>mp_state := Mbap_Header header adu_len\<rparr>, rb')
           | (Err e, rb') \<Rightarrow> (Err e, (p, rb'))
           | (Panic, rb') \<Rightarrow> (Panic, (p, rb'))))"

definition MbapParser_reset :: "MbapParser \<Rightarrow> MbapParser" where
  "MbapParser_reset p = p\<lparr>mp_state := Mbap_Begin\<rparr>"

section \<open>Formatter\<close>

datatype FrameType = Mbap MbapHeader | RtuType FrameDestination u16

record FrameInfo =
  fi_frame_type :: FrameType
  fi_pdu_body :: "usize \<times> usize"

definition FrameInfo_new :: "FrameType \<Rightarrow> usize \<times> usize \<Rightarrow> FrameInfo" where
  "FrameInfo_new frame_type pdu_body = \<lparr>fi_frame_type = frame_type, fi_pdu_body = pdu_body\<rparr>"

abbreviation write_u16_le :: "('r, 'w, 'd, 'io) platform \<Rightarrow> u16 \<Rightarrow> ('w, unit, RequestError) se" where
  "write_u16_le P v \<equiv> conv_err RequestError_from_WriteError (wc_write_u16_le P v)"

abbreviation skip :: "('r, 'w, 'd, 'io) platform \<Rightarrow> usize \<Rightarrow> ('w, unit, RequestError) se" where
  "skip P n \<equiv> conv_err RequestError_from_WriteError (wc_skip P n)"

abbreviation seek_to :: "('r, 'w, 'd, 'io) platform \<Rightarrow> usize \<Rightarrow> ('w, unit, RequestError) se" where
  "seek_to P n \<equiv> conv_err RequestError_from_WriteError (wc_seek_to P n)"

abbreviation position :: "('r, 'w, 'd, 'io) platform \<Rightarrow> ('w, usize, RequestError) se" where
  "position P \<equiv> (\<lambda>w. (Ok (wc_position P w), w))"

definition panic :: "('s, 'a, 'e) se" where
  "panic s = (Panic, s)"

definition format_mbap ::
    "('r, 'w, 'd, 'io) platform \<Rightarrow> FrameHeader \<Rightarrow> FunctionField \<Rightarrow> ('w, unit, RequestError) se \<Rightarrow>
     ('w, FrameInfo, RequestError) se" where
  "format_mbap P header function msg = (case fh_tx_id header of
      None \<Rightarrow> panic
    | Some tx_id \<Rightarrow>
        let unit_id = FrameDestination_into_unit_id (fh_destination header) in
        bnd (write_u16_be P (tx_value tx_id)) (\<lambda>_.
        bnd (write_u16_be P 0) (\<lambda>_.
        bnd (position P) (\<lambda>len_pos.
        bnd (skip P 2) (\<lambda>_.
        bnd (write_u8 P (uid_value unit_id)) (\<lambda>_.
        bnd (position P) (\<lambda>start_pdu.
        bnd (write_u8 P (FunctionField_get_value function)) (\<lambda>_.
        bnd (position P) (\<lambda>start_pdu_body.
        bnd msg (\<lambda>_.
        bnd (position P) (\<lambda>end_pdu.
        let mbap_len_field = of_nat (end_pdu - start_pdu + 1) in
        bnd (seek_to P len_pos) (\<lambda>_.
        bnd (write_u16_be P mbap_len_field) (\<lambda>_.
        bnd (seek_to P end_pdu) (\<lambda>_.
        ret (FrameInfo_new
               (Mbap \<lparr>mh_tx_id = tx_id, mh_len_field = mbap_len_field, mh_unit_id = unit_id\<rparr>)
               (start_pdu_body, end_pdu))))))))))))))))"

section \<open>The frame layout\<close>

definition mbap_header_bytes :: "TxId \<Rightarrow> UnitId \<Rightarrow> nat \<Rightarrow> u8 list" where
  "mbap_header_bytes tx unit len = be_bytes (tx_value tx) @ be_bytes 0 @ be_bytes (of_nat len) @ [uid_value unit]"

definition mbap_frame_bytes :: "TxId \<Rightarrow> UnitId \<Rightarrow> u8 list \<Rightarrow> u8 list" where
  "mbap_frame_bytes tx unit pdu = mbap_header_bytes tx unit (length pdu + 1) @ pdu"

lemma length_mbap_header_bytes [simp]: "length (mbap_header_bytes tx unit len) = 7"
  by (simp add: mbap_header_bytes_def)

lemma length_mbap_frame_bytes [simp]: "length (mbap_frame_bytes tx unit pdu) = 7 + length pdu"
  by (simp add: mbap_frame_bytes_def)

section \<open>Parsing a frame\<close>

lemma buf_u8_Cons:
  "rb_wf rb \<Longrightarrow> rb_view rb = b # bs \<Longrightarrow> buf_u8 rb = (Ok b, rb_skip 1 rb)"
  by (simp add: conv_err_def ReadBuffer_read_u8_Cons del: One_nat_def)

lemma buf_u16_be_Cons:
  "rb_wf rb \<Longrightarrow> rb_view rb = a # b # bs \<Longrightarrow> buf_u16_be rb = (Ok (u16_be a b), rb_skip 2 rb)"
  by (simp add: conv_err_def ReadBuffer_read_u16)

lemma buf_u16_le_Cons:
  "rb_wf rb \<Longrightarrow> rb_view rb = a # b # bs \<Longrightarrow> buf_u16_le rb = (Ok (u16_be b a), rb_skip 2 rb)"
  by (simp add: conv_err_def ReadBuffer_read_u16)

lemma buf_peek_inside:
  "rb_wf rb \<Longrightarrow> i < length (rb_view rb) \<Longrightarrow> buf_peek i rb = (Ok (rb_view rb ! i), rb)"
  by (simp add: conv_err_def ReadBuffer_peek_at_inside)

lemma buf_read_enough:
  "rb_wf rb \<Longrightarrow> n \<le> length (rb_view rb) \<Longrightarrow>
     buf_read n rb = (Ok (take n (rb_view rb)), rb_skip n rb)"
  by (simp add: conv_err_def ReadBuffer_read_enough)

text \<open>The header check as a function of the fields.\<close>

definition mbap_check :: "u16 \<Rightarrow> u16 \<Rightarrow> (usize, RequestError) result" where
  "mbap_check protocol_id len_field =
     (if protocol_id \<noteq> 0 then Err (BadFrame (UnknownProtocolId protocol_id))
      else if unat len_field > 254 then Err (BadFrame (FrameLengthTooBig (unat len_field) 254))
      else if len_field = 0 then Err (BadFrame MbapLengthZero)
      else Ok (unat len_field - 1))"

lemma MbapParser_parse_header_eq:
  assumes "rb_wf rb" and "rb_view rb = t1 # t2 # p1 # p2 # l1 # l2 # u # rest"
  shows "MbapParser_parse_header rb =
    (bind_result (mbap_check (u16_be p1 p2) (u16_be l1 l2))
       (\<lambda>n. Ok (\<lparr>mh_tx_id = TxId (u16_be t1 t2), mh_len_field = u16_be l1 l2, mh_unit_id = UnitId u\<rparr>, n)),
     rb_skip 7 rb)"
proof -
  note skip = rb_skip_props [OF assms(1)]
  have w: "rb_wf (rb_skip 2 rb)" "rb_wf (rb_skip 4 rb)" "rb_wf (rb_skip 6 rb)"
    using skip(1) assms(2) by simp_all
  have v: "rb_view (rb_skip 2 rb) = p1 # p2 # l1 # l2 # u # rest"
    "rb_view (rb_skip 4 rb) = l1 # l2 # u # rest" "rb_view (rb_skip 6 rb) = u # rest"
    using skip(2) assms(2) by simp_all
  have r: "buf_u16_be rb = (Ok (u16_be t1 t2), rb_skip 2 rb)"
    "buf_u16_be (rb_skip 2 rb) = (Ok (u16_be p1 p2), rb_skip 4 rb)"
    "buf_u16_be (rb_skip 4 rb) = (Ok (u16_be l1 l2), rb_skip 6 rb)"
    "buf_u8 (rb_skip 6 rb) = (Ok u, rb_skip 7 rb)"
    using buf_u16_be_Cons [OF assms] buf_u16_be_Cons [OF w(1) v(1)] buf_u16_be_Cons [OF w(2) v(2)]
      buf_u8_Cons [OF w(3) v(3)] by simp_all
  show ?thesis
    by (simp add: MbapParser_parse_header_def r bnd_simps(1) Let_def mbap_check_def fail_def ret_def
        unat_eq_0 [symmetric] conv_defs UnitId_new_def)
qed

lemma MbapParser_parse_body_eq:
  assumes "rb_wf rb" and "n \<le> length (rb_view rb)"
  shows "MbapParser_parse_body h n rb =
    (Ok (frame_of (FrameHeader_new_tcp_header (mh_unit_id h) (mh_tx_id h)) (take n (rb_view rb))),
     rb_skip n rb)"
  by (simp add: MbapParser_parse_body_def Let_def buf_read_enough [OF assms] bnd_simps(1) ret_def frame_of_def)

lemma MbapParser_at_header_wait:
  assumes "rb_wf rb" and "length (rb_view rb) < n"
  shows "MbapParser_parse_at_header h n (p, rb) = (Ok None, (p, rb))"
  using assms by (simp add: MbapParser_parse_at_header_def length_rb_view)

lemma MbapParser_at_header_done:
  assumes "rb_wf rb" and "n \<le> length (rb_view rb)"
  shows "MbapParser_parse_at_header h n (p, rb) =
    (Ok (Some (frame_of (FrameHeader_new_tcp_header (mh_unit_id h) (mh_tx_id h)) (take n (rb_view rb)))),
     (p\<lparr>mp_state := Mbap_Begin\<rparr>, rb_skip n rb))"
  using assms by (simp add: MbapParser_parse_at_header_def length_rb_view [symmetric] MbapParser_parse_body_eq)

text \<open>
  \<open>mbap_expects p bs f\<close>: in state \<open>p\<close>, the parser still needs exactly the bytes
  \<open>bs\<close> to complete the frame \<open>f\<close>.
\<close>

fun mbap_expects :: "MbapParser \<Rightarrow> u8 list \<Rightarrow> Frame \<Rightarrow> bool" where
  "mbap_expects p bs f = (case mp_state p of
      Mbap_Begin \<Rightarrow> (\<exists>tx unit pdu. bs = mbap_frame_bytes tx unit pdu \<and> length pdu \<le> MAX_ADU_LENGTH \<and>
        f = frame_of (FrameHeader_new_tcp_header unit tx) pdu)
    | Mbap_Header h n \<Rightarrow> n = length bs \<and> n \<le> MAX_ADU_LENGTH \<and>
        f = frame_of (FrameHeader_new_tcp_header (mh_unit_id h) (mh_tx_id h)) bs)"

lemma mbap_check_frame:
  "length pdu \<le> MAX_ADU_LENGTH \<Longrightarrow> mbap_check 0 (of_nat (length pdu + 1)) = Ok (length pdu)"
  by (auto simp: mbap_check_def unat_of_nat_u16 MAX_ADU_LENGTH_def simp flip: unat_eq_0 of_nat_Suc)

lemma MbapParser_begin:
  assumes "rb_wf rb" and "7 \<le> length (rb_view rb)" and "mp_state p = Mbap_Begin"
    and "rb_view rb @ post = mbap_frame_bytes tx unit pdu" and "length pdu \<le> MAX_ADU_LENGTH"
  defines "h \<equiv> \<lparr>mh_tx_id = tx, mh_len_field = of_nat (length pdu + 1), mh_unit_id = unit\<rparr>"
  shows "MbapParser_parse (p, rb) = MbapParser_parse_at_header h (length pdu)
      (p\<lparr>mp_state := Mbap_Header h (length pdu)\<rparr>, rb_skip 7 rb)"
    and "drop 7 (rb_view rb) @ post = pdu"
proof -
  have "take 7 (rb_view rb @ post) = mbap_header_bytes tx unit (length pdu + 1)"
    by (simp add: assms(4) mbap_frame_bytes_def)
  then have head: "take 7 (rb_view rb) = mbap_header_bytes tx unit (length pdu + 1)"
    using assms(2) by simp
  have "drop 7 (rb_view rb @ post) = pdu" by (simp add: assms(4) mbap_frame_bytes_def)
  then show "drop 7 (rb_view rb) @ post = pdu" using assms(2) by simp
  have view: "rb_view rb = be_hi (tx_value tx) # be_lo (tx_value tx) # be_hi 0 # be_lo 0 #
      be_hi (of_nat (length pdu + 1)) # be_lo (of_nat (length pdu + 1)) # uid_value unit # drop 7 (rb_view rb)"
    using append_take_drop_id [of 7 "rb_view rb"]
    by (simp add: head mbap_header_bytes_def be_bytes_def del: append_take_drop_id)
  show "MbapParser_parse (p, rb) = MbapParser_parse_at_header h (length pdu)
      (p\<lparr>mp_state := Mbap_Header h (length pdu)\<rparr>, rb_skip 7 rb)"
    using assms(2) mbap_check_frame [OF assms(5)]
    by (simp add: MbapParser_parse_def assms(3) length_rb_view [OF assms(1), symmetric]
        MbapParser_parse_header_eq [OF assms(1) view] tcp_HEADER_LENGTH_def h_def)
qed

lemma MbapParser_parse_wait:
  assumes "rb_wf rb" and "mbap_expects p (rb_view rb @ post) f" and "post \<noteq> []"
  shows "\<exists>p' rb'. MbapParser_parse (p, rb) = (Ok None, (p', rb')) \<and> rb_wf rb' \<and>
    rb_end rb' = rb_end rb \<and> length (rb_view rb') \<le> length (rb_view rb) \<and>
    mbap_expects p' (rb_view rb' @ post) f"
proof (cases "mp_state p")
  case (Mbap_Header h n)
  then have "length (rb_view rb) < n" using assms(2,3) by auto
  then show ?thesis
    using MbapParser_at_header_wait [OF assms(1)] assms(1,2) Mbap_Header
    by (auto simp: MbapParser_parse_def)
next
  case Mbap_Begin
  then obtain tx unit pdu where frame: "rb_view rb @ post = mbap_frame_bytes tx unit pdu"
    "length pdu \<le> MAX_ADU_LENGTH" "f = frame_of (FrameHeader_new_tcp_header unit tx) pdu"
    using assms(2) by auto
  show ?thesis
  proof (cases "7 \<le> length (rb_view rb)")
    case True
    note beg = MbapParser_begin [OF assms(1) True Mbap_Begin frame(1,2)]
    note skip = rb_skip_props [OF assms(1) True]
    let ?h = "\<lparr>mh_tx_id = tx, mh_len_field = of_nat (length pdu + 1), mh_unit_id = unit\<rparr>"
    have less: "length (rb_view (rb_skip 7 rb)) < length pdu"
      using beg(2) [symmetric] assms(3) skip(2) by simp
    have "MbapParser_parse (p, rb) =
        (Ok None, (p\<lparr>mp_state := Mbap_Header ?h (length pdu)\<rparr>, rb_skip 7 rb))"
      using beg(1) MbapParser_at_header_wait [OF skip(1) less] by simp
    moreover have "mbap_expects (p\<lparr>mp_state := Mbap_Header ?h (length pdu)\<rparr>)
        (rb_view (rb_skip 7 rb) @ post) f"
      using beg(2) frame skip(2) by simp
    moreover have "length (rb_view (rb_skip 7 rb)) \<le> length (rb_view rb)" using skip(2) by simp
    ultimately show ?thesis using skip by blast
  next
    case False
    then have "MbapParser_parse (p, rb) = (Ok None, (p, rb))"
      using Mbap_Begin by (simp add: MbapParser_parse_def length_rb_view [OF assms(1), symmetric]
          tcp_HEADER_LENGTH_def)
    then show ?thesis using assms(1,2) by blast
  qed
qed

lemma MbapParser_parse_done:
  assumes "rb_wf rb" and "mbap_expects p bs f" and "rb_view rb = bs @ extra"
  shows "\<exists>p' rb'. MbapParser_parse (p, rb) = (Ok (Some f), (p', rb')) \<and> rb_wf rb' \<and>
    rb_end rb' = rb_end rb \<and> rb_view rb' = extra \<and> mp_state p' = Mbap_Begin"
proof (cases "mp_state p")
  case (Mbap_Header h n)
  then have n: "n = length bs" "f = frame_of (FrameHeader_new_tcp_header (mh_unit_id h) (mh_tx_id h)) bs"
    using assms(2) by auto
  have "n \<le> length (rb_view rb)" using assms(3) n by simp
  then show ?thesis
    using MbapParser_at_header_done [OF assms(1), of n h p] rb_skip_props [OF assms(1), of n] n assms(3)
      Mbap_Header
    by (simp add: MbapParser_parse_def)
next
  case Mbap_Begin
  then obtain tx unit pdu where frame: "bs = mbap_frame_bytes tx unit pdu"
    "length pdu \<le> MAX_ADU_LENGTH" "f = frame_of (FrameHeader_new_tcp_header unit tx) pdu"
    using assms(2) by auto
  have view: "rb_view rb = be_hi (tx_value tx) # be_lo (tx_value tx) # be_hi 0 # be_lo 0 #
      be_hi (of_nat (length pdu + 1)) # be_lo (of_nat (length pdu + 1)) # uid_value unit # pdu @ extra"
    using assms(3) by (simp add: frame(1) mbap_frame_bytes_def mbap_header_bytes_def be_bytes_def)
  let ?h = "\<lparr>mh_tx_id = tx, mh_len_field = of_nat (length pdu + 1), mh_unit_id = unit\<rparr>"
  have skip: "rb_wf (rb_skip 7 rb)" "rb_view (rb_skip 7 rb) = pdu @ extra"
    "rb_end (rb_skip 7 rb) = rb_end rb"
    using rb_skip_props [OF assms(1), of 7] view by simp_all
  have n: "length pdu \<le> length (rb_view (rb_skip 7 rb))" using skip(2) by simp
  have "MbapParser_parse (p, rb) = MbapParser_parse_at_header ?h (length pdu)
      (p\<lparr>mp_state := Mbap_Header ?h (length pdu)\<rparr>, rb_skip 7 rb)"
    using mbap_check_frame [OF frame(2)] length_rb_view [OF assms(1), symmetric] view
    by (simp add: MbapParser_parse_def Mbap_Begin MbapParser_parse_header_eq [OF assms(1) view]
        tcp_HEADER_LENGTH_def)
  then show ?thesis
    using MbapParser_at_header_done [OF skip(1) n] rb_skip_props [OF skip(1) n] skip(2,3) frame(3)
    by simp
qed

text \<open>
  Every call keeps the buffer well formed, and a call that asks for more data either leaves
  everything as it was or has moved on from \<open>Begin\<close> to \<open>Header\<close>.
\<close>

fun mbap_stage :: "MbapParser \<Rightarrow> nat" where
  "mbap_stage p = (case mp_state p of Mbap_Begin \<Rightarrow> 1 | Mbap_Header _ _ \<Rightarrow> 0)"

lemma keeps_MbapParser_parse_header: "keeps rb_wf MbapParser_parse_header"
  unfolding MbapParser_parse_header_def Let_def
  by (intro keeps_bnd keeps_conv_err keeps_buffer_ops keeps_buffer_u16) auto

lemma keeps_MbapParser_parse_body: "keeps rb_wf (MbapParser_parse_body h n)"
  unfolding MbapParser_parse_body_def Let_def by (intro keeps_bnd keeps_conv_err keeps_buffer_ops keeps_ret)

lemma MbapParser_at_header_progress:
  assumes "rb_wf rb" and "MbapParser_parse_at_header h n (p, rb) = (x, (p', rb'))"
  shows "rb_wf rb' \<and> (x = Ok None \<longrightarrow> (p', rb') = (p, rb))"
  using assms keepsD [OF keeps_MbapParser_parse_body assms(1)]
  by (auto simp: MbapParser_parse_at_header_def split: if_splits prod.splits result.splits)

lemma MbapParser_progress:
  assumes "rb_wf rb" and "MbapParser_parse (p, rb) = (x, (p', rb'))"
  shows "rb_wf rb' \<and> (x = Ok None \<longrightarrow> (p', rb') = (p, rb) \<or> mbap_stage p' < mbap_stage p)"
proof (cases "mp_state p")
  case Mbap_Begin
  obtain y rb1 where y: "MbapParser_parse_header rb = (y, rb1)" by fastforce
  have wf1: "rb_wf rb1" using keepsD [OF keeps_MbapParser_parse_header assms(1) y] .
  show ?thesis
    using assms Mbap_Begin y wf1
    by (auto simp: MbapParser_parse_def dest!: MbapParser_at_header_progress [OF wf1]
        split: if_splits result.splits)
next
  case (Mbap_Header h n)
  then show ?thesis
    using assms MbapParser_at_header_progress [OF assms(1)] by (auto simp: MbapParser_parse_def)
qed

section \<open>Formatting a frame\<close>

lemma bnd_position [simp]: "bnd (position P) k w = k (wc_position P w) w"
  by (simp add: bnd_def)

context write_cursor
begin

lemma write_u8_ok:
  assumes "wpos w = p" and "p + 1 \<le> length (wbuf w)" and "q = p + 1"
  obtains w' where "write_u8 P b w = (Ok (), w')" and "wbuf w' = patch (wbuf w) p [b]" and "wpos w' = q"
  using emitsD_fits [OF emits_write_u8, of w b] assms by auto

lemma write_u16_be_ok:
  assumes "wpos w = p" and "p + 2 \<le> length (wbuf w)" and "q = p + 2"
  obtains w' where "write_u16_be P v w = (Ok (), w')" and "wbuf w' = patch (wbuf w) p (be_bytes v)"
    and "wpos w' = q"
  using emitsD_fits [OF emits_write_u16_be, of w v] assms by auto

lemma write_u16_le_ok:
  assumes "wpos w = p" and "p + 2 \<le> length (wbuf w)" and "q = p + 2"
  obtains w' where "write_u16_le P v w = (Ok (), w')" and "wbuf w' = patch (wbuf w) p [be_lo v, be_hi v]"
    and "wpos w' = q"
  using wc_write_u16_le_fits [of w v] assms by (auto simp: conv_err_def)

lemma skip_ok:
  assumes "wpos w = p" and "p + n \<le> length (wbuf w)" and "q = p + n"
  obtains w' where "skip P n w = (Ok (), w')" and "wbuf w' = wbuf w" and "wpos w' = q"
  using wc_skip_fits [of w n] assms by (auto simp: conv_err_def)

lemma seek_to_ok:
  assumes "n \<le> length (wbuf w)"
  obtains w' where "seek_to P n w = (Ok (), w')" and "wbuf w' = wbuf w" and "wpos w' = n"
  using wc_seek_to_fits [OF assms] by (auto simp: conv_err_def)

text \<open>
  Started at the front of a buffer that holds at least the header, the formatter runs the body at
  offset 8 and then fills in the length.
\<close>

lemma format_mbap_body:
  assumes "wpos w = 0" and "8 \<le> length (wbuf w)" and "fh_tx_id h = Some tx"
  defines "unit \<equiv> FrameDestination_into_unit_id (fh_destination h)"
  obtains w1 where "wpos w1 = 8" and "length (wbuf w1) = length (wbuf w)"
    and "\<And>e w'. msg w1 = (Err e, w') \<Longrightarrow> format_mbap P h fn msg w = (Err e, w')"
    and "\<And>w'. msg w1 = (Panic, w') \<Longrightarrow> format_mbap P h fn msg w = (Panic, w')"
    and "\<And>w' bs. msg w1 = (Ok (), w') \<Longrightarrow> wbuf w' = patch (wbuf w1) 8 bs \<Longrightarrow>
      wpos w' = 8 + length bs \<Longrightarrow> 8 + length bs \<le> length (wbuf w) \<Longrightarrow>
      \<exists>info w''. format_mbap P h fn msg w = (Ok info, w'') \<and>
        wbuf w'' = patch (wbuf w) 0 (mbap_frame_bytes tx unit (FunctionField_get_value fn # bs)) \<and>
        wpos w'' = 8 + length bs \<and> fi_pdu_body info = (8, 8 + length bs)"
proof -
  let ?b = "wbuf w" and ?fc = "FunctionField_get_value fn"
  obtain a1 where a1: "write_u16_be P (tx_value tx) w = (Ok (), a1)"
    "wbuf a1 = patch ?b 0 (be_bytes (tx_value tx))" "wpos a1 = 2"
    by (rule write_u16_be_ok [of w 0 2]) (use assms in auto)
  have l1: "length (wbuf a1) = length ?b" using a1(2) assms(2) by simp
  obtain a2 where a2: "write_u16_be P 0 a1 = (Ok (), a2)" "wbuf a2 = patch (wbuf a1) 2 (be_bytes 0)"
    "wpos a2 = 4"
    by (rule write_u16_be_ok [of a1 2 4]) (use a1 l1 assms(2) in auto)
  have b2: "wbuf a2 = patch ?b 0 (be_bytes (tx_value tx) @ be_bytes 0)"
    unfolding a2(2) a1(2) by (rule patch_patch_at) (use assms(2) in auto)
  have l2: "length (wbuf a2) = length ?b" using b2 assms(2) by simp
  obtain a3 where a3: "skip P 2 a2 = (Ok (), a3)" "wbuf a3 = wbuf a2" "wpos a3 = 6"
    by (rule skip_ok [of a2 4 2 6]) (use a2(3) l2 assms(2) in auto)
  obtain a4 where a4: "write_u8 P (uid_value unit) a3 = (Ok (), a4)"
    "wbuf a4 = patch (wbuf a3) 6 [uid_value unit]" "wpos a4 = 7"
    by (rule write_u8_ok [of a3 6 7]) (use a3 l2 assms(2) in auto)
  have l4: "length (wbuf a4) = length ?b" using a4(2) a3(2) l2 assms(2) by simp
  obtain w1 where w1: "write_u8 P ?fc a4 = (Ok (), w1)" "wbuf w1 = patch (wbuf a4) 7 [?fc]" "wpos w1 = 8"
    by (rule write_u8_ok [of a4 7 8]) (use a4(3) l4 assms(2) in auto)
  have bw1: "wbuf w1 = patch (wbuf a2) 6 [uid_value unit, ?fc]"
    using patch_patch_at [of 7 6 "[uid_value unit]" "[?fc]" "wbuf a2"] w1(2) a4(2) a3(2) l2 assms(2)
    by simp
  have len: "length (wbuf w1) = length ?b" using bw1 l2 assms(2) by simp
  note run = format_mbap_def Let_def bnd_simps wc_position a1(1) a2(1,3) a3(1) a4(1,3) w1(1,3)
    unit_def [symmetric]
  show ?thesis
  proof (rule that)
    show "wpos w1 = 8" "length (wbuf w1) = length (wbuf w)" by (simp_all add: w1(3) len)
    show "format_mbap P h fn msg w = (Err e, w')" if "msg w1 = (Err e, w')" for e w'
      using that by (simp add: run assms(3))
    show "format_mbap P h fn msg w = (Panic, w')" if "msg w1 = (Panic, w')" for w'
      using that by (simp add: run assms(3))
    fix w' bs
    assume m: "msg w1 = (Ok (), w')" "wbuf w' = patch (wbuf w1) 8 bs" "wpos w' = 8 + length bs"
      "8 + length bs \<le> length ?b"
    let ?n = "of_nat (length bs + 2) :: u16"
    have len': "length (wbuf w') = length ?b" using m len by simp
    obtain c1 where c1: "seek_to P 4 w' = (Ok (), c1)" "wbuf c1 = wbuf w'" "wpos c1 = 4"
      by (rule seek_to_ok [of 4 w']) (use len' assms(2) in auto)
    obtain c2 where c2: "write_u16_be P ?n c1 = (Ok (), c2)" "wbuf c2 = patch (wbuf c1) 4 (be_bytes ?n)"
      by (rule write_u16_be_ok [of c1 4 6]) (use c1 len' assms(2) in auto)
    have l5: "length (wbuf c2) = length ?b" using c2(2) c1(2) len' assms(2) by simp
    obtain c3 where c3: "seek_to P (8 + length bs) c2 = (Ok (), c3)" "wbuf c3 = wbuf c2"
      "wpos c3 = 8 + length bs"
      by (rule seek_to_ok [of "8 + length bs" c2]) (use l5 m(4) in auto)
    have "8 + length bs - 7 + 1 = length bs + 2" by simp
    then have res: "\<exists>info. format_mbap P h fn msg w = (Ok info, c3) \<and> fi_pdu_body info = (8, 8 + length bs)"
      using m(1) c1(1) c2(1) c3(1) by (simp add: run assms(3) m(3) ret_def FrameInfo_new_def)
    have "wbuf w' = patch (wbuf a2) 6 ([uid_value unit, ?fc] @ bs)"
      using m(2,4) bw1 l2 patch_patch_at [of 8 6 "[uid_value unit, ?fc]" bs "wbuf a2"] by simp
    then have "wbuf c3 = patch (patch (patch ?b 0 (be_bytes (tx_value tx) @ be_bytes 0)) 6
        ([uid_value unit, ?fc] @ bs)) 4 (be_bytes ?n)"
      using c1(2) c2(2) c3(2) b2 by simp
    also have "\<dots> = patch ?b 0 ((be_bytes (tx_value tx) @ be_bytes 0) @ be_bytes ?n @ ([uid_value unit, ?fc] @ bs))"
      by (rule patch_gap) (use m(4) in auto)
    also have "\<dots> = patch ?b 0 (mbap_frame_bytes tx unit (?fc # bs))"
      by (simp add: mbap_frame_bytes_def mbap_header_bytes_def)
    finally show "\<exists>info w''. format_mbap P h fn msg w = (Ok info, w'') \<and>
        wbuf w'' = patch ?b 0 (mbap_frame_bytes tx unit (?fc # bs)) \<and>
        wpos w'' = 8 + length bs \<and> fi_pdu_body info = (8, 8 + length bs)"
      using res c3(3) by blast
  qed
qed

end

end
