(* ===== verification/Rtu.thy ===== *)
theory Rtu
  imports Mbap
begin

text \<open>
  The RTU framing of Modbus over serial lines, \<open>rodbus/src/serial/frame.rs\<close>: the parser
  that deduces the length of a frame from its function code, the CRC check, and the formatter.
\<close>

section \<open>Parser\<close>

datatype ParserType = Request | Response

datatype RtuParseState =
    Rtu_Start
  | ReadFullBody FrameDestination usize
  | ReadToOffsetForLength FrameDestination usize

datatype LengthMode = Fixed usize | Offset usize | Unknown

record RtuParser =
  rp_state :: RtuParseState
  rp_parser_type :: ParserType

definition RtuParser_new_request_parser :: RtuParser where
  "RtuParser_new_request_parser = \<lparr>rp_state = Rtu_Start, rp_parser_type = Request\<rparr>"

definition RtuParser_new_response_parser :: RtuParser where
  "RtuParser_new_response_parser = \<lparr>rp_state = Rtu_Start, rp_parser_type = Response\<rparr>"

definition RtuParser_length_mode :: "ParserType \<Rightarrow> u8 \<Rightarrow> LengthMode" where
  "RtuParser_length_mode parser_type raw =
     (if parser_type = Response \<and> raw AND 0x80 \<noteq> 0 then Fixed 1
      else case FunctionCode_get raw of
        None \<Rightarrow> Unknown
      | Some function_code \<Rightarrow> (case parser_type of
            Request \<Rightarrow> (case function_code of
                ReadCoils \<Rightarrow> Fixed 4
              | ReadDiscreteInputs \<Rightarrow> Fixed 4
              | ReadHoldingRegisters \<Rightarrow> Fixed 4
              | ReadInputRegisters \<Rightarrow> Fixed 4
              | WriteSingleCoil \<Rightarrow> Fixed 4
              | WriteSingleRegister \<Rightarrow> Fixed 4
              | WriteMultipleCoils \<Rightarrow> Offset 5
              | WriteMultipleRegisters \<Rightarrow> Offset 5)
          | Response \<Rightarrow> (case function_code of
                ReadCoils \<Rightarrow> Offset 1
              | ReadDiscreteInputs \<Rightarrow> Offset 1
              | ReadHoldingRegisters \<Rightarrow> Offset 1
              | ReadInputRegisters \<Rightarrow> Offset 1
              | WriteSingleCoil \<Rightarrow> Fixed 4
              | WriteSingleRegister \<Rightarrow> Fixed 4
              | WriteMultipleCoils \<Rightarrow> Fixed 4
              | WriteMultipleRegisters \<Rightarrow> Fixed 4)))"

text \<open>
  The arms of \<open>parse\<close> in the order in which the recursive calls reach them. Each arm sees
  the state the previous one has stored.
\<close>

definition RtuParser_parse_full_body ::
    "('r, 'w, 'd, 'io) platform \<Rightarrow> FrameDestination \<Rightarrow> usize \<Rightarrow>
     (RtuParser \<times> ReadBuffer, Frame option, RequestError) se" where
  "RtuParser_parse_full_body P destination len s = (case s of (p, rb) \<Rightarrow>
     if FUNCTION_CODE_LENGTH + len > MAX_ADU_LENGTH
     then (Err (BadFrame (FrameLengthTooBig (FUNCTION_CODE_LENGTH + len) MAX_ADU_LENGTH)), (p, rb))
     else if ReadBuffer_len rb < FUNCTION_CODE_LENGTH + len + CRC_LENGTH then (Ok None, (p, rb))
     else
       let (r, rb') =
         bnd (buf_read (FUNCTION_CODE_LENGTH + len)) (\<lambda>data.
           let frame = snd (Frame_set data (Frame_new (FrameHeader_new_rtu_header destination))) in
           bnd buf_u16_le (\<lambda>received_crc.
             let expected_crc = crc_finalize P (crc_update P (Frame_payload frame)
                   (crc_update P [FrameDestination_value destination] (crc_digest P)))
             in if received_crc \<noteq> expected_crc
                then fail (BadFrame (CrcValidationFailure received_crc expected_crc))
                else ret frame)) rb
       in case r of
            Ok frame \<Rightarrow> (Ok (Some frame), (p\<lparr>rp_state := Rtu_Start\<rparr>, rb'))
          | Err e \<Rightarrow> (Err e, (p, rb'))
          | Panic \<Rightarrow> (Panic, (p, rb')))"

definition RtuParser_parse_to_offset ::
    "('r, 'w, 'd, 'io) platform \<Rightarrow> FrameDestination \<Rightarrow> usize \<Rightarrow>
     (RtuParser \<times> ReadBuffer, Frame option, RequestError) se" where
  "RtuParser_parse_to_offset P destination offset s = (case s of (p, rb) \<Rightarrow>
     if ReadBuffer_len rb < FUNCTION_CODE_LENGTH + offset then (Ok None, (p, rb))
     else case buf_peek (FUNCTION_CODE_LENGTH + offset - 1) rb of
        (Ok b, rb') \<Rightarrow>
          let extra_bytes_to_read = unat b in
          RtuParser_parse_full_body P destination (offset + extra_bytes_to_read)
            (p\<lparr>rp_state := ReadFullBody destination (offset + extra_bytes_to_read)\<rparr>, rb')
      | (Err e, rb') \<Rightarrow> (Err e, (p, rb'))
      | (Panic, rb') \<Rightarrow> (Panic, (p, rb')))"

definition RtuParser_parse_start ::
    "('r, 'w, 'd, 'io) platform \<Rightarrow> (RtuParser \<times> ReadBuffer, Frame option, RequestError) se" where
  "RtuParser_parse_start P s = (case s of (p, rb) \<Rightarrow>
     if ReadBuffer_len rb < 2 then (Ok None, (p, rb))
     else case buf_u8 rb of
        (Ok b, rb1) \<Rightarrow>
          let unit_id = UnitId_new b;
              destination = (if unit_id = UnitId_broadcast then Broadcast else Dest_UnitId unit_id)
          in (case buf_peek 0 rb1 of
                (Ok raw_function_code, rb2) \<Rightarrow>
                  (case RtuParser_length_mode (rp_parser_type p) raw_function_code of
                     Fixed len \<Rightarrow> RtuParser_parse_full_body P destination len
                         (p\<lparr>rp_state := ReadFullBody destination len\<rparr>, rb2)
                   | Offset offset \<Rightarrow> RtuParser_parse_to_offset P destination offset
                         (p\<lparr>rp_state := ReadToOffsetForLength destination offset\<rparr>, rb2)
                   | Unknown \<Rightarrow> (Err (BadFrame (UnknownFunctionCode raw_function_code)), (p, rb2)))
              | (Err e, rb2) \<Rightarrow> (Err e, (p, rb2))
              | (Panic, rb2) \<Rightarrow> (Panic, (p, rb2)))
      | (Err e, rb1) \<Rightarrow> (Err e, (p, rb1))
      | (Panic, rb1) \<Rightarrow> (Panic, (p, rb1)))"

definition RtuParser_parse ::
    "('r, 'w, 'd, 'io) platform \<Rightarrow> (RtuParser \<times> ReadBuffer, Frame option, RequestError) se" where
  "RtuParser_parse P s = (case rp_state (fst s) of
      Rtu_Start \<Rightarrow> RtuParser_parse_start P s
    | ReadToOffsetForLength destination offset \<Rightarrow> RtuParser_parse_to_offset P destination offset s
    | ReadFullBody destination len \<Rightarrow> RtuParser_parse_full_body P destination len s)"

definition RtuParser_reset :: "RtuParser \<Rightarrow> RtuParser" where
  "RtuParser_reset p = p\<lparr>rp_state := Rtu_Start\<rparr>"

section \<open>Formatter\<close>

definition format_rtu_pdu ::
    "('r, 'w, 'd, 'io) platform \<Rightarrow> FrameHeader \<Rightarrow> FunctionField \<Rightarrow> ('w, unit, RequestError) se \<Rightarrow>
     ('w, FrameInfo, RequestError) se" where
  "format_rtu_pdu P header function msg =
     bnd (position P) (\<lambda>start_frame.
     bnd (write_u8 P (FrameDestination_value (fh_destination header))) (\<lambda>_.
     bnd (write_u8 P (FunctionField_get_value function)) (\<lambda>_.
     bnd (position P) (\<lambda>start_pdu_body.
     bnd msg (\<lambda>_.
     bnd (position P) (\<lambda>end_pdu_body w.
       case wc_get P start_frame end_pdu_body w of
         None \<Rightarrow> (Panic, w)
       | Some bytes \<Rightarrow>
           let crc = crc_checksum P bytes in
           bnd (write_u16_le P crc) (\<lambda>_.
             ret (FrameInfo_new (RtuType (fh_destination header) crc) (start_pdu_body, end_pdu_body))) w))))))"

section \<open>The frame layout\<close>

definition rtu_crc :: "('r, 'w, 'd, 'io) platform \<Rightarrow> u8 list \<Rightarrow> u8 list" where
  "rtu_crc P bs = [be_lo (crc_checksum P bs), be_hi (crc_checksum P bs)]"

definition rtu_frame_bytes :: "('r, 'w, 'd, 'io) platform \<Rightarrow> u8 \<Rightarrow> u8 list \<Rightarrow> u8 list" where
  "rtu_frame_bytes P dest pdu = (dest # pdu) @ rtu_crc P (dest # pdu)"

lemma length_rtu_crc [simp]: "length (rtu_crc P bs) = 2"
  by (simp add: rtu_crc_def)

lemma length_rtu_frame_bytes [simp]: "length (rtu_frame_bytes P dest pdu) = length pdu + 3"
  by (simp add: rtu_frame_bytes_def)

definition rtu_destination :: "u8 \<Rightarrow> FrameDestination" where
  "rtu_destination b = (if UnitId b = UnitId_broadcast then Broadcast else Dest_UnitId (UnitId b))"

lemma rtu_destination_value [simp]: "FrameDestination_value (rtu_destination b) = b"
  by (auto simp: rtu_destination_def UnitId_broadcast_def)

text \<open>The PDUs whose length agrees with what the parser deduces from the function code.\<close>

fun rtu_pdu_ok :: "ParserType \<Rightarrow> u8 list \<Rightarrow> bool" where
  "rtu_pdu_ok ptype [] = False"
| "rtu_pdu_ok ptype (fc # body) = (length body + 1 \<le> MAX_ADU_LENGTH \<and>
     (case RtuParser_length_mode ptype fc of
        Fixed n \<Rightarrow> length body = n
      | Offset n \<Rightarrow> n \<le> length body \<and> length body = n + unat (body ! (n - 1))
      | Unknown \<Rightarrow> False))"

lemma length_mode_Offset_pos: "RtuParser_length_mode t fc = Offset n \<Longrightarrow> 0 < n"
  by (auto simp: RtuParser_length_mode_def split: if_splits option.splits ParserType.splits FunctionCode.splits)

section \<open>Parsing a frame\<close>

text \<open>As for MBAP: the bytes the parser still needs to complete a frame.\<close>

fun rtu_expects :: "('r, 'w, 'd, 'io) platform \<Rightarrow> RtuParser \<Rightarrow> u8 list \<Rightarrow> Frame \<Rightarrow> bool" where
  "rtu_expects P p bs f = (case rp_state p of
      Rtu_Start \<Rightarrow> (\<exists>dest pdu. bs = rtu_frame_bytes P dest pdu \<and> rtu_pdu_ok (rp_parser_type p) pdu \<and>
        f = frame_of (FrameHeader_new_rtu_header (rtu_destination dest)) pdu)
    | ReadToOffsetForLength d n \<Rightarrow> (\<exists>fc body. 0 < n \<and> n \<le> length body \<and>
        length body = n + unat (body ! (n - 1)) \<and> length body + 1 \<le> MAX_ADU_LENGTH \<and>
        bs = (fc # body) @ rtu_crc P (FrameDestination_value d # fc # body) \<and>
        f = frame_of (FrameHeader_new_rtu_header d) (fc # body))
    | ReadFullBody d n \<Rightarrow> (\<exists>pdu. length pdu = n + 1 \<and> n + 1 \<le> MAX_ADU_LENGTH \<and>
        bs = pdu @ rtu_crc P (FrameDestination_value d # pdu) \<and>
        f = frame_of (FrameHeader_new_rtu_header d) pdu))"

definition rtu_waits ::
    "('r, 'w, 'd, 'io) platform \<Rightarrow> (Frame option, RequestError) result \<times> RtuParser \<times> ReadBuffer \<Rightarrow>
     ReadBuffer \<Rightarrow> u8 list \<Rightarrow> Frame \<Rightarrow> bool" where
  "rtu_waits P x rb post f \<longleftrightarrow> (\<exists>p' rb'. x = (Ok None, (p', rb')) \<and> rb_wf rb' \<and>
     rb_end rb' = rb_end rb \<and> length (rb_view rb') \<le> length (rb_view rb) \<and>
     rtu_expects P p' (rb_view rb' @ post) f)"

definition rtu_done ::
    "(Frame option, RequestError) result \<times> RtuParser \<times> ReadBuffer \<Rightarrow> ParserType \<Rightarrow> ReadBuffer \<Rightarrow>
     u8 list \<Rightarrow> Frame \<Rightarrow> bool" where
  "rtu_done x t rb extra f \<longleftrightarrow> (\<exists>p' rb'. x = (Ok (Some f), (p', rb')) \<and> rb_wf rb' \<and>
     rb_end rb' = rb_end rb \<and> rb_view rb' = extra \<and> rp_state p' = Rtu_Start \<and> rp_parser_type p' = t)"

lemma rtu_full_body_wait:
  assumes "rb_wf rb" and "rp_state p = ReadFullBody d n" and "rtu_expects P p (rb_view rb @ post) f"
    and "post \<noteq> []"
  shows "rtu_waits P (RtuParser_parse_full_body P d n (p, rb)) rb post f"
proof -
  from assms(2,3) obtain pdu where pdu: "length pdu = n + 1" "n + 1 \<le> MAX_ADU_LENGTH"
    "rb_view rb @ post = pdu @ rtu_crc P (FrameDestination_value d # pdu)" by auto
  have "length (rb_view rb @ post) = n + 3" using pdu by simp
  then have "length (rb_view rb) < n + 3" using assms(4) by (cases post) simp_all
  then have "RtuParser_parse_full_body P d n (p, rb) = (Ok None, (p, rb))"
    using pdu(2) by (simp add: RtuParser_parse_full_body_def length_rb_view [OF assms(1), symmetric]
        FUNCTION_CODE_LENGTH_def CRC_LENGTH_def)
  then show ?thesis using assms by (auto simp: rtu_waits_def)
qed

text \<open>Progress of the parser, as for MBAP.\<close>

fun rtu_stage :: "RtuParser \<Rightarrow> nat" where
  "rtu_stage p = (case rp_state p of Rtu_Start \<Rightarrow> 2 | ReadToOffsetForLength _ _ \<Rightarrow> 1 | ReadFullBody _ _ \<Rightarrow> 0)"

lemma RtuParser_full_body_progress:
  assumes "rb_wf rb" and "RtuParser_parse_full_body P d n (p, rb) = (x, (p', rb'))"
  shows "rb_wf rb' \<and> (x = Ok None \<longrightarrow> (p', rb') = (p, rb))"
proof -
  define m where "m = bnd (buf_read (FUNCTION_CODE_LENGTH + n)) (\<lambda>data.
       let frame = snd (Frame_set data (Frame_new (FrameHeader_new_rtu_header d))) in
       bnd buf_u16_le (\<lambda>received_crc.
         let expected_crc = crc_finalize P (crc_update P (Frame_payload frame)
               (crc_update P [FrameDestination_value d] (crc_digest P)))
         in if received_crc \<noteq> expected_crc
            then fail (BadFrame (CrcValidationFailure received_crc expected_crc))
            else ret frame))"
  obtain y rb1 where y: "m rb = (y, rb1)" by fastforce
  have "keeps rb_wf m"
    unfolding Let_def m_def by (intro keeps_bnd keeps_conv_err keeps_buffer_ops keeps_buffer_u16) simp
  then have wf1: "rb_wf rb1" using assms(1) y unfolding keeps_def by (metis snd_conv)
  show ?thesis
    using assms y wf1 unfolding RtuParser_parse_full_body_def m_def [symmetric]
    by (auto split: if_splits result.splits)
qed

lemma RtuParser_to_offset_progress:
  assumes "rb_wf rb" and "RtuParser_parse_to_offset P d n (p, rb) = (x, (p', rb'))"
    and "rp_state p = ReadToOffsetForLength d n"
  shows "rb_wf rb' \<and> (x = Ok None \<longrightarrow> (p', rb') = (p, rb) \<or> rtu_stage p' < 1)"
proof -
  obtain y rb1 where y: "buf_peek (FUNCTION_CODE_LENGTH + n - 1) rb = (y, rb1)" by fastforce
  have wf1: "rb_wf rb1"
    using keepsD [OF keeps_conv_err [OF keeps_buffer_ops(3)] assms(1) y] .
  show ?thesis
  proof (cases "ReadBuffer_len rb < FUNCTION_CODE_LENGTH + n")
    case True
    then show ?thesis using assms by (simp add: RtuParser_parse_to_offset_def)
  next
    case False
    show ?thesis
    proof (cases y)
      case (Ok b)
      let ?p = "p\<lparr>rp_state := ReadFullBody d (n + unat b)\<rparr>"
      have "RtuParser_parse_full_body P d (n + unat b) (?p, rb1) = (x, (p', rb'))"
        using assms(2) y Ok False by (simp add: RtuParser_parse_to_offset_def Let_def)
      from RtuParser_full_body_progress [OF wf1 this] show ?thesis by auto
    qed (use assms y wf1 False in \<open>auto simp: RtuParser_parse_to_offset_def\<close>)
  qed
qed

lemma RtuParser_start_progress:
  assumes "rb_wf rb" and "RtuParser_parse_start P (p, rb) = (x, (p', rb'))"
  shows "rb_wf rb' \<and> (x = Ok None \<longrightarrow> (p', rb') = (p, rb) \<or> rtu_stage p' < 2)"
proof -
  obtain y rb1 where y: "buf_u8 rb = (y, rb1)" by fastforce
  obtain z rb2 where z: "buf_peek 0 rb1 = (z, rb2)" by fastforce
  have wf1: "rb_wf rb1"
    using keepsD [OF keeps_conv_err [OF keeps_buffer_ops(2)] assms(1) y] .
  have wf2: "rb_wf rb2"
    using keepsD [OF keeps_conv_err [OF keeps_buffer_ops(3)] wf1 z] .
  show ?thesis
  proof (cases "ReadBuffer_len rb < 2")
    case True
    then show ?thesis using assms by (simp add: RtuParser_parse_start_def)
  next
    case False
    show ?thesis
    proof (cases y)
      case (Ok b)
      note run = RtuParser_parse_start_def Let_def UnitId_new_def y Ok z False
      have d: "(if UnitId b = UnitId_broadcast then Broadcast else Dest_UnitId (UnitId b)) = rtu_destination b"
        by (simp add: rtu_destination_def)
      show ?thesis
      proof (cases z)
        case (Ok fc)
        show ?thesis
        proof (cases "RtuParser_length_mode (rp_parser_type p) fc")
          case (Fixed n)
          let ?p = "p\<lparr>rp_state := ReadFullBody (rtu_destination b) n\<rparr>"
          have "RtuParser_parse_full_body P (rtu_destination b) n (?p, rb2) = (x, (p', rb'))"
            using assms(2) Ok Fixed by (simp add: run d)
          from RtuParser_full_body_progress [OF wf2 this] show ?thesis by auto
        next
          case (Offset n)
          let ?p = "p\<lparr>rp_state := ReadToOffsetForLength (rtu_destination b) n\<rparr>"
          have "RtuParser_parse_to_offset P (rtu_destination b) n (?p, rb2) = (x, (p', rb'))"
            using assms(2) Ok Offset by (simp add: run d)
          from RtuParser_to_offset_progress [OF wf2 this] show ?thesis by auto
        qed (use assms Ok wf2 in \<open>auto simp: run\<close>)
      qed (use assms wf2 in \<open>auto simp: run\<close>)
    qed (use assms y wf1 False in \<open>auto simp: RtuParser_parse_start_def\<close>)
  qed
qed

lemma RtuParser_progress:
  assumes "rb_wf rb" and "RtuParser_parse P (p, rb) = (x, (p', rb'))"
  shows "rb_wf rb' \<and> (x = Ok None \<longrightarrow> (p', rb') = (p, rb) \<or> rtu_stage p' < rtu_stage p)"
  using assms RtuParser_start_progress [OF assms(1)] RtuParser_to_offset_progress [OF assms(1)]
    RtuParser_full_body_progress [OF assms(1)]
  by (cases "rp_state p") (simp_all add: RtuParser_parse_def, blast+)

context crc_engine
begin

text \<open>A complete body: the frame is returned exactly when the transmitted CRC is right.\<close>

lemma rtu_full_body_crc:
  assumes "rb_wf rb" and "rb_view rb = pdu @ lo # hi # extra" and "length pdu = n + 1"
    and "n + 1 \<le> MAX_ADU_LENGTH"
  shows "RtuParser_parse_full_body P d n (p, rb) =
    (let crc = crc_checksum P (FrameDestination_value d # pdu) in
     if u16_be hi lo = crc
     then (Ok (Some (frame_of (FrameHeader_new_rtu_header d) pdu)),
           (p\<lparr>rp_state := Rtu_Start\<rparr>, rb_skip (n + 3) rb))
     else (Err (BadFrame (CrcValidationFailure (u16_be hi lo) crc)), (p, rb_skip (n + 3) rb)))"
proof -
  have n: "n + 1 \<le> length (rb_view rb)" using assms(2,3) by simp
  have r1: "buf_read (Suc n) rb = (Ok pdu, rb_skip (Suc n) rb)"
    using buf_read_enough [OF assms(1) n] assms(2,3) by simp
  have skip: "rb_wf (rb_skip (Suc n) rb)" "rb_view (rb_skip (Suc n) rb) = lo # hi # extra"
    using rb_skip_props [OF assms(1) n] assms(2,3) by simp_all
  have r2: "buf_u16_le (rb_skip (Suc n) rb) = (Ok (u16_be hi lo), rb_skip (n + 3) rb)"
    using buf_u16_le_Cons [OF skip] by (simp add: eval_nat_numeral)
  have pay: "Frame_payload (snd (Frame_set pdu (Frame_new (FrameHeader_new_rtu_header d)))) = pdu"
    using frame_of_props(2) [of pdu "FrameHeader_new_rtu_header d"] assms(3,4) by (simp add: frame_of_def)
  have crc: "crc_finalize P (crc_update P pdu (crc_update P [FrameDestination_value d] (crc_digest P)))
      = crc_checksum P (FrameDestination_value d # pdu)"
    by (simp add: crc_checksum crc_update_append)
  have len: "\<not> ReadBuffer_len rb < Suc (Suc (Suc n))"
    using assms(2,3) length_rb_view [OF assms(1), symmetric] by simp
  show ?thesis
    using assms(4) len
    by (simp add: RtuParser_parse_full_body_def FUNCTION_CODE_LENGTH_def CRC_LENGTH_def bnd_simps r1 r2
        Let_def pay crc fail_def ret_def frame_of_def)
qed

lemma rtu_full_body_done:
  assumes "rb_wf rb" and "rp_state p = ReadFullBody d n" and "rtu_expects P p bs f"
    and "rb_view rb = bs @ extra"
  shows "rtu_done (RtuParser_parse_full_body P d n (p, rb)) (rp_parser_type p) rb extra f"
proof -
  from assms(2,3) obtain pdu where pdu: "length pdu = n + 1" "n + 1 \<le> MAX_ADU_LENGTH"
    "bs = pdu @ rtu_crc P (FrameDestination_value d # pdu)"
    "f = frame_of (FrameHeader_new_rtu_header d) pdu" by auto
  let ?crc = "crc_checksum P (FrameDestination_value d # pdu)"
  have view: "rb_view rb = pdu @ be_lo ?crc # be_hi ?crc # extra"
    using assms(4) pdu(3) by (simp add: rtu_crc_def)
  have "n + 3 \<le> length (rb_view rb)" "drop (n + 3) (rb_view rb) = extra"
    using view pdu(1) by (simp_all add: eval_nat_numeral)
  then show ?thesis
    using rtu_full_body_crc [OF assms(1) view pdu(1,2), of d p] pdu(4) rb_skip_props [OF assms(1), of "n + 3"]
    by (auto simp: rtu_done_def Let_def)
qed

lemma rtu_to_offset_length:
  assumes "rb_wf rb" and "n + 1 \<le> length (rb_view rb)" and "0 < n"
    and "rb_view rb @ post = (fc # body) @ rest" and "n \<le> length body"
  shows "RtuParser_parse_to_offset P d n (p, rb) =
    RtuParser_parse_full_body P d (n + unat (body ! (n - 1)))
      (p\<lparr>rp_state := ReadFullBody d (n + unat (body ! (n - 1)))\<rparr>, rb)"
proof -
  have "rb_view rb ! n = (rb_view rb @ post) ! n" using assms(2) by (simp add: nth_append)
  also have "\<dots> = body ! (n - 1)" using assms(3,4,5) by (cases n) (simp_all add: nth_append)
  finally have "buf_peek n rb = (Ok (body ! (n - 1)), rb)"
    using buf_peek_inside [OF assms(1), of n] assms(2) by simp
  then show ?thesis
    using assms(2,3) by (simp add: RtuParser_parse_to_offset_def length_rb_view [OF assms(1), symmetric]
        FUNCTION_CODE_LENGTH_def Let_def)
qed

lemma rtu_to_offset_wait:
  assumes "rb_wf rb" and "rp_state p = ReadToOffsetForLength d n"
    and "rtu_expects P p (rb_view rb @ post) f" and "post \<noteq> []"
  shows "rtu_waits P (RtuParser_parse_to_offset P d n (p, rb)) rb post f"
proof -
  from assms(2,3) obtain fc body where b: "0 < n" "n \<le> length body"
    "length body = n + unat (body ! (n - 1))" "length body + 1 \<le> MAX_ADU_LENGTH"
    "rb_view rb @ post = (fc # body) @ rtu_crc P (FrameDestination_value d # fc # body)"
    "f = frame_of (FrameHeader_new_rtu_header d) (fc # body)" by auto
  show ?thesis
  proof (cases "n + 1 \<le> length (rb_view rb)")
    case True
    let ?p = "p\<lparr>rp_state := ReadFullBody d (n + unat (body ! (n - 1)))\<rparr>"
    have "rtu_expects P ?p (rb_view rb @ post) f" using b by (auto intro!: exI [of _ "fc # body"])
    then have "rtu_waits P (RtuParser_parse_full_body P d (n + unat (body ! (n - 1))) (?p, rb)) rb post f"
      by (intro rtu_full_body_wait [OF assms(1)] assms(4)) simp_all
    then show ?thesis using rtu_to_offset_length [OF assms(1) True b(1,5,2)] by simp
  next
    case False
    then have "RtuParser_parse_to_offset P d n (p, rb) = (Ok None, (p, rb))"
      by (simp add: RtuParser_parse_to_offset_def length_rb_view [OF assms(1), symmetric]
          FUNCTION_CODE_LENGTH_def)
    then show ?thesis using assms by (auto simp: rtu_waits_def)
  qed
qed

lemma rtu_to_offset_done:
  assumes "rb_wf rb" and "rp_state p = ReadToOffsetForLength d n" and "rtu_expects P p bs f"
    and "rb_view rb = bs @ extra"
  shows "rtu_done (RtuParser_parse_to_offset P d n (p, rb)) (rp_parser_type p) rb extra f"
proof -
  from assms(2,3) obtain fc body where b: "0 < n" "n \<le> length body"
    "length body = n + unat (body ! (n - 1))" "length body + 1 \<le> MAX_ADU_LENGTH"
    "bs = (fc # body) @ rtu_crc P (FrameDestination_value d # fc # body)"
    "f = frame_of (FrameHeader_new_rtu_header d) (fc # body)" by auto
  let ?p = "p\<lparr>rp_state := ReadFullBody d (n + unat (body ! (n - 1)))\<rparr>"
  have len: "n + 1 \<le> length (rb_view rb)" using assms(4) b(2,5) by simp
  have view: "rb_view rb @ [] = (fc # body) @ rtu_crc P (FrameDestination_value d # fc # body) @ extra"
    using assms(4) b(5) by simp
  have "rtu_expects P ?p bs f" using b by (auto intro!: exI [of _ "fc # body"])
  then have "rtu_done (RtuParser_parse_full_body P d (n + unat (body ! (n - 1))) (?p, rb))
      (rp_parser_type p) rb extra f"
    using rtu_full_body_done [OF assms(1) _ _ assms(4), of ?p d "n + unat (body ! (n - 1))" f] by simp
  then show ?thesis using rtu_to_offset_length [OF assms(1) len b(1) view b(2)] by simp
qed

text \<open>The first two bytes select the next arm.\<close>

lemma rtu_start_step:
  assumes "rb_wf rb" and "rb_view rb = b # fc # tail"
  shows "RtuParser_parse_start P (p, rb) =
    (case RtuParser_length_mode (rp_parser_type p) fc of
       Fixed n \<Rightarrow> RtuParser_parse_full_body P (rtu_destination b) n
         (p\<lparr>rp_state := ReadFullBody (rtu_destination b) n\<rparr>, rb_skip 1 rb)
     | Offset n \<Rightarrow> RtuParser_parse_to_offset P (rtu_destination b) n
         (p\<lparr>rp_state := ReadToOffsetForLength (rtu_destination b) n\<rparr>, rb_skip 1 rb)
     | Unknown \<Rightarrow> (Err (BadFrame (UnknownFunctionCode fc)), (p, rb_skip 1 rb)))"
proof -
  have skip: "rb_wf (rb_skip 1 rb)" "rb_view (rb_skip 1 rb) = fc # tail"
    using rb_skip_props [OF assms(1), of 1] assms(2) by simp_all
  have "buf_peek 0 (rb_skip 1 rb) = (Ok fc, rb_skip 1 rb)"
    using buf_peek_inside [OF skip(1), of 0] skip(2) by simp
  moreover have "\<not> ReadBuffer_len rb < 2" using assms by (simp add: length_rb_view [symmetric])
  ultimately show ?thesis
    using buf_u8_Cons [OF assms]
    by (simp add: RtuParser_parse_start_def UnitId_new_def rtu_destination_def Let_def del: One_nat_def
        split: LengthMode.splits)
qed

lemma rtu_start_expects:
  assumes "rp_state p = Rtu_Start" and "rtu_expects P p (b # fc # tail) f"
  shows "case RtuParser_length_mode (rp_parser_type p) fc of
      Fixed n \<Rightarrow> rtu_expects P (p\<lparr>rp_state := ReadFullBody (rtu_destination b) n\<rparr>) (fc # tail) f
    | Offset n \<Rightarrow> rtu_expects P (p\<lparr>rp_state := ReadToOffsetForLength (rtu_destination b) n\<rparr>) (fc # tail) f
    | Unknown \<Rightarrow> False"
proof -
  from assms obtain dest pdu where d: "b # fc # tail = rtu_frame_bytes P dest pdu"
    "rtu_pdu_ok (rp_parser_type p) pdu"
    "f = frame_of (FrameHeader_new_rtu_header (rtu_destination dest)) pdu" by auto
  obtain c body where pdu: "pdu = c # body" using d(2) by (cases pdu) auto
  have eqs: "dest = b" "c = fc" "tail = body @ rtu_crc P (b # fc # body)"
    using d(1) pdu by (auto simp: rtu_frame_bytes_def)
  show ?thesis
  proof (cases "RtuParser_length_mode (rp_parser_type p) fc")
    case (Fixed n)
    then show ?thesis using d pdu eqs by (auto intro!: exI [of _ "fc # body"])
  next
    case (Offset n)
    then show ?thesis using d pdu eqs length_mode_Offset_pos [OF Offset] by auto
  qed (use d pdu eqs in auto)
qed

lemma rtu_start_wait:
  assumes "rb_wf rb" and "rp_state p = Rtu_Start" and "rtu_expects P p (rb_view rb @ post) f"
    and "post \<noteq> []"
  shows "rtu_waits P (RtuParser_parse_start P (p, rb)) rb post f"
proof (cases "rb_view rb" rule: list_u16.cases)
  case (1 b fc tail)
  have skip: "rb_wf (rb_skip 1 rb)" "rb_view (rb_skip 1 rb) = fc # tail" "rb_end (rb_skip 1 rb) = rb_end rb"
    using rb_skip_props [OF assms(1), of 1] 1 by simp_all
  have waits: "rtu_waits P x rb post f" if "rtu_waits P x (rb_skip 1 rb) post f" for x
    using that skip(2,3) 1 by (auto simp: rtu_waits_def)
  note e = rtu_start_expects [OF assms(2), of b fc "tail @ post" f]
  show ?thesis
  proof (cases "RtuParser_length_mode (rp_parser_type p) fc")
    case (Fixed n)
    let ?p = "p\<lparr>rp_state := ReadFullBody (rtu_destination b) n\<rparr>"
    have "rtu_expects P ?p (rb_view (rb_skip 1 rb) @ post) f"
      using e assms(3) 1 Fixed skip(2) by simp
    then have "rtu_waits P (RtuParser_parse_full_body P (rtu_destination b) n (?p, rb_skip 1 rb)) rb post f"
      by (intro waits rtu_full_body_wait [OF skip(1) _ _ assms(4)]) simp_all
    then show ?thesis using rtu_start_step [OF assms(1) 1, of p] Fixed by simp
  next
    case (Offset n)
    let ?p = "p\<lparr>rp_state := ReadToOffsetForLength (rtu_destination b) n\<rparr>"
    have "rtu_expects P ?p (rb_view (rb_skip 1 rb) @ post) f"
      using e assms(3) 1 Offset skip(2) by simp
    then have "rtu_waits P (RtuParser_parse_to_offset P (rtu_destination b) n (?p, rb_skip 1 rb)) rb post f"
      by (intro waits rtu_to_offset_wait [OF skip(1) _ _ assms(4)]) simp_all
    then show ?thesis using rtu_start_step [OF assms(1) 1, of p] Offset by simp
  qed (use e assms(3) 1 in simp)
qed (use assms in \<open>auto simp: rtu_waits_def RtuParser_parse_start_def length_rb_view [OF assms(1), symmetric]\<close>)

lemma rtu_start_done:
  assumes "rb_wf rb" and "rp_state p = Rtu_Start" and "rtu_expects P p bs f"
    and "rb_view rb = bs @ extra"
  shows "rtu_done (RtuParser_parse_start P (p, rb)) (rp_parser_type p) rb extra f"
proof -
  have "2 \<le> length bs" using assms(2,3) by auto
  then obtain b fc tail where bs: "bs = b # fc # tail" by (cases bs rule: list_u16.cases) auto
  have view: "rb_view rb = b # fc # (tail @ extra)" using assms(4) bs by simp
  have skip: "rb_wf (rb_skip 1 rb)" "rb_view (rb_skip 1 rb) = (fc # tail) @ extra"
    "rb_end (rb_skip 1 rb) = rb_end rb"
    using rb_skip_props [OF assms(1), of 1] view by simp_all
  have done': "rtu_done x (rp_parser_type p) rb extra f"
    if "rtu_done x (rp_parser_type p) (rb_skip 1 rb) extra f" for x
    using that skip(3) by (simp add: rtu_done_def)
  note e = rtu_start_expects [OF assms(2) assms(3) [unfolded bs]]
  show ?thesis
  proof (cases "RtuParser_length_mode (rp_parser_type p) fc")
    case (Fixed n)
    then show ?thesis
      using rtu_start_step [OF assms(1) view, of p] e done'
        rtu_full_body_done [OF skip(1) _ _ skip(2), of "p\<lparr>rp_state := ReadFullBody (rtu_destination b) n\<rparr>"]
      by simp
  next
    case (Offset n)
    then show ?thesis
      using rtu_start_step [OF assms(1) view, of p] e done'
        rtu_to_offset_done [OF skip(1) _ _ skip(2),
          of "p\<lparr>rp_state := ReadToOffsetForLength (rtu_destination b) n\<rparr>"]
      by simp
  qed (use e in simp)
qed

lemma RtuParser_parse_wait:
  assumes "rb_wf rb" and "rtu_expects P p (rb_view rb @ post) f" and "post \<noteq> []"
  shows "rtu_waits P (RtuParser_parse P (p, rb)) rb post f"
  using assms by (cases "rp_state p")
    (simp_all add: RtuParser_parse_def rtu_start_wait rtu_to_offset_wait rtu_full_body_wait
      del: rtu_expects.simps)

lemma RtuParser_parse_done:
  assumes "rb_wf rb" and "rtu_expects P p bs f" and "rb_view rb = bs @ extra"
  shows "rtu_done (RtuParser_parse P (p, rb)) (rp_parser_type p) rb extra f"
  using assms by (cases "rp_state p")
    (simp_all add: RtuParser_parse_def rtu_start_done rtu_to_offset_done rtu_full_body_done
      del: rtu_expects.simps)

end

section \<open>Formatting a frame\<close>

context platform
begin

text \<open>
  As for MBAP, from the front of the buffer: the body runs at offset 2 and the CRC of everything
  before it follows, if there is room.
\<close>

lemma format_rtu_body:
  fixes h :: FrameHeader
  assumes "wpos w = 0" and "2 \<le> length (wbuf w)"
  defines "dest \<equiv> FrameDestination_value (fh_destination h)"
  obtains w1 where "wpos w1 = 2" and "length (wbuf w1) = length (wbuf w)"
    and "\<And>e w'. msg w1 = (Err e, w') \<Longrightarrow> format_rtu_pdu P h fn msg w = (Err e, w')"
    and "\<And>w'. msg w1 = (Panic, w') \<Longrightarrow> format_rtu_pdu P h fn msg w = (Panic, w')"
    and "\<And>w' bs. msg w1 = (Ok (), w') \<Longrightarrow> wbuf w' = patch (wbuf w1) 2 bs \<Longrightarrow>
      wpos w' = 2 + length bs \<Longrightarrow> 4 + length bs \<le> length (wbuf w) \<Longrightarrow>
      \<exists>info w''. format_rtu_pdu P h fn msg w = (Ok info, w'') \<and>
        wbuf w'' = patch (wbuf w) 0 (rtu_frame_bytes P dest (FunctionField_get_value fn # bs)) \<and>
        wpos w'' = 4 + length bs \<and> fi_pdu_body info = (2, 2 + length bs)"
    and "\<And>w' bs. msg w1 = (Ok (), w') \<Longrightarrow> length (wbuf w') = length (wbuf w) \<Longrightarrow>
      wpos w' = 2 + length (bs :: u8 list) \<Longrightarrow> 2 + length bs \<le> length (wbuf w) \<Longrightarrow> length (wbuf w) < 4 + length bs \<Longrightarrow>
      \<exists>e w''. format_rtu_pdu P h fn msg w = (Err (Internal e), w'') \<and> length (wbuf w'') = length (wbuf w)"
proof -
  let ?b = "wbuf w" and ?fc = "FunctionField_get_value fn"
  obtain a1 where a1: "write_u8 P dest w = (Ok (), a1)" "wbuf a1 = patch ?b 0 [dest]" "wpos a1 = 1"
    by (rule write_u8_ok [of w 0 1]) (use assms in auto)
  have l1: "length (wbuf a1) = length ?b" using a1(2) assms(2) by simp
  obtain w1 where w1: "write_u8 P ?fc a1 = (Ok (), w1)" "wbuf w1 = patch (wbuf a1) 1 [?fc]" "wpos w1 = 2"
    by (rule write_u8_ok [of a1 1 2]) (use a1 l1 assms(2) in auto)
  have b1: "wbuf w1 = patch ?b 0 [dest, ?fc]"
    using patch_patch_at [of 1 0 "[dest]" "[?fc]" ?b] w1(2) a1(2) assms(2) by simp
  have len: "length (wbuf w1) = length ?b" using b1 assms(2) by simp
  note run = format_rtu_pdu_def Let_def bnd_simps wc_position a1(1) w1(1,3) dest_def [symmetric]
  show ?thesis
  proof (rule that)
    show "wpos w1 = 2" "length (wbuf w1) = length (wbuf w)" by (simp_all add: w1(3) len)
    show "format_rtu_pdu P h fn msg w = (Err e, w')" if "msg w1 = (Err e, w')" for e w'
      using that by (simp add: run)
    show "format_rtu_pdu P h fn msg w = (Panic, w')" if "msg w1 = (Panic, w')" for w'
      using that by (simp add: run)
  next
    fix w' bs
    assume m: "msg w1 = (Ok (), w')" "wbuf w' = patch (wbuf w1) 2 bs" "wpos w' = 2 + length bs"
      "4 + length bs \<le> length ?b"
    let ?pdu = "dest # ?fc # bs"
    have b': "wbuf w' = patch ?b 0 ?pdu"
      using patch_patch_at [of 2 0 "[dest, ?fc]" bs ?b] m(2,4) b1 by simp
    have len': "length (wbuf w') = length ?b" using b' m(4) by simp
    have "take (2 + length bs) (wbuf w') = ?pdu" using take_patch_end [of 0 ?pdu ?b] b' m(4) by simp
    then have get: "wc_get P 0 (2 + length bs) w' = Some ?pdu"
      using wc_get_range [of 0 "2 + length bs" w'] len' m(4) by simp
    obtain w'' where w'': "write_u16_le P (crc_checksum P ?pdu) w' = (Ok (), w'')"
      "wbuf w'' = patch (wbuf w') (2 + length bs) (rtu_crc P ?pdu)" "wpos w'' = 4 + length bs"
      by (rule write_u16_le_ok [of w' "2 + length bs" "4 + length bs"])
        (use m(3,4) len' in \<open>auto simp: rtu_crc_def\<close>)
    have "wbuf w'' = patch ?b 0 (?pdu @ rtu_crc P ?pdu)"
      using patch_patch_at [of "2 + length bs" 0 ?pdu "rtu_crc P ?pdu" ?b] w''(2) b' m(4) by simp
    then show "\<exists>info w''. format_rtu_pdu P h fn msg w = (Ok info, w'') \<and>
        wbuf w'' = patch ?b 0 (rtu_frame_bytes P dest (?fc # bs)) \<and>
        wpos w'' = 4 + length bs \<and> fi_pdu_body info = (2, 2 + length bs)"
      using m(1,3) w''(1,3) get assms(1)
      by (auto simp: run ret_def FrameInfo_new_def rtu_frame_bytes_def simp del: append_Cons)
  next
    fix w' bs
    assume m: "msg w1 = (Ok (), w')" "length (wbuf w') = length ?b" "wpos w' = 2 + length (bs :: u8 list)"
      "2 + length bs \<le> length ?b" "length ?b < 4 + length bs"
    obtain bytes where get: "wc_get P 0 (2 + length bs) w' = Some bytes"
      using wc_get_range [of 0 "2 + length bs" w'] m by simp
    have full: "length (wbuf w') < wpos w' + 2" using m by simp
    obtain e w'' where w'': "write_u16_le P (crc_checksum P bytes) w' = (Err (Internal e), w'')"
      "length (wbuf w'') = length (wbuf w')"
      using write_error_internal [of "wc_write_u16_le P (crc_checksum P bytes)", OF wc_write_u16_le_full [OF full]]
      by blast
    then show "\<exists>e w''. format_rtu_pdu P h fn msg w = (Err (Internal e), w'') \<and>
        length (wbuf w'') = length ?b"
      using m get assms(1) by (simp add: run)
  qed
qed

end

end
