(* ===== verification/FrameIO.thy ===== *)
theory FrameIO
  imports Rtu
begin

text \<open>
  The transport-independent frame layer of \<open>rodbus/src/common/frame.rs\<close>:
  \<open>FrameParser\<close> and \<open>FormatType\<close> dispatch to MBAP or RTU, \<open>FrameWriter\<close>
  owns the transmit buffer, and \<open>FramedReader\<close> loops between the parser and the stream.
  What the reader needs from a parser is the locale \<open>frame_codec\<close>; the MBAP parser and both
  RTU parsers are instances of it.
\<close>

section \<open>Parsers and formatters\<close>

datatype FrameParser = Parser_Rtu RtuParser | Parser_Tcp MbapParser

fun FrameParser_parse ::
    "('r, 'w, 'd, 'io) platform \<Rightarrow> (FrameParser \<times> ReadBuffer, Frame option, RequestError) se" where
  "FrameParser_parse P (Parser_Rtu x, rb) = (case RtuParser_parse P (x, rb) of
      (r, (x', rb')) \<Rightarrow> (r, (Parser_Rtu x', rb')))"
| "FrameParser_parse P (Parser_Tcp x, rb) = (case MbapParser_parse (x, rb) of
      (r, (x', rb')) \<Rightarrow> (r, (Parser_Tcp x', rb')))"

fun FrameParser_reset :: "FrameParser \<Rightarrow> FrameParser" where
  "FrameParser_reset (Parser_Rtu x) = Parser_Rtu (RtuParser_reset x)"
| "FrameParser_reset (Parser_Tcp x) = Parser_Tcp (MbapParser_reset x)"

datatype FormatType = Format_Tcp | Format_Rtu

fun FormatType_format ::
    "('r, 'w, 'd, 'io) platform \<Rightarrow> FormatType \<Rightarrow> FrameHeader \<Rightarrow> FunctionField \<Rightarrow>
     ('w, unit, RequestError) se \<Rightarrow> ('w, FrameInfo, RequestError) se" where
  "FormatType_format P Format_Tcp header function body = format_mbap P header function body"
| "FormatType_format P Format_Rtu header function body = format_rtu_pdu P header function body"

section \<open>The frame writer\<close>

record FrameWriter =
  fw_format_type :: FormatType
  fw_buffer :: "u8 list"

definition FrameWriter_new :: "FormatType \<Rightarrow> FrameWriter" where
  "FrameWriter_new format_type =
     \<lparr>fw_format_type = format_type, fw_buffer = replicate MAX_FRAME_LENGTH 0\<rparr>"

definition FrameWriter_tcp :: FrameWriter where
  "FrameWriter_tcp = FrameWriter_new Format_Tcp"

definition FrameWriter_rtu :: FrameWriter where
  "FrameWriter_rtu = FrameWriter_new Format_Rtu"

text \<open>Indexing a slice with a range panics when the range does not lie inside it.\<close>

definition index_range :: "'a list \<Rightarrow> usize \<times> usize \<Rightarrow> ('a list, 'e) result" where
  "index_range xs r = (case get_range xs (fst r) (snd r) of Some ys \<Rightarrow> Ok ys | None \<Rightarrow> Panic)"

definition FrameWriter_format_generic ::
    "('r, 'w, 'd, 'io) platform \<Rightarrow> FrameHeader \<Rightarrow> FunctionField \<Rightarrow> ('w, unit, RequestError) se \<Rightarrow>
     (FrameWriter, usize \<times> usize, RequestError) se" where
  "FrameWriter_format_generic P header function body fw =
     (let cursor = wc_new P (fw_buffer fw) in
      case FormatType_format P (fw_format_type fw) header function body cursor of
        (Ok info, cursor') \<Rightarrow>
          let fw' = fw\<lparr>fw_buffer := wc_buffer P cursor'\<rparr>; e = wc_position P cursor' in
          (case index_range (fw_buffer fw') (fi_pdu_body info) of
             Ok pdu_body \<Rightarrow> (Ok (0, e), fw')
           | Err err \<Rightarrow> (Err err, fw')
           | Panic \<Rightarrow> (Panic, fw'))
      | (Err err, cursor') \<Rightarrow> (Err err, fw\<lparr>fw_buffer := wc_buffer P cursor'\<rparr>)
      | (Panic, cursor') \<Rightarrow> (Panic, fw\<lparr>fw_buffer := wc_buffer P cursor'\<rparr>))"

definition FrameWriter_slice :: "usize \<times> usize \<Rightarrow> (FrameWriter, u8 list, RequestError) se" where
  "FrameWriter_slice r fw = (index_range (fw_buffer fw) r, fw)"

definition FrameWriter_format_ex ::
    "('r, 'w, 'd, 'io) platform \<Rightarrow> FrameHeader \<Rightarrow> FunctionField \<Rightarrow> ExceptionCode \<Rightarrow>
     (FrameWriter, u8 list, RequestError) se" where
  "FrameWriter_format_ex P header function ex =
     (let function' = (case function of
           Field_Valid x \<Rightarrow> Field_Exception x
         | Field_Exception x \<Rightarrow> Field_Exception x
         | UnknownFunction x \<Rightarrow> UnknownFunction x)
      in bnd (FrameWriter_format_generic P header function' (ExceptionCode_serialize P ex)) FrameWriter_slice)"

definition FrameWriter_format_reply ::
    "('r, 'w, 'd, 'io) platform \<Rightarrow> FrameHeader \<Rightarrow> FunctionCode \<Rightarrow> ('w, unit, RequestError) se \<Rightarrow>
     (FrameWriter, u8 list, RequestError) se" where
  "FrameWriter_format_reply P header function body fw =
     (case FrameWriter_format_generic P header (Field_Valid function) body fw of
        (Ok x, fw') \<Rightarrow> FrameWriter_slice x fw'
      | (Err (Exception ex), fw') \<Rightarrow> FrameWriter_format_ex P header (Field_Exception function) ex fw'
      | (Err err, fw') \<Rightarrow> (Err err, fw')
      | (Panic, fw') \<Rightarrow> (Panic, fw'))"

definition FrameWriter_format_request ::
    "('r, 'w, 'd, 'io) platform \<Rightarrow> FrameHeader \<Rightarrow> FunctionCode \<Rightarrow> ('w, unit, RequestError) se \<Rightarrow>
     (FrameWriter, u8 list, RequestError) se" where
  "FrameWriter_format_request P header function body =
     bnd (FrameWriter_format_generic P header (Field_Valid function) body) FrameWriter_slice"

section \<open>The frame reader\<close>

record FramedReader =
  fdr_parser :: FrameParser
  fdr_buffer :: ReadBuffer

definition FramedReader_new :: "FrameParser \<Rightarrow> FramedReader" where
  "FramedReader_new parser = \<lparr>fdr_parser = parser, fdr_buffer = ReadBuffer_new\<rparr>"

definition FramedReader_tcp :: FramedReader where
  "FramedReader_tcp = FramedReader_new (Parser_Tcp MbapParser_new)"

definition FramedReader_rtu_request :: FramedReader where
  "FramedReader_rtu_request = FramedReader_new (Parser_Rtu RtuParser_new_request_parser)"

definition FramedReader_rtu_response :: FramedReader where
  "FramedReader_rtu_response = FramedReader_new (Parser_Rtu RtuParser_new_response_parser)"

text \<open>
  The loop of \<open>next_frame\<close>. It returns \<open>Pending\<close> with the state reached when the
  stream has nothing to offer; calling it again from that state is resuming the await.
\<close>

partial_function (option) FramedReader_next_frame ::
    "('r, 'w, 'd, 'io) platform \<Rightarrow> FramedReader \<Rightarrow> 'io \<Rightarrow>
     ((Frame, RequestError) result poll \<times> FramedReader \<times> 'io) option" where
  "FramedReader_next_frame P r io =
     (case FrameParser_parse P (fdr_parser r, fdr_buffer r) of
        (Ok (Some frame), (p, rb)) \<Rightarrow> Some (Ready (Ok frame), \<lparr>fdr_parser = p, fdr_buffer = rb\<rparr>, io)
      | (Ok None, (p, rb)) \<Rightarrow>
          (case ReadBuffer_read_some P rb io of
             (Ready (Ok count), rb', io') \<Rightarrow>
               FramedReader_next_frame P \<lparr>fdr_parser = p, fdr_buffer = rb'\<rparr> io'
           | (Ready (Err e), rb', io') \<Rightarrow>
               Some (Ready (Err (RequestError_from_io e)), \<lparr>fdr_parser = p, fdr_buffer = rb'\<rparr>, io')
           | (Ready Panic, rb', io') \<Rightarrow> Some (Ready Panic, \<lparr>fdr_parser = p, fdr_buffer = rb'\<rparr>, io')
           | (Pending, rb', io') \<Rightarrow> Some (Pending, \<lparr>fdr_parser = p, fdr_buffer = rb'\<rparr>, io'))
      | (Err e, (p, rb)) \<Rightarrow>
          Some (Ready (Err e), \<lparr>fdr_parser = FrameParser_reset p, fdr_buffer = rb\<rparr>, io)
      | (Panic, (p, rb)) \<Rightarrow> Some (Ready Panic, \<lparr>fdr_parser = p, fdr_buffer = rb\<rparr>, io))"

section \<open>Reading frames from any segmentation of the stream\<close>

text \<open>
  What the reader relies on: a parser that expects certain bytes waits while some of them are
  missing and returns the frame when all are there, leaving the bytes after it alone.
\<close>

locale frame_codec = byte_stream P incoming sent
  for P :: "('r, 'w, 'd, 'io) platform"
    and incoming :: "'io \<Rightarrow> segment list"
    and sent :: "'io \<Rightarrow> u8 list" +
  fixes expects :: "FrameParser \<Rightarrow> u8 list \<Rightarrow> Frame \<Rightarrow> bool"
    and idle :: "FrameParser \<Rightarrow> bool"
  assumes parse_waits: "rb_wf rb \<Longrightarrow> expects p (rb_view rb @ post) f \<Longrightarrow> post \<noteq> [] \<Longrightarrow>
      \<exists>p' rb'. FrameParser_parse P (p, rb) = (Ok None, (p', rb')) \<and> rb_wf rb' \<and>
        rb_end rb' = rb_end rb \<and> length (rb_view rb') \<le> length (rb_view rb) \<and>
        expects p' (rb_view rb' @ post) f"
    and parse_returns: "rb_wf rb \<Longrightarrow> expects p bs f \<Longrightarrow> rb_view rb = bs @ extra \<Longrightarrow>
      \<exists>p' rb'. FrameParser_parse P (p, rb) = (Ok (Some f), (p', rb')) \<and> rb_wf rb' \<and>
        rb_end rb' = rb_end rb \<and> rb_view rb' = extra \<and> idle p'"
begin

text \<open>
  One frame, cut into segments in any way, is returned whole. The bytes must fit behind the
  unread ones, which holds for every frame read into an empty buffer.
\<close>

lemma next_frame_segments:
  assumes "rb_wf (fdr_buffer r)" and "expects (fdr_parser r) (rb_view (fdr_buffer r) @ concat segs) f"
    and "(if rb_view (fdr_buffer r) = [] then 0 else rb_end (fdr_buffer r)) + length (concat segs)
      \<le> MAX_FRAME_LENGTH"
    and "\<forall>s \<in> set segs. s \<noteq> []" and "incoming io = map Data segs @ rest"
  shows "\<exists>r' io'. FramedReader_next_frame P r io = Some (Ready (Ok f), r', io') \<and>
    idle (fdr_parser r') \<and> rb_wf (fdr_buffer r') \<and> rb_view (fdr_buffer r') = [] \<and>
    incoming io' = rest \<and> sent io' = sent io"
  using assms
proof (induction segs arbitrary: r io)
  case Nil
  obtain p' rb' where "FrameParser_parse P (fdr_parser r, fdr_buffer r) = (Ok (Some f), (p', rb'))"
    "rb_wf rb'" "rb_view rb' = []" "idle p'"
    using parse_returns [OF Nil.prems(1), of "fdr_parser r" "rb_view (fdr_buffer r)" f "[]"] Nil.prems by auto
  then show ?case using Nil.prems by (auto simp: FramedReader_next_frame.simps [of P r io])
next
  case (Cons s segs)
  have s: "s \<noteq> []" using Cons.prems(4) by simp
  have "concat (s # segs) \<noteq> []" using s by simp
  from parse_waits [OF Cons.prems(1,2) this] obtain p' rb' where
    p': "FrameParser_parse P (fdr_parser r, fdr_buffer r) = (Ok None, (p', rb'))" "rb_wf rb'"
      "rb_end rb' = rb_end (fdr_buffer r)" "length (rb_view rb') \<le> length (rb_view (fdr_buffer r))"
      "expects p' (rb_view rb' @ concat (s # segs)) f" by blast
  let ?e = "if rb_view rb' = [] then 0 else rb_end rb'"
  have fits: "?e + length s + length (concat segs) \<le> MAX_FRAME_LENGTH"
    using Cons.prems(3) p'(3,4) by (auto split: if_splits)
  have "0 < length s" using s by simp
  then have less: "?e < MAX_FRAME_LENGTH" using fits by linarith
  have inc: "incoming io = Data s # (map Data segs @ rest)" using Cons.prems(5) by simp
  have cap: "length s \<le> MAX_FRAME_LENGTH - ?e" using fits by linarith
  obtain rb'' io'' where rs: "ReadBuffer_read_some P rb' io = (Ready (Ok (length s)), rb'', io'')"
    "rb_wf rb''" "rb_view rb'' = rb_view rb' @ s" "rb_end rb'' = ?e + length s"
    "incoming io'' = map Data segs @ rest" "sent io'' = sent io"
    using read_some_Data [OF p'(2) inc s less] cap by auto
  let ?r = "\<lparr>fdr_parser = p', fdr_buffer = rb''\<rparr>"
  have "rb_view rb'' \<noteq> []" using rs(3) s by simp
  then obtain r' io' where "FramedReader_next_frame P ?r io'' = Some (Ready (Ok f), r', io')"
    "idle (fdr_parser r')" "rb_wf (fdr_buffer r')" "rb_view (fdr_buffer r') = []"
    "incoming io' = rest" "sent io' = sent io''"
    using Cons.IH [of ?r io''] Cons.prems(4) p'(5) rs fits by auto
  moreover have "FramedReader_next_frame P r io = FramedReader_next_frame P ?r io''"
    by (simp add: FramedReader_next_frame.simps [of P r io] p'(1) rs(1))
  ultimately show ?case using rs(6) by auto
qed

text \<open>
  When the stream runs dry in the middle of a frame the reader waits, and what it has kept is
  enough: it expects exactly the missing bytes.
\<close>

lemma next_frame_waits:
  assumes "rb_wf (fdr_buffer r)"
    and "expects (fdr_parser r) (rb_view (fdr_buffer r) @ concat segs @ post) f" and "post \<noteq> []"
    and "(if rb_view (fdr_buffer r) = [] then 0 else rb_end (fdr_buffer r)) + length (concat segs)
      \<le> MAX_FRAME_LENGTH"
    and "\<forall>s \<in> set segs. s \<noteq> []" and "incoming io = map Data segs"
  shows "\<exists>r' io'. FramedReader_next_frame P r io = Some (Pending, r', io') \<and>
    rb_wf (fdr_buffer r') \<and> expects (fdr_parser r') (rb_view (fdr_buffer r') @ post) f \<and>
    rb_end (fdr_buffer r') \<le> (if rb_view (fdr_buffer r) = [] then 0 else rb_end (fdr_buffer r)) + length (concat segs) \<and>
    incoming io' = [] \<and> sent io' = sent io"
  using assms
proof (induction segs arbitrary: r io)
  case Nil
  obtain p' rb' where p': "FrameParser_parse P (fdr_parser r, fdr_buffer r) = (Ok None, (p', rb'))"
    "rb_wf rb'" "expects p' (rb_view rb' @ post) f" "rb_end rb' = rb_end (fdr_buffer r)"
      "length (rb_view rb') \<le> length (rb_view (fdr_buffer r))"
    using parse_waits [OF Nil.prems(1) _ Nil.prems(3)] Nil.prems(2) by fastforce
  note rw = ReadBuffer_rewind_props [OF p'(2)]
  have no: "\<not> length (rb_buffer (ReadBuffer_rewind rb')) < rb_end (ReadBuffer_rewind rb')"
    using rw(1) by (simp add: rb_wf_def)
  then have "ReadBuffer_read_some P rb' io = (Pending, ReadBuffer_rewind rb', io)"
    using Nil.prems(6) by (simp add: ReadBuffer_read_some_def Let_def io_read_Nil)
  then show ?case
    using Nil.prems(6) p' rw by (auto simp: FramedReader_next_frame.simps [of P r io])
next
  case (Cons s segs)
  have s: "s \<noteq> []" using Cons.prems(5) by simp
  have ne: "concat (s # segs) @ post \<noteq> []" using s by simp
  obtain p' rb' where
    p': "FrameParser_parse P (fdr_parser r, fdr_buffer r) = (Ok None, (p', rb'))" "rb_wf rb'"
      "rb_end rb' = rb_end (fdr_buffer r)" "length (rb_view rb') \<le> length (rb_view (fdr_buffer r))"
      "expects p' (rb_view rb' @ concat (s # segs) @ post) f"
    using parse_waits [OF Cons.prems(1,2) ne] by blast
  let ?e = "if rb_view rb' = [] then 0 else rb_end rb'"
  have fits: "?e + length s + length (concat segs) \<le> MAX_FRAME_LENGTH"
    using Cons.prems(4) p'(3,4) by (auto split: if_splits)
  have "0 < length s" using s by simp
  then have less: "?e < MAX_FRAME_LENGTH" using fits by linarith
  have inc: "incoming io = Data s # map Data segs" using Cons.prems(6) by simp
  have cap: "length s \<le> MAX_FRAME_LENGTH - ?e" using fits by linarith
  obtain rb'' io'' where rs: "ReadBuffer_read_some P rb' io = (Ready (Ok (length s)), rb'', io'')"
    "rb_wf rb''" "rb_view rb'' = rb_view rb' @ s" "rb_end rb'' = ?e + length s"
    "incoming io'' = map Data segs" "sent io'' = sent io"
    using read_some_Data [OF p'(2) inc s less] cap by auto
  let ?r = "\<lparr>fdr_parser = p', fdr_buffer = rb''\<rparr>"
  have "rb_view rb'' \<noteq> []" using rs(3) s by simp
  then have "\<exists>r' io'. FramedReader_next_frame P ?r io'' = Some (Pending, r', io') \<and>
    rb_wf (fdr_buffer r') \<and> expects (fdr_parser r') (rb_view (fdr_buffer r') @ post) f \<and>
    rb_end (fdr_buffer r') \<le> rb_end rb'' + length (concat segs) \<and> incoming io' = [] \<and> sent io' = sent io''"
    using Cons.IH [of ?r io''] Cons.prems(3,5) p'(5) rs fits by auto
  moreover have "FramedReader_next_frame P r io = FramedReader_next_frame P ?r io''"
    by (simp add: FramedReader_next_frame.simps [of P r io] p'(1) rs(1))
  ultimately show ?case using rs(4,6) p'(3,4) by (auto split: if_splits)
qed

end

text \<open>The MBAP parser and the two RTU parsers as instances.\<close>

fun tcp_expects :: "FrameParser \<Rightarrow> u8 list \<Rightarrow> Frame \<Rightarrow> bool" where
  "tcp_expects (Parser_Tcp q) bs f = mbap_expects q bs f"
| "tcp_expects (Parser_Rtu q) bs f = False"

fun tcp_idle :: "FrameParser \<Rightarrow> bool" where
  "tcp_idle (Parser_Tcp q) = (mp_state q = Mbap_Begin)"
| "tcp_idle (Parser_Rtu q) = False"

fun serial_expects :: "('r, 'w, 'd, 'io) platform \<Rightarrow> ParserType \<Rightarrow> FrameParser \<Rightarrow> u8 list \<Rightarrow> Frame \<Rightarrow> bool" where
  "serial_expects P t (Parser_Rtu q) bs f = (rp_parser_type q = t \<and> rtu_expects P q bs f)"
| "serial_expects P t (Parser_Tcp q) bs f = False"

fun serial_idle :: "ParserType \<Rightarrow> FrameParser \<Rightarrow> bool" where
  "serial_idle t (Parser_Rtu q) = (rp_parser_type q = t \<and> rp_state q = Rtu_Start)"
| "serial_idle t (Parser_Tcp q) = False"

lemma RtuParser_parse_type:
  assumes "RtuParser_parse P (p, rb) = (x, (p', rb'))"
  shows "rp_parser_type p' = rp_parser_type p"
proof -
  have full: "rp_parser_type p' = rp_parser_type p" if "RtuParser_parse_full_body P d n (p, rb) = (x, (p', rb'))"
    for d n p rb x p' rb'
    using that by (auto simp: RtuParser_parse_full_body_def split: if_splits prod.splits result.splits)
  have off: "rp_parser_type p' = rp_parser_type p" if "RtuParser_parse_to_offset P d n (p, rb) = (x, (p', rb'))"
    for d n p rb x p' rb'
    using that by (auto simp: RtuParser_parse_to_offset_def Let_def dest: full
        split: if_splits prod.splits result.splits)
  show ?thesis
    using assms by (auto simp: RtuParser_parse_def RtuParser_parse_start_def Let_def dest: full off
        split: if_splits prod.splits result.splits RtuParseState.splits LengthMode.splits)
qed

sublocale platform \<subseteq> mbap: frame_codec P incoming sent tcp_expects tcp_idle
proof (unfold_locales, goal_cases)
  case (1 rb p post f)
  then obtain q where q: "p = Parser_Tcp q" "mbap_expects q (rb_view rb @ post) f" by (cases p) auto
  from MbapParser_parse_wait [OF 1(1) q(2) 1(3)] q(1) show ?case
    by (auto simp del: mbap_expects.simps)
next
  case (2 rb p bs f extra)
  then obtain q where q: "p = Parser_Tcp q" "mbap_expects q bs f" by (cases p) auto
  from MbapParser_parse_done [OF 2(1) q(2) 2(3)] q(1) show ?case by auto
qed

lemma serial_codec_wait:
  assumes "crc_engine P" and "rb_wf rb" and "serial_expects P t p (rb_view rb @ post) f" and "post \<noteq> []"
  shows "\<exists>p' rb'. FrameParser_parse P (p, rb) = (Ok None, (p', rb')) \<and> rb_wf rb' \<and>
    rb_end rb' = rb_end rb \<and> length (rb_view rb') \<le> length (rb_view rb) \<and>
    serial_expects P t p' (rb_view rb' @ post) f"
proof -
  from assms(3) obtain q where q: "p = Parser_Rtu q" "rp_parser_type q = t" "rtu_expects P q (rb_view rb @ post) f"
    by (cases p) (auto simp del: rtu_expects.simps)
  obtain q' rb' where q': "RtuParser_parse P (q, rb) = (Ok None, (q', rb'))" "rb_wf rb'"
    "rb_end rb' = rb_end rb" "length (rb_view rb') \<le> length (rb_view rb)"
    "rtu_expects P q' (rb_view rb' @ post) f"
    using crc_engine.RtuParser_parse_wait [OF assms(1,2) q(3) assms(4)] by (auto simp: rtu_waits_def simp del: rtu_expects.simps)
  show ?thesis
    using q q' RtuParser_parse_type [OF q'(1)]
    by (intro exI [of _ "Parser_Rtu q'"] exI [of _ rb']) (simp del: rtu_expects.simps)
qed

lemma serial_codec_done:
  assumes "crc_engine P" and "rb_wf rb" and "serial_expects P t p bs f" and "rb_view rb = bs @ extra"
  shows "\<exists>p' rb'. FrameParser_parse P (p, rb) = (Ok (Some f), (p', rb')) \<and> rb_wf rb' \<and>
    rb_end rb' = rb_end rb \<and> rb_view rb' = extra \<and> serial_idle t p'"
proof -
  from assms(3) obtain q where q: "p = Parser_Rtu q" "rp_parser_type q = t" "rtu_expects P q bs f"
    by (cases p) (auto simp del: rtu_expects.simps)
  show ?thesis
    using crc_engine.RtuParser_parse_done [OF assms(1,2) q(3) assms(4)] q(1,2)
    by (auto simp: rtu_done_def simp del: rtu_expects.simps)
qed

sublocale platform \<subseteq> rtu: frame_codec P incoming sent "serial_expects P t" "serial_idle t" for t
  by unfold_locales (use serial_codec_wait serial_codec_done crc_engine_axioms in \<open>blast+\<close>)

text \<open>The instances, restated without qualifiers.\<close>

context platform
begin

lemmas next_tcp_frame = mbap.next_frame_segments
lemmas next_tcp_frame_waits = mbap.next_frame_waits
lemmas next_rtu_frame = rtu.next_frame_segments
lemmas next_rtu_frame_waits = rtu.next_frame_waits

end

section \<open>The read loop always comes to an end\<close>

text \<open>
  Whatever the peer sends, \<open>next_frame\<close> stops: with a frame, with an error, or waiting for
  the stream. Each turn either moves the parser forward or adds bytes to a bounded buffer.
\<close>

fun parser_stage :: "FrameParser \<Rightarrow> nat" where
  "parser_stage (Parser_Rtu x) = rtu_stage x"
| "parser_stage (Parser_Tcp x) = mbap_stage x"

lemma FrameParser_progress:
  assumes "rb_wf rb" and "FrameParser_parse P (p, rb) = (x, (p', rb'))"
  shows "rb_wf rb' \<and> (x = Ok None \<longrightarrow> (p', rb') = (p, rb) \<or> parser_stage p' < parser_stage p)"
proof (cases p)
  case (Parser_Rtu q)
  obtain y q' rb1 where "RtuParser_parse P (q, rb) = (y, (q', rb1))" using prod_cases3 by blast
  then show ?thesis using assms Parser_Rtu RtuParser_progress [OF assms(1), of P q y q' rb1] by auto
next
  case (Parser_Tcp q)
  obtain y q' rb1 where "MbapParser_parse (q, rb) = (y, (q', rb1))" using prod_cases3 by blast
  then show ?thesis using assms Parser_Tcp MbapParser_progress [OF assms(1), of q y q' rb1] by auto
qed

context byte_stream
begin

lemma next_frame_returns:
  assumes "rb_wf (fdr_buffer r)"
  shows "\<exists>x r' io'. FramedReader_next_frame P r io = Some (x, r', io') \<and> rb_wf (fdr_buffer r')"
  using assms
proof (induction "parser_stage (fdr_parser r) * 261 + (260 - length (rb_view (fdr_buffer r)))"
    arbitrary: r io rule: less_induct)
  case less
  obtain x p rb where x: "FrameParser_parse P (fdr_parser r, fdr_buffer r) = (x, (p, rb))"
    using prod_cases3 by blast
  note prog = FrameParser_progress [OF less.prems x]
  show ?case
  proof (cases "x = Ok None")
    case True
    obtain y rb1 io1 where y: "ReadBuffer_read_some P rb io = (y, rb1, io1)" using prod_cases3 by blast
    have rs: "rb_wf rb1" "y \<noteq> Ready Panic" and
      grow: "\<And>n. y = Ready (Ok n) \<Longrightarrow> 0 < n \<and> length (rb_view rb1) = length (rb_view rb) + n"
      using read_some_wf [of rb io y rb1 io1] prog y by auto
    show ?thesis
    proof (cases "\<exists>n. y = Ready (Ok n)")
      case more_data: True
      let ?r = "\<lparr>fdr_parser = p, fdr_buffer = rb1\<rparr>"
      have bound: "length (rb_view rb1) \<le> 260"
        using rs(1) length_rb_view [OF rs(1)] by (auto simp: rb_wf_def ReadBuffer_len_def)
      have "parser_stage (fdr_parser ?r) * 261 + (260 - length (rb_view (fdr_buffer ?r))) <
          parser_stage (fdr_parser r) * 261 + (260 - length (rb_view (fdr_buffer r)))"
        using prog True more_data grow bound by auto
      from less.hyps [OF this, of io1] rs(1)
      obtain z r' io' where "FramedReader_next_frame P ?r io1 = Some (z, r', io')" "rb_wf (fdr_buffer r')"
        by auto
      then show ?thesis
        using True more_data x y by (auto simp: FramedReader_next_frame.simps [of P r io])
    next
      case False
      then show ?thesis
        using True x y rs
        by (auto simp: FramedReader_next_frame.simps [of P r io] split: poll.splits result.splits)
    qed
  next
    case False
    then show ?thesis
      using x prog by (auto simp: FramedReader_next_frame.simps [of P r io] split: result.splits option.splits)
  qed
qed

end

section \<open>What the writer puts on the wire\<close>

fun frame_bytes :: "('r, 'w, 'd, 'io) platform \<Rightarrow> FormatType \<Rightarrow> FrameHeader \<Rightarrow> u8 list \<Rightarrow> u8 list" where
  "frame_bytes P Format_Tcp h pdu =
     mbap_frame_bytes (the (fh_tx_id h)) (FrameDestination_into_unit_id (fh_destination h)) pdu"
| "frame_bytes P Format_Rtu h pdu = rtu_frame_bytes P (FrameDestination_value (fh_destination h)) pdu"

text \<open>The bytes a format adds to the body of a PDU: everything but the body.\<close>

fun overhead :: "FormatType \<Rightarrow> nat" where
  "overhead Format_Tcp = 8"
| "overhead Format_Rtu = 4"

definition fw_wf :: "FrameWriter \<Rightarrow> bool" where
  "fw_wf fw \<longleftrightarrow> length (fw_buffer fw) = MAX_FRAME_LENGTH"

definition header_ok :: "FormatType \<Rightarrow> FrameHeader \<Rightarrow> bool" where
  "header_ok t h \<longleftrightarrow> (t = Format_Tcp \<longrightarrow> fh_tx_id h \<noteq> None)"

lemma fw_wf_new [simp]: "fw_wf FrameWriter_tcp" "fw_wf FrameWriter_rtu"
  by (simp_all add: fw_wf_def FrameWriter_tcp_def FrameWriter_rtu_def FrameWriter_new_def)

lemma writer_types [simp]:
  "fw_format_type FrameWriter_tcp = Format_Tcp" "fw_format_type FrameWriter_rtu = Format_Rtu"
  by (simp_all add: FrameWriter_tcp_def FrameWriter_rtu_def FrameWriter_new_def)

lemma length_frame_bytes: "length (frame_bytes P t h (fc # bs)) = overhead t + length bs"
  by (cases t) simp_all

text \<open>
  The common shape of both formatters, started on \<open>w\<close>: the body runs on \<open>w1\<close> at
  position \<open>k\<close>, its failures are passed on, and what it writes is framed if it fits.
\<close>

definition runs_body ::
    "('r, 'w, 'd, 'io) platform \<Rightarrow> ('w \<Rightarrow> u8 list) \<Rightarrow> ('w \<Rightarrow> nat) \<Rightarrow> FormatType \<Rightarrow> FrameHeader \<Rightarrow>
     FunctionField \<Rightarrow> ('w, unit, RequestError) se \<Rightarrow> 'w \<Rightarrow> 'w \<Rightarrow> nat \<Rightarrow> bool" where
  "runs_body P wbuf wpos t h fn msg w w1 k \<longleftrightarrow>
     wpos w1 = k \<and> k \<le> 8 \<and> k \<le> overhead t \<and> length (wbuf w1) = MAX_FRAME_LENGTH \<and>
     (\<forall>e w'. msg w1 = (Err e, w') \<longrightarrow> FormatType_format P t h fn msg w = (Err e, w')) \<and>
     (\<forall>w'. msg w1 = (Panic, w') \<longrightarrow> FormatType_format P t h fn msg w = (Panic, w')) \<and>
     (\<forall>w' bs. msg w1 = (Ok (), w') \<longrightarrow> wbuf w' = patch (wbuf w1) k bs \<longrightarrow>
       wpos w' = k + length bs \<longrightarrow> overhead t + length bs \<le> MAX_FRAME_LENGTH \<longrightarrow>
       (\<exists>info w''. FormatType_format P t h fn msg w = (Ok info, w'') \<and>
         wbuf w'' = patch (wbuf w) 0 (frame_bytes P t h (FunctionField_get_value fn # bs)) \<and>
         wpos w'' = overhead t + length bs \<and> fi_pdu_body info = (k, k + length bs))) \<and>
     (\<forall>w' (bs :: u8 list). msg w1 = (Ok (), w') \<longrightarrow> length (wbuf w') = MAX_FRAME_LENGTH \<longrightarrow>
       wpos w' = k + length bs \<longrightarrow> k + length bs \<le> MAX_FRAME_LENGTH \<longrightarrow>
       MAX_FRAME_LENGTH < overhead t + length bs \<longrightarrow>
       (\<exists>e w''. FormatType_format P t h fn msg w = (Err (Internal e), w'') \<and>
         length (wbuf w'') = MAX_FRAME_LENGTH))"

lemma runs_bodyD:
  assumes "runs_body P wbuf wpos t h fn msg w w1 k"
  shows "wpos w1 = k" and "k \<le> 8" and "k \<le> overhead t" and "length (wbuf w1) = MAX_FRAME_LENGTH"
    and "\<And>e w'. msg w1 = (Err e, w') \<Longrightarrow> FormatType_format P t h fn msg w = (Err e, w')"
    and "\<And>w' bs. msg w1 = (Ok (), w') \<Longrightarrow> wbuf w' = patch (wbuf w1) k bs \<Longrightarrow>
       wpos w' = k + length bs \<Longrightarrow> overhead t + length bs \<le> MAX_FRAME_LENGTH \<Longrightarrow>
       \<exists>info w''. FormatType_format P t h fn msg w = (Ok info, w'') \<and>
         wbuf w'' = patch (wbuf w) 0 (frame_bytes P t h (FunctionField_get_value fn # bs)) \<and>
         wpos w'' = overhead t + length bs \<and> fi_pdu_body info = (k, k + length bs)"
    and "\<And>w' bs. msg w1 = (Ok (), w') \<Longrightarrow> length (wbuf w') = MAX_FRAME_LENGTH \<Longrightarrow>
       wpos w' = k + length (bs :: u8 list) \<Longrightarrow> k + length bs \<le> MAX_FRAME_LENGTH \<Longrightarrow>
       MAX_FRAME_LENGTH < overhead t + length bs \<Longrightarrow>
       \<exists>e w''. FormatType_format P t h fn msg w = (Err (Internal e), w'') \<and>
         length (wbuf w'') = MAX_FRAME_LENGTH"
  using assms unfolding runs_body_def by (simp_all only: simp_thms)

text \<open>\<open>same_writer fw fw'\<close>: the same kind of writer, still with a full-size buffer.\<close>

definition same_writer :: "FrameWriter \<Rightarrow> FrameWriter \<Rightarrow> bool" where
  "same_writer fw fw' \<longleftrightarrow> fw_wf fw' \<and> fw_format_type fw' = fw_format_type fw"

lemma same_writer_trans: "same_writer a b \<Longrightarrow> same_writer b c \<Longrightarrow> same_writer a c"
  by (simp add: same_writer_def)

context platform
begin

lemma format_body:
  assumes "wpos w = 0" and "length (wbuf w) = MAX_FRAME_LENGTH" and "header_ok t h"
  shows "\<exists>w1 k. runs_body P wbuf wpos t h fn msg w w1 k"
proof (cases t)
  case Format_Tcp
  then obtain tx where tx: "fh_tx_id h = Some tx" using assms(3) by (auto simp: header_ok_def)
  have len: "8 \<le> length (wbuf w)" using assms(2) by simp
  show ?thesis
  proof (rule format_mbap_body [OF assms(1) len tx, of msg fn])
    fix w1
    assume "wpos w1 = 8" "length (wbuf w1) = length (wbuf w)"
      and "\<And>e w'. msg w1 = (Err e, w') \<Longrightarrow> format_mbap P h fn msg w = (Err e, w')"
      and "\<And>w'. msg w1 = (Panic, w') \<Longrightarrow> format_mbap P h fn msg w = (Panic, w')"
      and "\<And>w' bs. msg w1 = (Ok (), w') \<Longrightarrow> wbuf w' = patch (wbuf w1) 8 bs \<Longrightarrow>
        wpos w' = 8 + length bs \<Longrightarrow> 8 + length bs \<le> length (wbuf w) \<Longrightarrow>
        \<exists>info w''. format_mbap P h fn msg w = (Ok info, w'') \<and>
          wbuf w'' = patch (wbuf w) 0 (mbap_frame_bytes tx
            (FrameDestination_into_unit_id (fh_destination h)) (FunctionField_get_value fn # bs)) \<and>
          wpos w'' = 8 + length bs \<and> fi_pdu_body info = (8, 8 + length bs)"
    then have "runs_body P wbuf wpos t h fn msg w w1 8"
      using Format_Tcp tx assms(2) by (simp add: runs_body_def)
    then show ?thesis by blast
  qed
next
  case Format_Rtu
  have len: "2 \<le> length (wbuf w)" using assms(2) by simp
  show ?thesis
  proof (rule format_rtu_body [OF assms(1) len, of msg h fn])
    fix w1
    assume "wpos w1 = 2" "length (wbuf w1) = length (wbuf w)"
      and "\<And>e w'. msg w1 = (Err e, w') \<Longrightarrow> format_rtu_pdu P h fn msg w = (Err e, w')"
      and "\<And>w'. msg w1 = (Panic, w') \<Longrightarrow> format_rtu_pdu P h fn msg w = (Panic, w')"
      and "\<And>w' bs. msg w1 = (Ok (), w') \<Longrightarrow> wbuf w' = patch (wbuf w1) 2 bs \<Longrightarrow>
        wpos w' = 2 + length bs \<Longrightarrow> 4 + length bs \<le> length (wbuf w) \<Longrightarrow>
        \<exists>info w''. format_rtu_pdu P h fn msg w = (Ok info, w'') \<and>
          wbuf w'' = patch (wbuf w) 0 (rtu_frame_bytes P (FrameDestination_value (fh_destination h))
            (FunctionField_get_value fn # bs)) \<and>
          wpos w'' = 4 + length bs \<and> fi_pdu_body info = (2, 2 + length bs)"
      and "\<And>w' bs. msg w1 = (Ok (), w') \<Longrightarrow> length (wbuf w') = length (wbuf w) \<Longrightarrow>
        wpos w' = 2 + length (bs :: u8 list) \<Longrightarrow> 2 + length bs \<le> length (wbuf w) \<Longrightarrow>
        length (wbuf w) < 4 + length bs \<Longrightarrow>
        \<exists>e w''. format_rtu_pdu P h fn msg w = (Err (Internal e), w'') \<and> length (wbuf w'') = length (wbuf w)"
    then have "runs_body P wbuf wpos t h fn msg w w1 2"
      using Format_Rtu assms(2) by (simp add: runs_body_def del: add_2_eq_Suc add_2_eq_Suc')
    then show ?thesis by blast
  qed
qed

lemma format_generic_emits:
  assumes "fw_wf fw" and "header_ok (fw_format_type fw) h" and "emits wbuf wpos msg bs"
    and "overhead (fw_format_type fw) + length bs \<le> MAX_FRAME_LENGTH"
  shows "\<exists>n fw'. FrameWriter_format_generic P h fn msg fw = (Ok (0, n), fw') \<and> same_writer fw fw' \<and>
    index_range (fw_buffer fw') (0, n) =
      Ok (frame_bytes P (fw_format_type fw) h (FunctionField_get_value fn # bs))"
proof -
  let ?t = "fw_format_type fw" and ?w = "wc_new P (fw_buffer fw)"
  let ?bytes = "frame_bytes P ?t h (FunctionField_get_value fn # bs)"
  have w: "wpos ?w = 0" "length (wbuf ?w) = MAX_FRAME_LENGTH" "wbuf ?w = fw_buffer fw"
    using assms(1) by (simp_all add: wc_new fw_wf_def)
  obtain w1 k where rb: "runs_body P wbuf wpos ?t h fn msg ?w w1 k"
    using format_body [OF w(1,2) assms(2)] by blast
  note k = runs_bodyD(1,3,4) [OF rb] and ok = runs_bodyD(6) [OF rb]
  have "wpos w1 + length bs \<le> length (wbuf w1)" using k assms(4) by simp
  from emitsD_fits [OF assms(3) this] obtain w' where "msg w1 = (Ok (), w')"
    "wbuf w' = patch (wbuf w1) k bs" "wpos w' = k + length bs" using k by metis
  from ok [OF this assms(4)] obtain info w'' where f: "FormatType_format P ?t h fn msg ?w = (Ok info, w'')"
    "wbuf w'' = patch (fw_buffer fw) 0 ?bytes" "wpos w'' = overhead ?t + length bs"
    "fi_pdu_body info = (k, k + length bs)" using w(3) by auto
  have n: "length ?bytes = overhead ?t + length bs" by (simp add: length_frame_bytes)
  have len: "length (wbuf w'') = MAX_FRAME_LENGTH"
    using f(2) n assms(1,4) by (simp add: fw_wf_def)
  have "take (0 + length ?bytes) (patch (fw_buffer fw) 0 ?bytes) = take 0 (fw_buffer fw) @ ?bytes"
    by (rule take_patch_end) (use n assms(1,4) in \<open>simp add: fw_wf_def\<close>)
  then have "index_range (wbuf w'') (0, overhead ?t + length bs) = Ok ?bytes"
    using n assms(4) len f(2) by (simp add: index_range_def get_range_def)
  moreover obtain body where "get_range (wbuf w'') k (k + length bs) = Some body"
    using len k(2) assms(4) by (simp add: get_range_def)
  then have "FrameWriter_format_generic P h fn msg fw =
      (Ok (0, overhead ?t + length bs), fw\<lparr>fw_buffer := wbuf w''\<rparr>)"
    using f(1,3,4) by (simp add: FrameWriter_format_generic_def Let_def wc_buffer wc_position index_range_def)
  ultimately show ?thesis using len by (simp add: same_writer_def fw_wf_def)
qed

lemma format_generic_full:
  assumes "fw_wf fw" and "header_ok (fw_format_type fw) h" and "emits wbuf wpos msg bs"
    and "MAX_FRAME_LENGTH < overhead (fw_format_type fw) + length bs"
  shows "\<exists>e fw'. FrameWriter_format_generic P h fn msg fw = (Err (Internal e), fw') \<and> same_writer fw fw'"
proof -
  let ?t = "fw_format_type fw" and ?w = "wc_new P (fw_buffer fw)"
  have w: "wpos ?w = 0" "length (wbuf ?w) = MAX_FRAME_LENGTH"
    using assms(1) by (simp_all add: wc_new fw_wf_def)
  obtain w1 k where rb: "runs_body P wbuf wpos ?t h fn msg ?w w1 k"
    using format_body [OF w assms(2)] by blast
  note k = runs_bodyD(1,2,4) [OF rb] and err = runs_bodyD(5) [OF rb] and full = runs_bodyD(7) [OF rb]
  have "\<exists>e w''. FormatType_format P ?t h fn msg ?w = (Err (Internal e), w'') \<and>
      length (wbuf w'') = MAX_FRAME_LENGTH"
  proof (cases "k + length bs \<le> MAX_FRAME_LENGTH")
    case True
    then have "wpos w1 + length bs \<le> length (wbuf w1)" using k by simp
    from emitsD_fits [OF assms(3) this] obtain w' where "msg w1 = (Ok (), w')"
      "wpos w' = k + length bs" "length (wbuf w') = MAX_FRAME_LENGTH" using k by metis
    then show ?thesis using full True assms(4) by blast
  next
    case False
    then have "wpos w1 \<le> length (wbuf w1)" "length (wbuf w1) < wpos w1 + length bs" using k by simp_all
    from emitsD_full [OF assms(3) this] show ?thesis using err k(3) by metis
  qed
  then show ?thesis
    by (auto simp: FrameWriter_format_generic_def Let_def wc_buffer same_writer_def fw_wf_def)
qed

lemma format_generic_raises:
  assumes "fw_wf fw" and "header_ok (fw_format_type fw) h" and "raises wbuf wpos msg k ex"
    and "8 + k \<le> MAX_FRAME_LENGTH"
  shows "\<exists>fw'. FrameWriter_format_generic P h fn msg fw = (Err (Exception ex), fw') \<and> same_writer fw fw'"
proof -
  let ?t = "fw_format_type fw" and ?w = "wc_new P (fw_buffer fw)"
  have w: "wpos ?w = 0" "length (wbuf ?w) = MAX_FRAME_LENGTH"
    using assms(1) by (simp_all add: wc_new fw_wf_def)
  obtain w1 j where rb: "runs_body P wbuf wpos ?t h fn msg ?w w1 j"
    using format_body [OF w assms(2)] by blast
  note j = runs_bodyD(1,2,4) [OF rb] and err = runs_bodyD(5) [OF rb]
  have "wpos w1 + k \<le> length (wbuf w1)" using j assms(4) by simp
  then obtain w' where "msg w1 = (Err (Exception ex), w')" "length (wbuf w') = MAX_FRAME_LENGTH"
    using assms(3) j(3) unfolding raises_def by metis
  with err show ?thesis
    by (auto simp: FrameWriter_format_generic_def Let_def wc_buffer same_writer_def fw_wf_def)
qed

text \<open>The three public entry points.\<close>

lemma format_ex_wire:
  assumes "fw_wf fw" and "header_ok (fw_format_type fw) h"
  shows "\<exists>fw'. FrameWriter_format_ex P h fn ex fw =
    (Ok (frame_bytes P (fw_format_type fw) h
       [FunctionField_get_value (case fn of Field_Valid x \<Rightarrow> Field_Exception x | _ \<Rightarrow> fn),
        ExceptionCode_to_u8 ex]), fw') \<and> same_writer fw fw'"
proof -
  have fits: "overhead (fw_format_type fw) + length [ExceptionCode_to_u8 ex] \<le> MAX_FRAME_LENGTH"
    by (cases "fw_format_type fw") simp_all
  show ?thesis
    using format_generic_emits [OF assms emits_ExceptionCode fits,
        of "case fn of Field_Valid x \<Rightarrow> Field_Exception x | _ \<Rightarrow> fn"]
    by (cases fn) (auto simp: FrameWriter_format_ex_def bnd_def FrameWriter_slice_def same_writer_def)
qed

lemma format_request_wire:
  assumes "fw_wf fw" and "header_ok (fw_format_type fw) h" and "emits wbuf wpos msg bs"
    and "overhead (fw_format_type fw) + length bs \<le> MAX_FRAME_LENGTH"
  shows "\<exists>fw'. FrameWriter_format_request P h f msg fw =
    (Ok (frame_bytes P (fw_format_type fw) h (FunctionCode_get_value f # bs)), fw') \<and> same_writer fw fw'"
  using format_generic_emits [OF assms, of "Field_Valid f"]
  by (auto simp: FrameWriter_format_request_def bnd_def FrameWriter_slice_def)

lemma format_request_full:
  assumes "fw_wf fw" and "header_ok (fw_format_type fw) h" and "emits wbuf wpos msg bs"
    and "MAX_FRAME_LENGTH < overhead (fw_format_type fw) + length bs"
  shows "\<exists>e fw'. FrameWriter_format_request P h f msg fw = (Err (Internal e), fw') \<and> same_writer fw fw'"
  using format_generic_full [OF assms, of "Field_Valid f"]
  by (auto simp: FrameWriter_format_request_def bnd_def)

lemma format_reply_wire:
  assumes "fw_wf fw" and "header_ok (fw_format_type fw) h" and "emits wbuf wpos msg bs"
    and "overhead (fw_format_type fw) + length bs \<le> MAX_FRAME_LENGTH"
  shows "\<exists>fw'. FrameWriter_format_reply P h f msg fw =
    (Ok (frame_bytes P (fw_format_type fw) h (FunctionCode_get_value f # bs)), fw') \<and> same_writer fw fw'"
  using format_generic_emits [OF assms, of "Field_Valid f"]
  by (auto simp: FrameWriter_format_reply_def FrameWriter_slice_def)

lemma format_reply_exception:
  assumes "fw_wf fw" and "header_ok (fw_format_type fw) h" and "raises wbuf wpos msg k ex"
    and "8 + k \<le> MAX_FRAME_LENGTH"
  shows "\<exists>fw'. FrameWriter_format_reply P h f msg fw =
    (Ok (frame_bytes P (fw_format_type fw) h [FunctionCode_as_error f, ExceptionCode_to_u8 ex]), fw') \<and>
    same_writer fw fw'"
proof -
  obtain fw1 where fw1: "FrameWriter_format_generic P h (Field_Valid f) msg fw = (Err (Exception ex), fw1)"
    "same_writer fw fw1"
    using format_generic_raises [OF assms] by blast
  then have "fw_wf fw1" "header_ok (fw_format_type fw1) h" using assms(2) by (simp_all add: same_writer_def)
  from format_ex_wire [OF this, of "Field_Exception f" ex] fw1 show ?thesis
    by (auto simp: FrameWriter_format_reply_def FunctionCode_as_error_def same_writer_def)
qed

end

end
