(* ===== verification/Collections.thy ===== *)
theory Collections
  imports Prelude
begin

text \<open>
  The standard library's \<open>BTreeMap\<close>, as far as the servers use it: an association list
  with strictly ascending keys. The interface the components rely on is the locale
  \<open>ordered_map\<close>.
\<close>

section \<open>Operations\<close>

type_synonym ('k, 'v) btree_map = "('k \<times> 'v) list"

fun bt_insert :: "'k :: linorder \<Rightarrow> 'v \<Rightarrow> ('k, 'v) btree_map \<Rightarrow> 'v option \<times> ('k, 'v) btree_map" where
  "bt_insert k v [] = (None, [(k, v)])"
| "bt_insert k v ((k', v') # m) =
     (if k < k' then (None, (k, v) # (k', v') # m)
      else if k = k' then (Some v', (k, v) # m)
      else let (old, m') = bt_insert k v m in (old, (k', v') # m'))"

definition bt_get :: "'k \<Rightarrow> ('k, 'v) btree_map \<Rightarrow> 'v option" where
  "bt_get k m = map_of m k"

definition bt_remove :: "'k \<Rightarrow> ('k, 'v) btree_map \<Rightarrow> 'v option \<times> ('k, 'v) btree_map" where
  "bt_remove k m = (map_of m k, filter (\<lambda>(k', v). k' \<noteq> k) m)"

definition bt_keys :: "('k, 'v) btree_map \<Rightarrow> 'k list" where
  "bt_keys m = map fst m"

definition bt_values :: "('k, 'v) btree_map \<Rightarrow> 'v list" where
  "bt_values m = map snd m"

definition bt_wf :: "('k :: linorder, 'v) btree_map \<Rightarrow> bool" where
  "bt_wf m \<longleftrightarrow> sorted_wrt (<) (bt_keys m)"

section \<open>The interface\<close>

locale ordered_map =
  fixes invar :: "'m \<Rightarrow> bool"
    and empty :: 'm
    and lookup :: "'k :: linorder \<Rightarrow> 'm \<Rightarrow> 'v option"
    and insert :: "'k \<Rightarrow> 'v \<Rightarrow> 'm \<Rightarrow> 'v option \<times> 'm"
    and remove :: "'k \<Rightarrow> 'm \<Rightarrow> 'v option \<times> 'm"
    and entries :: "'m \<Rightarrow> ('k \<times> 'v) list"
  assumes invar_empty: "invar empty" and entries_empty: "entries empty = []"
    and invar_insert: "invar m \<Longrightarrow> invar (snd (insert k v m))"
    and fst_insert: "invar m \<Longrightarrow> fst (insert k v m) = lookup k m"
    and lookup_insert: "invar m \<Longrightarrow>
      lookup k' (snd (insert k v m)) = (if k' = k then Some v else lookup k' m)"
    and invar_remove: "invar m \<Longrightarrow> invar (snd (remove k m))"
    and fst_remove: "invar m \<Longrightarrow> fst (remove k m) = lookup k m"
    and lookup_remove: "invar m \<Longrightarrow>
      lookup k' (snd (remove k m)) = (if k' = k then None else lookup k' m)"
    and sorted_entries: "invar m \<Longrightarrow> sorted_wrt (<) (map fst (entries m))"
    and lookup_entries: "invar m \<Longrightarrow> lookup k m = Some v \<longleftrightarrow> (k, v) \<in> set (entries m)"
begin

lemma lookup_empty: "lookup k empty = None"
  using lookup_entries [OF invar_empty] by (cases "lookup k empty") (auto simp: entries_empty)

lemma distinct_keys: "invar m \<Longrightarrow> distinct (map fst (entries m))"
  using sorted_entries strict_sorted_iff by blast

lemma keys_lookup: "invar m \<Longrightarrow> k \<in> set (map fst (entries m)) \<longleftrightarrow> lookup k m \<noteq> None"
proof -
  assume m: "invar m"
  have "k \<in> set (map fst (entries m)) \<longleftrightarrow> (\<exists>v. (k, v) \<in> set (entries m))" by force
  also have "\<dots> \<longleftrightarrow> lookup k m \<noteq> None" by (simp add: lookup_entries [OF m, symmetric])
  finally show ?thesis .
qed

lemma keys_insert:
  assumes "invar m"
  shows "set (map fst (entries (snd (insert k v m)))) = Set.insert k (set (map fst (entries m)))"
proof (rule set_eqI)
  fix j
  show "j \<in> set (map fst (entries (snd (insert k v m)))) \<longleftrightarrow> j \<in> Set.insert k (set (map fst (entries m)))"
    unfolding insert_iff keys_lookup [OF assms] keys_lookup [OF invar_insert [OF assms]] lookup_insert [OF assms]
    by simp
qed

lemma keys_remove:
  assumes "invar m"
  shows "set (map fst (entries (snd (remove k m)))) = set (map fst (entries m)) - {k}"
proof (rule set_eqI)
  fix j
  show "j \<in> set (map fst (entries (snd (remove k m)))) \<longleftrightarrow> j \<in> set (map fst (entries m)) - {k}"
    unfolding Diff_iff keys_lookup [OF assms] keys_lookup [OF invar_remove [OF assms]] lookup_remove [OF assms]
    by simp
qed

lemma length_entries: "invar m \<Longrightarrow> length (entries m) = card (set (map fst (entries m)))"
  using distinct_card [OF distinct_keys] by fastforce

lemma length_insert:
  assumes "invar m"
  shows "length (entries (snd (insert k v m))) =
    (if lookup k m = None then Suc (length (entries m)) else length (entries m))"
proof -
  have "length (entries (snd (insert k v m))) = card (Set.insert k (set (map fst (entries m))))"
    using length_entries [OF invar_insert [OF assms]] keys_insert [OF assms] by metis
  then show ?thesis
    using length_entries [OF assms] keys_lookup [OF assms, of k] by (auto simp: insert_absorb)
qed

lemma length_remove:
  assumes "invar m"
  shows "length (entries (snd (remove k m))) =
    (if lookup k m = None then length (entries m) else length (entries m) - 1)"
proof -
  have "length (entries (snd (remove k m))) = card (set (map fst (entries m)) - {k})"
    using length_entries [OF invar_remove [OF assms]] keys_remove [OF assms] by metis
  then show ?thesis
    using length_entries [OF assms] keys_lookup [OF assms, of k] by (auto simp: card_Diff_singleton)
qed

end

section \<open>The association list implements it\<close>

lemma bt_insert_keys: "set (map fst (snd (bt_insert k v m))) = insert k (set (map fst m))"
proof (induction k v m rule: bt_insert.induct)
  case (2 k v k' v' m)
  obtain old m' where m': "bt_insert k v m = (old, m')" by fastforce
  show ?case
  proof (cases "k \<le> k'")
    case False
    then have "set (map fst m') = insert k (set (map fst m))" using 2 m' by auto
    then show ?thesis using False m' by (simp add: insert_commute)
  qed auto
qed simp

lemma bt_insert_wf: "bt_wf m \<Longrightarrow> bt_wf (snd (bt_insert k v m))"
proof (induction k v m rule: bt_insert.induct)
  case (2 k v k' v' m)
  obtain old m' where m': "bt_insert k v m = (old, m')" by fastforce
  have keys: "set (map fst m') = insert k (set (map fst m))"
    using bt_insert_keys [of k v m] m' by simp
  have above: "\<forall>x \<in> set (map fst m). k' < x" and wf: "bt_wf m"
    using 2(2) by (simp_all add: bt_wf_def bt_keys_def)
  consider "k < k'" | "k = k'" | "k' < k" by (rule linorder_less_linear [THEN disjE]) auto
  then show ?case
  proof cases
    case 1
    then have "\<forall>x \<in> set (map fst m). k < x" using above by (meson less_trans)
    then show ?thesis using 1 above wf by (simp add: bt_wf_def bt_keys_def)
  next
    case 3
    then have "bt_wf m'" using 2(1) wf m' by simp
    moreover have "\<forall>x \<in> set (map fst m'). k' < x" using keys above 3 by simp
    moreover have "k \<noteq> k'" "\<not> k < k'" using 3 by auto
    ultimately show ?thesis using m' by (simp add: bt_wf_def bt_keys_def)
  qed (use above wf in \<open>simp add: bt_wf_def bt_keys_def\<close>)
qed (simp add: bt_wf_def bt_keys_def)

lemma bt_insert_old: "bt_wf m \<Longrightarrow> fst (bt_insert k v m) = map_of m k"
proof (induction k v m rule: bt_insert.induct)
  case (2 k v k' v' m)
  have "map_of m k = None" if "k \<le> k'"
    using 2(2) that by (force simp: bt_wf_def bt_keys_def map_of_eq_None_iff)
  then show ?case using 2 by (auto simp: bt_wf_def bt_keys_def Let_def split: prod.splits)
qed simp

lemma bt_insert_lookup:
  "bt_wf m \<Longrightarrow> map_of (snd (bt_insert k v m)) k' = (if k' = k then Some v else map_of m k')"
  by (induction k v m rule: bt_insert.induct) (auto simp: bt_wf_def bt_keys_def Let_def split: prod.splits)

lemma bt_remove_keys: "map fst (filter (\<lambda>(k', v). k' \<noteq> k) m) = filter (\<lambda>k'. k' \<noteq> k) (map fst m)"
  by (induction m) auto

lemma bt_remove_lookup:
  "map_of (filter (\<lambda>(k', v). k' \<noteq> k) m) k' = (if k' = k then None else map_of m k')"
  by (induction m) auto

interpretation bt: ordered_map bt_wf "[]" bt_get bt_insert bt_remove "\<lambda>m. m"
proof (unfold_locales, goal_cases)
  case (3 m k v)
  then show ?case by (rule bt_insert_wf)
next
  case (10 m k v)
  then have "distinct (map fst m)"
    unfolding bt_wf_def bt_keys_def using strict_sorted_iff by blast
  then show ?case by (simp add: bt_get_def)
qed (auto simp: bt_get_def bt_remove_def bt_insert_wf bt_insert_old bt_insert_lookup bt_remove_lookup
    bt_wf_def bt_keys_def bt_remove_keys sorted_wrt_filter)

end
