(* ===== verification/Handler.thy ===== *)
theory Handler
  imports FrameIO Collections
begin

text \<open>
  What the user supplies to a server, \<open>rodbus/src/server/handler.rs\<close> and
  \<open>rodbus/src/server/types.rs\<close>: request handlers, the map from unit ids to handlers, and
  authorization handlers. A trait is a record of functions; a handler's own state is a type
  parameter. Handlers are shared between sessions through \<open>Arc<Mutex<..>>\<close>, so the map
  holds references into a store of mutexes.
\<close>

section \<open>Write requests as the handler sees them\<close>

record WriteCoils =
  wcs_range :: AddressRange
  wcs_iterator :: BitIterator

record WriteRegisters =
  wrs_range :: AddressRange
  wrs_iterator :: RegisterIterator

definition WriteCoils_new :: "AddressRange \<Rightarrow> BitIterator \<Rightarrow> WriteCoils" where
  "WriteCoils_new rng iterator = \<lparr>wcs_range = rng, wcs_iterator = iterator\<rparr>"

definition WriteRegisters_new :: "AddressRange \<Rightarrow> RegisterIterator \<Rightarrow> WriteRegisters" where
  "WriteRegisters_new rng iterator = \<lparr>wrs_range = rng, wrs_iterator = iterator\<rparr>"

section \<open>Request handlers\<close>

record 'h RequestHandler =
  rh_read_coil :: "'h \<Rightarrow> u16 \<Rightarrow> (bool, ExceptionCode) result"
  rh_read_discrete_input :: "'h \<Rightarrow> u16 \<Rightarrow> (bool, ExceptionCode) result"
  rh_read_holding_register :: "'h \<Rightarrow> u16 \<Rightarrow> (u16, ExceptionCode) result"
  rh_read_input_register :: "'h \<Rightarrow> u16 \<Rightarrow> (u16, ExceptionCode) result"
  rh_write_single_coil :: "bool Indexed \<Rightarrow> ('h, unit, ExceptionCode) se"
  rh_write_single_register :: "u16 Indexed \<Rightarrow> ('h, unit, ExceptionCode) se"
  rh_write_multiple_coils :: "WriteCoils \<Rightarrow> ('h, unit, ExceptionCode) se"
  rh_write_multiple_registers :: "WriteRegisters \<Rightarrow> ('h, unit, ExceptionCode) se"

text \<open>The trait's default methods.\<close>

definition RequestHandler_default :: "'h RequestHandler" where
  "RequestHandler_default = \<lparr>
     rh_read_coil = (\<lambda>h address. Err IllegalFunction),
     rh_read_discrete_input = (\<lambda>h address. Err IllegalFunction),
     rh_read_holding_register = (\<lambda>h address. Err IllegalFunction),
     rh_read_input_register = (\<lambda>h address. Err IllegalFunction),
     rh_write_single_coil = (\<lambda>value. fail IllegalFunction),
     rh_write_single_register = (\<lambda>value. fail IllegalFunction),
     rh_write_multiple_coils = (\<lambda>values. fail IllegalFunction),
     rh_write_multiple_registers = (\<lambda>values. fail IllegalFunction) \<rparr>"

definition to_result :: "'a option \<Rightarrow> ('a, ExceptionCode) result" where
  "to_result x = (case x of None \<Rightarrow> Err IllegalDataAddress | Some v \<Rightarrow> Ok v)"

section \<open>Shared handlers\<close>

text \<open>
  A standard-library mutex is poisoned when a thread panics while it holds the lock; locking a
  poisoned mutex gives an error, which \<open>lock().unwrap()\<close> turns into a panic.
\<close>

record 'h Mutex =
  mx_value :: 'h
  mx_poisoned :: bool

type_synonym handler_ref = nat
type_synonym 'h handler_store = "handler_ref \<Rightarrow> 'h Mutex"

definition RequestHandler_wrap :: "'h \<Rightarrow> 'h Mutex" where
  "RequestHandler_wrap h = \<lparr>mx_value = h, mx_poisoned = False\<rparr>"

definition with_lock ::
    "handler_ref \<Rightarrow> ('s \<times> 'h, 'a, 'e) se \<Rightarrow> ('s \<times> 'h handler_store, 'a, 'e) se" where
  "with_lock r m x = (case x of (s, st) \<Rightarrow>
     if mx_poisoned (st r) then (Panic, (s, st))
     else case m (s, mx_value (st r)) of (res, (s', h')) \<Rightarrow>
       (res, (s', st(r := \<lparr>mx_value = h', mx_poisoned = (res = Panic)\<rparr>))))"

record ServerHandlerMap =
  shm_handlers :: "(UnitId, handler_ref) btree_map"

definition ServerHandlerMap_new :: ServerHandlerMap where
  "ServerHandlerMap_new = \<lparr>shm_handlers = []\<rparr>"

definition ServerHandlerMap_single :: "UnitId \<Rightarrow> handler_ref \<Rightarrow> ServerHandlerMap" where
  "ServerHandlerMap_single i handler = \<lparr>shm_handlers = snd (bt_insert i handler [])\<rparr>"

definition ServerHandlerMap_get :: "UnitId \<Rightarrow> ServerHandlerMap \<Rightarrow> handler_ref option" where
  "ServerHandlerMap_get i m = bt_get i (shm_handlers m)"

definition ServerHandlerMap_add ::
    "UnitId \<Rightarrow> handler_ref \<Rightarrow> ServerHandlerMap \<Rightarrow> handler_ref option \<times> ServerHandlerMap" where
  "ServerHandlerMap_add i server m =
     (case bt_insert i server (shm_handlers m) of (old, hs) \<Rightarrow> (old, m\<lparr>shm_handlers := hs\<rparr>))"

definition ServerHandlerMap_iter_mut :: "ServerHandlerMap \<Rightarrow> handler_ref list" where
  "ServerHandlerMap_iter_mut m = bt_values (shm_handlers m)"

lemma ServerHandlerMap_get_add:
  assumes "bt_wf (shm_handlers m)"
  shows "ServerHandlerMap_get j (snd (ServerHandlerMap_add i r m)) =
    (if j = i then Some r else ServerHandlerMap_get j m)"
    and "fst (ServerHandlerMap_add i r m) = ServerHandlerMap_get i m"
    and "bt_wf (shm_handlers (snd (ServerHandlerMap_add i r m)))"
  using bt.lookup_insert [OF assms, of j i r] bt.fst_insert [OF assms, of i r] bt.invar_insert [OF assms, of i r]
  by (simp_all add: ServerHandlerMap_get_def ServerHandlerMap_add_def case_prod_beta)

section \<open>Authorization\<close>

datatype Authorization = Allow | Deny

record AuthorizationHandler =
  ah_read_coils :: "UnitId \<Rightarrow> AddressRange \<Rightarrow> string \<Rightarrow> Authorization"
  ah_read_discrete_inputs :: "UnitId \<Rightarrow> AddressRange \<Rightarrow> string \<Rightarrow> Authorization"
  ah_read_holding_registers :: "UnitId \<Rightarrow> AddressRange \<Rightarrow> string \<Rightarrow> Authorization"
  ah_read_input_registers :: "UnitId \<Rightarrow> AddressRange \<Rightarrow> string \<Rightarrow> Authorization"
  ah_write_single_coil :: "UnitId \<Rightarrow> u16 \<Rightarrow> string \<Rightarrow> Authorization"
  ah_write_single_register :: "UnitId \<Rightarrow> u16 \<Rightarrow> string \<Rightarrow> Authorization"
  ah_write_multiple_coils :: "UnitId \<Rightarrow> AddressRange \<Rightarrow> string \<Rightarrow> Authorization"
  ah_write_multiple_registers :: "UnitId \<Rightarrow> AddressRange \<Rightarrow> string \<Rightarrow> Authorization"

definition AuthorizationHandler_default :: AuthorizationHandler where
  "AuthorizationHandler_default = \<lparr>
     ah_read_coils = (\<lambda>unit_id rng role. Deny),
     ah_read_discrete_inputs = (\<lambda>unit_id rng role. Deny),
     ah_read_holding_registers = (\<lambda>unit_id rng role. Deny),
     ah_read_input_registers = (\<lambda>unit_id rng role. Deny),
     ah_write_single_coil = (\<lambda>unit_id idx role. Deny),
     ah_write_single_register = (\<lambda>unit_id idx role. Deny),
     ah_write_multiple_coils = (\<lambda>unit_id rng role. Deny),
     ah_write_multiple_registers = (\<lambda>unit_id rng role. Deny) \<rparr>"

definition ReadOnlyAuthorizationHandler :: AuthorizationHandler where
  "ReadOnlyAuthorizationHandler = \<lparr>
     ah_read_coils = (\<lambda>unit_id rng role. Allow),
     ah_read_discrete_inputs = (\<lambda>unit_id rng role. Allow),
     ah_read_holding_registers = (\<lambda>unit_id rng role. Allow),
     ah_read_input_registers = (\<lambda>unit_id rng role. Allow),
     ah_write_single_coil = (\<lambda>unit_id idx role. Deny),
     ah_write_single_register = (\<lambda>unit_id idx role. Deny),
     ah_write_multiple_coils = (\<lambda>unit_id rng role. Deny),
     ah_write_multiple_registers = (\<lambda>unit_id rng role. Deny) \<rparr>"

end
