(* ===== verification/ServerRequest.thy ===== *)
theory ServerRequest
  imports Handler
begin

text \<open>
  Requests as the server sees them, \<open>rodbus/src/server/request.rs\<close>: parsing, execution
  against a handler, and the reply. Parsing is characterised by a function on the bytes of the
  PDU body, and replies by the bytes they put on the wire.
\<close>

section \<open>Requests\<close>

datatype Request =
    Req_ReadCoils ReadBitsRange
  | Req_ReadDiscreteInputs ReadBitsRange
  | Req_ReadHoldingRegisters ReadRegistersRange
  | Req_ReadInputRegisters ReadRegistersRange
  | Req_WriteSingleCoil "bool Indexed"
  | Req_WriteSingleRegister "u16 Indexed"
  | Req_WriteMultipleCoils WriteCoils
  | Req_WriteMultipleRegisters WriteRegisters

datatype BroadcastRequest =
    Bc_WriteSingleCoil "bool Indexed"
  | Bc_WriteSingleRegister "u16 Indexed"
  | Bc_WriteMultipleCoils WriteCoils
  | Bc_WriteMultipleRegisters WriteRegisters

text \<open>\<open>let _ = ..\<close> discards an exception; a panic of the handler is not discarded.\<close>

definition discard :: "('s, unit, 'e) se \<Rightarrow> ('s, unit, 'f) se" where
  "discard m s = (case m s of (Ok _, s') \<Rightarrow> (Ok (), s') | (Err _, s') \<Rightarrow> (Ok (), s') | (Panic, s') \<Rightarrow> (Panic, s'))"

fun BroadcastRequest_execute ::
    "'h RequestHandler \<Rightarrow> BroadcastRequest \<Rightarrow> ('h, unit, RequestError) se" where
  "BroadcastRequest_execute H (Bc_WriteSingleCoil x) = discard (rh_write_single_coil H x)"
| "BroadcastRequest_execute H (Bc_WriteSingleRegister x) = discard (rh_write_single_register H x)"
| "BroadcastRequest_execute H (Bc_WriteMultipleCoils x) = discard (rh_write_multiple_coils H x)"
| "BroadcastRequest_execute H (Bc_WriteMultipleRegisters x) = discard (rh_write_multiple_registers H x)"

fun Request_get_function :: "Request \<Rightarrow> FunctionCode" where
  "Request_get_function (Req_ReadCoils _) = ReadCoils"
| "Request_get_function (Req_ReadDiscreteInputs _) = ReadDiscreteInputs"
| "Request_get_function (Req_ReadHoldingRegisters _) = ReadHoldingRegisters"
| "Request_get_function (Req_ReadInputRegisters _) = ReadInputRegisters"
| "Request_get_function (Req_WriteSingleCoil _) = WriteSingleCoil"
| "Request_get_function (Req_WriteSingleRegister _) = WriteSingleRegister"
| "Request_get_function (Req_WriteMultipleCoils _) = WriteMultipleCoils"
| "Request_get_function (Req_WriteMultipleRegisters _) = WriteMultipleRegisters"

fun Request_into_broadcast_request :: "Request \<Rightarrow> BroadcastRequest option" where
  "Request_into_broadcast_request (Req_ReadCoils _) = None"
| "Request_into_broadcast_request (Req_ReadDiscreteInputs _) = None"
| "Request_into_broadcast_request (Req_ReadHoldingRegisters _) = None"
| "Request_into_broadcast_request (Req_ReadInputRegisters _) = None"
| "Request_into_broadcast_request (Req_WriteSingleCoil x) = Some (Bc_WriteSingleCoil x)"
| "Request_into_broadcast_request (Req_WriteSingleRegister x) = Some (Bc_WriteSingleRegister x)"
| "Request_into_broadcast_request (Req_WriteMultipleCoils x) = Some (Bc_WriteMultipleCoils x)"
| "Request_into_broadcast_request (Req_WriteMultipleRegisters x) = Some (Bc_WriteMultipleRegisters x)"

section \<open>Replies\<close>

definition BitWriter_new :: "ReadBitsRange \<Rightarrow> (u16 \<Rightarrow> (bool, ExceptionCode) result) \<Rightarrow> BitWriter" where
  "BitWriter_new rng getter = \<lparr>bw_range = rng, bw_getter = getter\<rparr>"

definition RegisterWriter_new ::
    "ReadRegistersRange \<Rightarrow> (u16 \<Rightarrow> (u16, ExceptionCode) result) \<Rightarrow> RegisterWriter" where
  "RegisterWriter_new rng getter = \<lparr>rw_range = rng, rw_getter = getter\<rparr>"

text \<open>The state of \<open>get_reply\<close> is the writer and the locked handler.\<close>

definition on_writer :: "(FrameWriter, 'a, 'e) se \<Rightarrow> (FrameWriter \<times> 'h, 'a, 'e) se" where
  "on_writer m x = (case x of (fw, h) \<Rightarrow> case m fw of (r, fw') \<Rightarrow> (r, (fw', h)))"

definition write_result ::
    "('r, 'w, 'd, 'io) platform \<Rightarrow> FunctionCode \<Rightarrow> FrameHeader \<Rightarrow>
     ('w, unit, RequestError) se \<Rightarrow> ('h, unit, ExceptionCode) se \<Rightarrow>
     (FrameWriter \<times> 'h, u8 list, RequestError) se" where
  "write_result P function header response operation x = (case x of (fw, h) \<Rightarrow>
     case operation h of
       (Ok _, h') \<Rightarrow> on_writer (FrameWriter_format_reply P header function response) (fw, h')
     | (Err ex, h') \<Rightarrow> on_writer (FrameWriter_format_ex P header (Field_Exception function) ex) (fw, h')
     | (Panic, h') \<Rightarrow> (Panic, (fw, h')))"

fun Request_get_reply ::
    "('r, 'w, 'd, 'io) platform \<Rightarrow> 'h RequestHandler \<Rightarrow> Request \<Rightarrow> FrameHeader \<Rightarrow>
     (FrameWriter \<times> 'h, u8 list, RequestError) se" where
  "Request_get_reply P H (Req_ReadCoils rng) header x =
     on_writer (FrameWriter_format_reply P header ReadCoils
       (BitWriter_serialize P (BitWriter_new rng (rh_read_coil H (snd x))))) x"
| "Request_get_reply P H (Req_ReadDiscreteInputs rng) header x =
     on_writer (FrameWriter_format_reply P header ReadDiscreteInputs
       (BitWriter_serialize P (BitWriter_new rng (rh_read_discrete_input H (snd x))))) x"
| "Request_get_reply P H (Req_ReadHoldingRegisters rng) header x =
     on_writer (FrameWriter_format_reply P header ReadHoldingRegisters
       (RegisterWriter_serialize P (RegisterWriter_new rng (rh_read_holding_register H (snd x))))) x"
| "Request_get_reply P H (Req_ReadInputRegisters rng) header x =
     on_writer (FrameWriter_format_reply P header ReadInputRegisters
       (RegisterWriter_serialize P (RegisterWriter_new rng (rh_read_input_register H (snd x))))) x"
| "Request_get_reply P H (Req_WriteSingleCoil request) header x =
     write_result P WriteSingleCoil header (IndexedBool_serialize P request)
       (rh_write_single_coil H request) x"
| "Request_get_reply P H (Req_WriteSingleRegister request) header x =
     write_result P WriteSingleRegister header (IndexedU16_serialize P request)
       (rh_write_single_register H request) x"
| "Request_get_reply P H (Req_WriteMultipleCoils items) header x =
     write_result P WriteMultipleCoils header (AddressRange_serialize P (wcs_range items))
       (rh_write_multiple_coils H items) x"
| "Request_get_reply P H (Req_WriteMultipleRegisters items) header x =
     write_result P WriteMultipleRegisters header (AddressRange_serialize P (wrs_range items))
       (rh_write_multiple_registers H items) x"

section \<open>Parsing\<close>

definition parse_read_bits :: "('r, 'w, 'd, 'io) platform \<Rightarrow> ('r, ReadBitsRange, RequestError) se" where
  "parse_read_bits P = bnd (AddressRange_parse P)
     (\<lambda>rng. lift_result (map_err RequestError_from_InvalidRange (AddressRange_of_read_bits rng)))"

definition parse_read_registers :: "('r, 'w, 'd, 'io) platform \<Rightarrow> ('r, ReadRegistersRange, RequestError) se" where
  "parse_read_registers P = bnd (AddressRange_parse P)
     (\<lambda>rng. lift_result (map_err RequestError_from_InvalidRange (AddressRange_of_read_registers rng)))"

fun Request_parse ::
    "('r, 'w, 'd, 'io) platform \<Rightarrow> FunctionCode \<Rightarrow> ('r, Request, RequestError) se" where
  "Request_parse P ReadCoils =
     bnd (parse_read_bits P) (\<lambda>r. bnd (expect_empty P) (\<lambda>_. ret (Req_ReadCoils r)))"
| "Request_parse P ReadDiscreteInputs =
     bnd (parse_read_bits P) (\<lambda>r. bnd (expect_empty P) (\<lambda>_. ret (Req_ReadDiscreteInputs r)))"
| "Request_parse P ReadHoldingRegisters =
     bnd (parse_read_registers P) (\<lambda>r. bnd (expect_empty P) (\<lambda>_. ret (Req_ReadHoldingRegisters r)))"
| "Request_parse P ReadInputRegisters =
     bnd (parse_read_registers P) (\<lambda>r. bnd (expect_empty P) (\<lambda>_. ret (Req_ReadInputRegisters r)))"
| "Request_parse P WriteSingleCoil =
     bnd (IndexedBool_parse P) (\<lambda>x. bnd (expect_empty P) (\<lambda>_. ret (Req_WriteSingleCoil x)))"
| "Request_parse P WriteSingleRegister =
     bnd (IndexedU16_parse P) (\<lambda>x. bnd (expect_empty P) (\<lambda>_. ret (Req_WriteSingleRegister x)))"
| "Request_parse P WriteMultipleCoils =
     bnd (AddressRange_parse P) (\<lambda>rng. bnd (read_u8 P) (\<lambda>_.
       bnd (BitIterator_parse_all P rng) (\<lambda>it. ret (Req_WriteMultipleCoils (WriteCoils_new rng it)))))"
| "Request_parse P WriteMultipleRegisters =
     bnd (AddressRange_parse P) (\<lambda>rng. bnd (read_u8 P) (\<lambda>_.
       bnd (RegisterIterator_parse_all P rng) (\<lambda>it. ret (Req_WriteMultipleRegisters (WriteRegisters_new rng it)))))"

section \<open>Parsing as a function of the bytes\<close>

text \<open>
  \<open>decode_request f body\<close>: the request a PDU body means. Lengths are exact, ranges are
  valid, and the byte count of a multiple write is skipped.
\<close>

fun decode_read_bits :: "(ReadBitsRange \<Rightarrow> Request) \<Rightarrow> u8 list \<Rightarrow> (Request, RequestError) result" where
  "decode_read_bits c (a # b # n # m # rest) =
     bind_result (range_of (u16_be a b) (u16_be n m)) (\<lambda>r.
       bind_result (map_err RequestError_from_InvalidRange (AddressRange_of_read_bits r)) (\<lambda>x.
         if rest = [] then Ok (c x) else Err (BadResponse (TrailingBytes (length rest)))))"
| "decode_read_bits c _ = Err (BadResponse InsufficientBytes)"

fun decode_read_registers :: "(ReadRegistersRange \<Rightarrow> Request) \<Rightarrow> u8 list \<Rightarrow> (Request, RequestError) result" where
  "decode_read_registers c (a # b # n # m # rest) =
     bind_result (range_of (u16_be a b) (u16_be n m)) (\<lambda>r.
       bind_result (map_err RequestError_from_InvalidRange (AddressRange_of_read_registers r)) (\<lambda>x.
         if rest = [] then Ok (c x) else Err (BadResponse (TrailingBytes (length rest)))))"
| "decode_read_registers c _ = Err (BadResponse InsufficientBytes)"

fun decode_single :: "(u16 \<Rightarrow> u16 \<Rightarrow> (Request, RequestError) result) \<Rightarrow> u8 list \<Rightarrow> (Request, RequestError) result" where
  "decode_single f (a # b # n # m # rest) =
     bind_result (f (u16_be a b) (u16_be n m)) (\<lambda>x.
       if rest = [] then Ok x else Err (BadResponse (TrailingBytes (length rest))))"
| "decode_single f _ = Err (BadResponse InsufficientBytes)"

fun decode_multiple ::
    "(AddressRange \<Rightarrow> nat) \<Rightarrow> (AddressRange \<Rightarrow> u8 list \<Rightarrow> Request) \<Rightarrow> u8 list \<Rightarrow> (Request, RequestError) result" where
  "decode_multiple sz c (a # b # n # m # rest) =
     bind_result (range_of (u16_be a b) (u16_be n m)) (\<lambda>r.
       case rest of
         [] \<Rightarrow> Err (BadResponse InsufficientBytes)
       | cnt # bytes \<Rightarrow>
           if length bytes < sz r then Err (BadResponse InsufficientBytes)
           else if length bytes > sz r then Err (BadResponse (TrailingBytes (length bytes - sz r)))
           else Ok (c r bytes))"
| "decode_multiple sz c _ = Err (BadResponse InsufficientBytes)"

definition coils_request :: "AddressRange \<Rightarrow> u8 list \<Rightarrow> Request" where
  "coils_request r bytes =
     Req_WriteMultipleCoils (WriteCoils_new r \<lparr>bi_bytes = bytes, bi_range = r, bi_pos = 0\<rparr>)"

definition registers_request :: "AddressRange \<Rightarrow> u8 list \<Rightarrow> Request" where
  "registers_request r bytes =
     Req_WriteMultipleRegisters (WriteRegisters_new r \<lparr>ri_bytes = bytes, ri_range = r, ri_pos = 0\<rparr>)"

fun decode_request :: "FunctionCode \<Rightarrow> u8 list \<Rightarrow> (Request, RequestError) result" where
  "decode_request ReadCoils = decode_read_bits Req_ReadCoils"
| "decode_request ReadDiscreteInputs = decode_read_bits Req_ReadDiscreteInputs"
| "decode_request ReadHoldingRegisters = decode_read_registers Req_ReadHoldingRegisters"
| "decode_request ReadInputRegisters = decode_read_registers Req_ReadInputRegisters"
| "decode_request WriteSingleCoil =
     decode_single (\<lambda>i v. bind_result (coil_of i v) (\<lambda>x. Ok (Req_WriteSingleCoil x)))"
| "decode_request WriteSingleRegister =
     decode_single (\<lambda>i v. Ok (Req_WriteSingleRegister (Indexed_new i v)))"
| "decode_request WriteMultipleCoils =
     decode_multiple (\<lambda>r. num_bytes_for_bits (ar_count r)) coils_request"
| "decode_request WriteMultipleRegisters =
     decode_multiple (\<lambda>r. 2 * unat (ar_count r)) registers_request"

lemma reads_result:
  assumes "reads rview m f"
  shows "fst (m c) = bind_result (f (rview c)) (\<lambda>x. Ok (fst x))"
proof -
  have "case f (rview c) of
      Ok (a, rest) \<Rightarrow> \<exists>c'. m c = (Ok a, c') \<and> rview c' = rest
    | Err e \<Rightarrow> \<exists>c'. m c = (Err e, c')
    | Panic \<Rightarrow> \<exists>c'. m c = (Panic, c')" using assms by (simp add: reads_def)
  then show ?thesis by (auto split: result.splits)
qed

context read_cursor
begin

lemma reads_read_bits:
  "reads rview (parse_read_bits P) (bnd_list (list_two range_of) (\<lambda>r bs.
     bind_result (map_err RequestError_from_InvalidRange (AddressRange_of_read_bits r)) (\<lambda>x. Ok (x, bs))))"
  unfolding parse_read_bits_def by (rule reads_bnd [OF reads_AddressRange reads_lift_result])

lemma reads_read_registers:
  "reads rview (parse_read_registers P) (bnd_list (list_two range_of) (\<lambda>r bs.
     bind_result (map_err RequestError_from_InvalidRange (AddressRange_of_read_registers r)) (\<lambda>x. Ok (x, bs))))"
  unfolding parse_read_registers_def by (rule reads_bnd [OF reads_AddressRange reads_lift_result])

lemma reads_then_end:
  assumes "reads rview m f"
  shows "reads rview (bnd m (\<lambda>x. bnd (expect_empty P) (\<lambda>_. ret (c x))))
    (bnd_list f (\<lambda>x. bnd_list list_end (\<lambda>_ bs. Ok (c x, bs))))"
  by (rule reads_bnd [OF assms reads_bnd [OF reads_expect_empty reads_ret]])

lemma Request_parse_read_bits:
  "fst (bnd (parse_read_bits P) (\<lambda>r. bnd (expect_empty P) (\<lambda>_. ret (c r))) cur) = decode_read_bits c (rview cur)"
  unfolding reads_result [OF reads_then_end [OF reads_read_bits]]
  by (cases "(c, rview cur)" rule: decode_read_bits.cases)
    (auto simp: bnd_list_def list_end_def bind_result_case split: result.splits)

lemma Request_parse_read_registers:
  "fst (bnd (parse_read_registers P) (\<lambda>r. bnd (expect_empty P) (\<lambda>_. ret (c r))) cur) =
     decode_read_registers c (rview cur)"
  unfolding reads_result [OF reads_then_end [OF reads_read_registers]]
  by (cases "(c, rview cur)" rule: decode_read_registers.cases)
    (auto simp: bnd_list_def list_end_def bind_result_case split: result.splits)

lemma Request_parse_single:
  assumes "reads rview m (list_two f)"
  shows "fst (bnd m (\<lambda>x. bnd (expect_empty P) (\<lambda>_. ret (c x))) cur) =
    decode_single (\<lambda>i v. bind_result (f i v) (\<lambda>x. Ok (c x))) (rview cur)"
  unfolding reads_result [OF reads_then_end [OF assms]]
  by (cases "(f, rview cur)" rule: list_two.cases)
    (auto simp: bnd_list_def list_end_def bind_result_case split: result.splits)

lemma Request_parse_multiple:
  assumes "\<And>r. reads rview (m r) (bnd_list (list_bytes (sz r)) (\<lambda>bytes. bnd_list list_end
      (\<lambda>_ bs. Ok (it r bytes, bs))))"
  shows "fst (bnd (AddressRange_parse P) (\<lambda>r. bnd (read_u8 P) (\<lambda>_. bnd (m r) (\<lambda>x. ret (c r x)))) cur) =
    decode_multiple sz (\<lambda>r bytes. c r (it r bytes)) (rview cur)"
proof -
  have "reads rview (bnd (AddressRange_parse P) (\<lambda>r. bnd (read_u8 P) (\<lambda>_. bnd (m r) (\<lambda>x. ret (c r x)))))
      (bnd_list (list_two range_of) (\<lambda>r. bnd_list list_u8 (\<lambda>_.
        bnd_list (bnd_list (list_bytes (sz r)) (\<lambda>bytes. bnd_list list_end (\<lambda>_ bs. Ok (it r bytes, bs))))
          (\<lambda>x bs. Ok (c r x, bs)))))"
    by (intro reads_bnd reads_AddressRange reads_u8 reads_ret assms)
  from reads_result [OF this, of cur] show ?thesis
    by (cases "(range_of, rview cur)" rule: list_two.cases)
      (auto simp: bnd_list_def list_end_def list_bytes_def bind_result_case split: result.splits list.splits)
qed

text \<open>Parsing refines \<open>decode_request\<close>, for every function code and every body.\<close>

lemma Request_parse_decode: "fst (Request_parse P f cur) = decode_request f (rview cur)"
proof (cases f)
  case WriteSingleCoil
  then show ?thesis using Request_parse_single [OF reads_IndexedBool] by simp
next
  case WriteSingleRegister
  then show ?thesis using Request_parse_single [OF reads_IndexedU16] by (simp add: register_of_def)
next
  case WriteMultipleCoils
  then show ?thesis
    using Request_parse_multiple [OF reads_BitIterator_all, where c = "\<lambda>r x. Req_WriteMultipleCoils (WriteCoils_new r x)"]
    by (simp add: coils_request_def [abs_def])
next
  case WriteMultipleRegisters
  then show ?thesis
    using Request_parse_multiple [OF reads_RegisterIterator_all,
        where c = "\<lambda>r x. Req_WriteMultipleRegisters (WriteRegisters_new r x)"]
    by (simp add: registers_request_def [abs_def])
qed (simp_all add: Request_parse_read_bits Request_parse_read_registers)

end

section \<open>What a reply says\<close>

text \<open>
  The answer to a request as the Modbus protocol describes it: the values at the addresses of the
  range in ascending order, or the first exception the handler raises; for a write, an echo of the
  request or the handler's exception.
\<close>

fun read_all :: "(u16 \<Rightarrow> ('v, ExceptionCode) result) \<Rightarrow> u16 list \<Rightarrow> ('v list, ExceptionCode) result" where
  "read_all g [] = Ok []"
| "read_all g (a # as) = bind_result (g a) (\<lambda>v. bind_result (read_all g as) (\<lambda>vs. Ok (v # vs)))"

definition exception_pdu :: "FunctionCode \<Rightarrow> ExceptionCode \<Rightarrow> u8 list" where
  "exception_pdu f ex = [FunctionCode_as_error f, ExceptionCode_to_u8 ex]"

definition answer_read ::
    "FunctionCode \<Rightarrow> ('v list \<Rightarrow> u8 list) \<Rightarrow> (u16 \<Rightarrow> ('v, ExceptionCode) result) \<Rightarrow> AddressRange \<Rightarrow>
     (u8 list, unit) result" where
  "answer_read f enc g r = (case read_all g (range_addresses r) of
      Ok vs \<Rightarrow> Ok (FunctionCode_get_value f # enc vs)
    | Err ex \<Rightarrow> Ok (exception_pdu f ex)
    | Panic \<Rightarrow> Panic)"

definition answer_write ::
    "FunctionCode \<Rightarrow> u8 list \<Rightarrow> (unit, ExceptionCode) result \<times> 'h \<Rightarrow> (u8 list, unit) result \<times> 'h" where
  "answer_write f echo x = (case x of
      (Ok _, h) \<Rightarrow> (Ok (FunctionCode_get_value f # echo), h)
    | (Err ex, h) \<Rightarrow> (Ok (exception_pdu f ex), h)
    | (Panic, h) \<Rightarrow> (Panic, h))"

fun answer :: "'h RequestHandler \<Rightarrow> Request \<Rightarrow> 'h \<Rightarrow> (u8 list, unit) result \<times> 'h" where
  "answer H (Req_ReadCoils r) h =
     (answer_read ReadCoils bool_slice_bytes (rh_read_coil H h) (rbr_inner r), h)"
| "answer H (Req_ReadDiscreteInputs r) h =
     (answer_read ReadDiscreteInputs bool_slice_bytes (rh_read_discrete_input H h) (rbr_inner r), h)"
| "answer H (Req_ReadHoldingRegisters r) h =
     (answer_read ReadHoldingRegisters u16_slice_bytes (rh_read_holding_register H h) (rrr_inner r), h)"
| "answer H (Req_ReadInputRegisters r) h =
     (answer_read ReadInputRegisters u16_slice_bytes (rh_read_input_register H h) (rrr_inner r), h)"
| "answer H (Req_WriteSingleCoil x) h =
     answer_write WriteSingleCoil (indexed_bool_bytes x) (rh_write_single_coil H x h)"
| "answer H (Req_WriteSingleRegister x) h =
     answer_write WriteSingleRegister (indexed_u16_bytes x) (rh_write_single_register H x h)"
| "answer H (Req_WriteMultipleCoils x) h =
     answer_write WriteMultipleCoils (range_bytes (wcs_range x)) (rh_write_multiple_coils H x h)"
| "answer H (Req_WriteMultipleRegisters x) h =
     answer_write WriteMultipleRegisters (range_bytes (wrs_range x)) (rh_write_multiple_registers H x h)"

text \<open>The requests that \<open>Request::parse\<close> lets through have ranges within the limits.\<close>

fun request_range :: "Request \<Rightarrow> AddressRange option" where
  "request_range (Req_ReadCoils r) = Some (rbr_inner r)"
| "request_range (Req_ReadDiscreteInputs r) = Some (rbr_inner r)"
| "request_range (Req_ReadHoldingRegisters r) = Some (rrr_inner r)"
| "request_range (Req_ReadInputRegisters r) = Some (rrr_inner r)"
| "request_range _ = None"

fun request_ok :: "Request \<Rightarrow> bool" where
  "request_ok (Req_ReadCoils r) = (valid_range (rbr_inner r) \<and> unat (ar_count (rbr_inner r)) \<le> 2000)"
| "request_ok (Req_ReadDiscreteInputs r) = (valid_range (rbr_inner r) \<and> unat (ar_count (rbr_inner r)) \<le> 2000)"
| "request_ok (Req_ReadHoldingRegisters r) = (valid_range (rrr_inner r) \<and> unat (ar_count (rrr_inner r)) \<le> 125)"
| "request_ok (Req_ReadInputRegisters r) = (valid_range (rrr_inner r) \<and> unat (ar_count (rrr_inner r)) \<le> 125)"
| "request_ok (Req_WriteMultipleCoils x) = (valid_range (wcs_range x) \<and>
     wcs_iterator x = \<lparr>bi_bytes = bi_bytes (wcs_iterator x), bi_range = wcs_range x, bi_pos = 0\<rparr> \<and>
     length (bi_bytes (wcs_iterator x)) = num_bytes_for_bits (ar_count (wcs_range x)))"
| "request_ok (Req_WriteMultipleRegisters x) = (valid_range (wrs_range x) \<and>
     wrs_iterator x = \<lparr>ri_bytes = ri_bytes (wrs_iterator x), ri_range = wrs_range x, ri_pos = 0\<rparr> \<and>
     length (ri_bytes (wrs_iterator x)) = 2 * unat (ar_count (wrs_range x)))"
| "request_ok _ = True"

text \<open>
  With overflow checks, iterating a range that ends at the last address panics
  (\<open>for_addresses_panic\<close>); \<open>iterable\<close> excludes exactly that case.
\<close>

definition iterable :: "('r, 'w, 'd, 'io) platform \<Rightarrow> Request \<Rightarrow> bool" where
  "iterable P req \<longleftrightarrow> (case request_range req of
      None \<Rightarrow> True
    | Some r \<Rightarrow> \<not> overflow_checks P \<or> unat (ar_start r) + unat (ar_count r) < 65536)"

lemma read_all_Ok:
  assumes "read_all g as = Ok vs"
  obtains v where "\<And>a. a \<in> set as \<Longrightarrow> g a = Ok (v a)" and "map v as = vs"
proof -
  define v where "v = (\<lambda>a. case g a of Ok x \<Rightarrow> x | _ \<Rightarrow> undefined)"
  have "(\<forall>a \<in> set as. g a = Ok (v a)) \<and> map v as = vs"
    using assms by (induction as arbitrary: vs) (auto simp: bind_result_eq_Ok v_def)
  then show ?thesis using that by blast
qed

lemma read_all_Err:
  assumes "read_all g as = Err ex"
  obtains pre a post v where "as = pre @ a # post" and "\<And>b. b \<in> set pre \<Longrightarrow> g b = Ok (v b)"
    and "g a = Err ex"
proof -
  define v where "v = (\<lambda>a. case g a of Ok x \<Rightarrow> x | _ \<Rightarrow> undefined)"
  have "\<exists>pre a post. as = pre @ a # post \<and> (\<forall>b \<in> set pre. g b = Ok (v b)) \<and> g a = Err ex"
    using assms
  proof (induction as)
    case (Cons a as)
    show ?case
    proof (cases "g a")
      case (Ok x)
      then have "read_all g as = Err ex" using Cons.prems by (cases "read_all g as") auto
      from Cons.IH [OF this] obtain pre b post where "as = pre @ b # post"
        "\<forall>b \<in> set pre. g b = result.Ok (v b)" "g b = Err ex" by blast
      then show ?thesis using Ok by (intro exI [of _ "a # pre"] exI [of _ b] exI [of _ post]) (simp add: v_def)
    next
      case (Err e)
      then show ?thesis using Cons.prems by (intro exI [of _ "[]"] exI [of _ a] exI [of _ as]) simp
    qed (use Cons.prems in simp)
  qed simp
  then show ?thesis using that by blast
qed

lemma decode_reads_ok:
  "decode_read_bits c body = Ok req \<Longrightarrow>
     \<exists>r. req = c (ReadBitsRange r) \<and> valid_range r \<and> unat (ar_count r) \<le> 2000"
  "decode_read_registers d body = Ok req \<Longrightarrow>
     \<exists>r. req = d (ReadRegistersRange r) \<and> valid_range r \<and> unat (ar_count r) \<le> 125"
proof -
  show "\<exists>r. req = c (ReadBitsRange r) \<and> valid_range r \<and> unat (ar_count r) \<le> 2000"
    if "decode_read_bits c body = Ok req"
    using that by (cases "(c, body)" rule: decode_read_bits.cases)
      (auto simp: bind_result_eq_Ok range_of_def AddressRange_try_from_Ok_iff AddressRange_of_read_Ok_iff
        split: if_splits)
  show "\<exists>r. req = d (ReadRegistersRange r) \<and> valid_range r \<and> unat (ar_count r) \<le> 125"
    if "decode_read_registers d body = Ok req"
    using that by (cases "(d, body)" rule: decode_read_registers.cases)
      (auto simp: bind_result_eq_Ok range_of_def AddressRange_try_from_Ok_iff AddressRange_of_read_Ok_iff
        split: if_splits)
qed

lemma decode_writes_ok:
  "decode_single f body = Ok req \<Longrightarrow> \<exists>i v. f i v = Ok req"
  "decode_multiple sz c body = Ok req \<Longrightarrow> \<exists>r bytes. req = c r bytes \<and> valid_range r \<and> length bytes = sz r"
proof -
  show "\<exists>i v. f i v = Ok req" if "decode_single f body = Ok req"
    using that by (cases "(f, body)" rule: decode_single.cases)
      (auto simp: bind_result_eq_Ok split: if_splits)
  show "\<exists>r bytes. req = c r bytes \<and> valid_range r \<and> length bytes = sz r"
    if "decode_multiple sz c body = Ok req"
    using that by (cases "(sz, c, body)" rule: decode_multiple.cases)
      (auto simp: bind_result_eq_Ok range_of_def AddressRange_try_from_Ok_iff split: if_splits list.splits)
qed

lemma decode_request_ok:
  assumes "decode_request f body = Ok req"
  shows "request_ok req \<and> Request_get_function req = f"
proof (cases f)
  case WriteSingleCoil
  then show ?thesis using assms decode_writes_ok(1) by (fastforce simp: bind_result_eq_Ok)
next
  case WriteSingleRegister
  then show ?thesis using assms decode_writes_ok(1) by fastforce
next
  case WriteMultipleCoils
  then obtain r bytes where "req = coils_request r bytes" "valid_range r"
    "length bytes = num_bytes_for_bits (ar_count r)" using assms decode_writes_ok(2) by fastforce
  then show ?thesis using WriteMultipleCoils by (simp add: coils_request_def WriteCoils_new_def)
next
  case WriteMultipleRegisters
  then obtain r bytes where "req = registers_request r bytes" "valid_range r"
    "length bytes = 2 * unat (ar_count r)" using assms decode_writes_ok(2) by fastforce
  then show ?thesis using WriteMultipleRegisters by (simp add: registers_request_def WriteRegisters_new_def)
qed (use assms in \<open>auto dest!: decode_reads_ok\<close>)

text \<open>The length of a body bounds the values that it can carry.\<close>

lemma decode_multiple_length:
  assumes "decode_multiple sz c body = Ok req"
  shows "\<exists>r bytes. req = c r bytes \<and> length body = 5 + sz r"
proof (cases "(sz, c, body)" rule: decode_multiple.cases)
  case (1 sz' c' a b n m rest)
  then show ?thesis using assms by (cases rest) (auto simp: bind_result_eq_Ok split: if_splits)
qed (use assms in auto)

lemma decode_write_counts:
  assumes "decode_request f body = Ok req" and "length body \<le> 252"
  shows "case req of
      Req_WriteMultipleRegisters x \<Rightarrow> unat (ar_count (wrs_range x)) \<le> 123
    | Req_WriteMultipleCoils x \<Rightarrow> unat (ar_count (wcs_range x)) \<le> 1976
    | _ \<Rightarrow> True"
proof (cases f)
  case WriteMultipleCoils
  then obtain r bytes where "req = coils_request r bytes" "length body = 5 + num_bytes_for_bits (ar_count r)"
    using assms(1) decode_multiple_length by fastforce
  then show ?thesis using assms(2) by (simp add: coils_request_def WriteCoils_new_def num_bytes_for_bits_def)
next
  case WriteMultipleRegisters
  then obtain r bytes where "req = registers_request r bytes" "length body = 5 + 2 * unat (ar_count r)"
    using assms(1) decode_multiple_length by fastforce
  then show ?thesis using assms(2) by (simp add: registers_request_def WriteRegisters_new_def)
qed (use assms(1) decode_writes_ok(1) in \<open>fastforce simp: bind_result_eq_Ok dest!: decode_reads_ok\<close>)+

lemma decode_request_no_panic: "decode_request f body \<noteq> Panic"
proof -
  have range_of: "range_of a b \<noteq> Panic" for a b
    by (simp add: range_of_def AddressRange_try_from_eq)
  have of_read: "AddressRange_of_read_bits r \<noteq> Panic" "AddressRange_of_read_registers r \<noteq> Panic" for r
    by (simp_all add: AddressRange_of_read_bits_def AddressRange_of_read_registers_def AddressRange_limited_count_def)
  have coil: "coil_of i v \<noteq> Panic" for i v
    by (simp add: coil_of_def coil_from_u16_def)
  show ?thesis
    by (cases f; cases "(\<lambda>(_ :: u16) (_ :: u16). Ok () :: (unit, RequestError) result, body)" rule: list_two.cases)
      (auto simp: bind_result_case range_of of_read coil split: result.splits list.splits)
qed

section \<open>The bytes of a reply\<close>

context platform
begin

lemma reply_bits:
  assumes fw: "fw_wf fw" "header_ok (fw_format_type fw) h"
    and r: "\<not> overflow_checks P \<or> unat (ar_start (rbr_inner r)) + unat (ar_count (rbr_inner r)) < 65536"
    and n: "unat (ar_count (rbr_inner r)) \<le> 2000"
    and ans: "answer_read f bool_slice_bytes g (rbr_inner r) = Ok pdu"
  shows "\<exists>fw'. FrameWriter_format_reply P h f (BitWriter_serialize P (BitWriter_new r g)) fw =
    (Ok (frame_bytes P (fw_format_type fw) h pdu), fw') \<and> same_writer fw fw'"
proof (cases "read_all g (range_addresses (rbr_inner r))")
  case (Ok vs)
  then obtain v where gv: "\<And>a. a \<in> set (range_addresses (rbr_inner r)) \<Longrightarrow> g a = result.Ok (v a)"
    and vs: "map v (range_addresses (rbr_inner r)) = vs" by (rule read_all_Ok) blast
  have "emits wbuf wpos (BitWriter_serialize P (BitWriter_new r g)) (bool_slice_bytes vs)"
    using emits_BitWriter [of "BitWriter_new r g" v] r n gv vs by (simp add: BitWriter_new_def)
  moreover have "length vs \<le> 2000" using vs n by (metis length_map length_range_addresses)
  then have "overhead (fw_format_type fw) + length (bool_slice_bytes vs) \<le> MAX_FRAME_LENGTH"
    by (cases "fw_format_type fw") simp_all
  ultimately show ?thesis
    using format_reply_wire [OF fw, of _ "bool_slice_bytes vs" f] ans Ok by (simp add: answer_read_def)
next
  case (Err ex)
  then obtain pre a post v where split: "range_addresses (rbr_inner r) = pre @ a # post"
    "\<And>b. b \<in> set pre \<Longrightarrow> g b = Ok (v b)" "g a = result.Err ex" by (rule read_all_Err) blast
  have "length pre < 2001" using arg_cong [OF split(1), of length] n by simp
  then have k: "8 + (1 + length pre div 8) \<le> MAX_FRAME_LENGTH" by simp
  have "raises wbuf wpos (BitWriter_serialize P (BitWriter_new r g)) (1 + length pre div 8) ex"
    using raises_BitWriter [of "BitWriter_new r g" pre a post v ex] r n split by (simp add: BitWriter_new_def)
  from format_reply_exception [OF fw this k, of f] show ?thesis
    using ans Err by (simp add: answer_read_def exception_pdu_def)
qed (use ans in \<open>simp add: answer_read_def\<close>)

lemma reply_registers:
  assumes fw: "fw_wf fw" "header_ok (fw_format_type fw) h"
    and r: "\<not> overflow_checks P \<or> unat (ar_start (rrr_inner r)) + unat (ar_count (rrr_inner r)) < 65536"
    and n: "unat (ar_count (rrr_inner r)) \<le> 125"
    and ans: "answer_read f u16_slice_bytes g (rrr_inner r) = Ok pdu"
  shows "\<exists>fw'. FrameWriter_format_reply P h f (RegisterWriter_serialize P (RegisterWriter_new r g)) fw =
    (Ok (frame_bytes P (fw_format_type fw) h pdu), fw') \<and> same_writer fw fw'"
proof (cases "read_all g (range_addresses (rrr_inner r))")
  case (Ok vs)
  then obtain v where gv: "\<And>a. a \<in> set (range_addresses (rrr_inner r)) \<Longrightarrow> g a = result.Ok (v a)"
    and vs: "map v (range_addresses (rrr_inner r)) = vs" by (rule read_all_Ok) blast
  have "emits wbuf wpos (RegisterWriter_serialize P (RegisterWriter_new r g)) (u16_slice_bytes vs)"
    using emits_RegisterWriter [of "RegisterWriter_new r g" v] r n gv vs by (simp add: RegisterWriter_new_def)
  moreover have "length vs \<le> 125" using vs n by (metis length_map length_range_addresses)
  then have "overhead (fw_format_type fw) + length (u16_slice_bytes vs) \<le> MAX_FRAME_LENGTH"
    by (cases "fw_format_type fw") simp_all
  ultimately show ?thesis
    using format_reply_wire [OF fw, of _ "u16_slice_bytes vs" f] ans Ok by (simp add: answer_read_def)
next
  case (Err ex)
  then obtain pre a post v where split: "range_addresses (rrr_inner r) = pre @ a # post"
    "\<And>b. b \<in> set pre \<Longrightarrow> g b = Ok (v b)" "g a = result.Err ex" by (rule read_all_Err) blast
  have "length pre < 126" using arg_cong [OF split(1), of length] n by simp
  then have k: "8 + (1 + 2 * length pre) \<le> MAX_FRAME_LENGTH" by simp
  have "raises wbuf wpos (RegisterWriter_serialize P (RegisterWriter_new r g)) (1 + 2 * length pre) ex"
    using raises_RegisterWriter [of "RegisterWriter_new r g" pre a post v ex] r n split
    by (simp add: RegisterWriter_new_def)
  from format_reply_exception [OF fw this k, of f] show ?thesis
    using ans Err by (simp add: answer_read_def exception_pdu_def)
qed (use ans in \<open>simp add: answer_read_def\<close>)

lemma reply_write:
  assumes fw: "fw_wf fw" "header_ok (fw_format_type fw) h"
    and msg: "emits wbuf wpos msg echo" "length echo = 4"
    and ans: "answer_write f echo (operation st) = (Ok pdu, st')"
  shows "\<exists>fw'. write_result P f h msg operation (fw, st) =
    (Ok (frame_bytes P (fw_format_type fw) h pdu), (fw', st')) \<and> same_writer fw fw'"
proof -
  have fits: "overhead (fw_format_type fw) + length echo \<le> MAX_FRAME_LENGTH"
    using msg(2) by (cases "fw_format_type fw") simp_all
  obtain res st1 where op: "operation st = (res, st1)" by fastforce
  show ?thesis
  proof (cases res)
    case (Ok u)
    then show ?thesis
      using format_reply_wire [OF fw msg(1) fits, of f] ans op
      by (auto simp: write_result_def answer_write_def on_writer_def)
  next
    case (Err ex)
    then show ?thesis
      using format_ex_wire [OF fw, of "Field_Exception f" ex] ans op
      by (auto simp: write_result_def answer_write_def on_writer_def exception_pdu_def FunctionCode_as_error_def)
  qed (use ans op in \<open>simp add: answer_write_def\<close>)
qed

text \<open>Every reply is the frame of the protocol's answer, and the handler is left as the answer says.\<close>

lemma get_reply_answer:
  assumes fw: "fw_wf fw" "header_ok (fw_format_type fw) h"
    and req: "request_ok req" "iterable P req" and ans: "answer H req st = (Ok pdu, st')"
  shows "\<exists>fw'. Request_get_reply P H req h (fw, st) =
    (Ok (frame_bytes P (fw_format_type fw) h pdu), (fw', st')) \<and> same_writer fw fw'"
proof (cases req)
  case (Req_ReadCoils r)
  then show ?thesis
    using reply_bits [OF fw, of r ReadCoils "rh_read_coil H st" pdu] req ans
    by (auto simp: iterable_def on_writer_def)
next
  case (Req_ReadDiscreteInputs r)
  then show ?thesis
    using reply_bits [OF fw, of r ReadDiscreteInputs "rh_read_discrete_input H st" pdu] req ans
    by (auto simp: iterable_def on_writer_def)
next
  case (Req_ReadHoldingRegisters r)
  then show ?thesis
    using reply_registers [OF fw, of r ReadHoldingRegisters "rh_read_holding_register H st" pdu] req ans
    by (auto simp: iterable_def on_writer_def)
next
  case (Req_ReadInputRegisters r)
  then show ?thesis
    using reply_registers [OF fw, of r ReadInputRegisters "rh_read_input_register H st" pdu] req ans
    by (auto simp: iterable_def on_writer_def)
next
  case (Req_WriteSingleCoil x)
  then show ?thesis using reply_write [OF fw emits_IndexedBool] ans by simp
next
  case (Req_WriteSingleRegister x)
  then show ?thesis using reply_write [OF fw emits_IndexedU16] ans by simp
next
  case (Req_WriteMultipleCoils x)
  then show ?thesis using reply_write [OF fw emits_AddressRange] ans by simp
next
  case (Req_WriteMultipleRegisters x)
  then show ?thesis using reply_write [OF fw emits_AddressRange] ans by simp
qed

end

end
