(* ===== verification/ServerTask.thy ===== *)
theory ServerTask
  imports ServerRequest
begin

text \<open>
  A server session, \<open>rodbus/src/server/task.rs\<close>: reading frames, parsing requests,
  authorizing them, executing them against the shared handlers and writing replies. The state of a
  session is the task itself, the store of handlers it shares with other sessions, and the stream.
  The channel that delivers settings belongs to \<open>tokio\<close>: what its \<open>recv\<close> returns
  is an argument of the functions that wait for it.
\<close>

section \<open>Authorization\<close>

datatype AuthorizationType = Auth_None | Auth_Handler AuthorizationHandler string

fun AuthorizationType_check_authorization ::
    "AuthorizationHandler \<Rightarrow> UnitId \<Rightarrow> Request \<Rightarrow> string \<Rightarrow> Authorization" where
  "AuthorizationType_check_authorization handler unit_id (Req_ReadCoils x) role =
     ah_read_coils handler unit_id (rbr_inner x) role"
| "AuthorizationType_check_authorization handler unit_id (Req_ReadDiscreteInputs x) role =
     ah_read_discrete_inputs handler unit_id (rbr_inner x) role"
| "AuthorizationType_check_authorization handler unit_id (Req_ReadHoldingRegisters x) role =
     ah_read_holding_registers handler unit_id (rrr_inner x) role"
| "AuthorizationType_check_authorization handler unit_id (Req_ReadInputRegisters x) role =
     ah_read_input_registers handler unit_id (rrr_inner x) role"
| "AuthorizationType_check_authorization handler unit_id (Req_WriteSingleCoil x) role =
     ah_write_single_coil handler unit_id (ix_index x) role"
| "AuthorizationType_check_authorization handler unit_id (Req_WriteSingleRegister x) role =
     ah_write_single_register handler unit_id (ix_index x) role"
| "AuthorizationType_check_authorization handler unit_id (Req_WriteMultipleCoils x) role =
     ah_write_multiple_coils handler unit_id (wcs_range x) role"
| "AuthorizationType_check_authorization handler unit_id (Req_WriteMultipleRegisters x) role =
     ah_write_multiple_registers handler unit_id (wrs_range x) role"

fun AuthorizationType_is_authorized :: "AuthorizationType \<Rightarrow> UnitId \<Rightarrow> Request \<Rightarrow> Authorization" where
  "AuthorizationType_is_authorized Auth_None unit_id request = Allow"
| "AuthorizationType_is_authorized (Auth_Handler handler role) unit_id request =
     AuthorizationType_check_authorization handler unit_id request role"

section \<open>The session\<close>

datatype ServerSetting = ChangeDecoding DecodeLevel

record SessionTask =
  st_handlers :: ServerHandlerMap
  st_auth :: AuthorizationType
  st_writer :: FrameWriter
  st_reader :: FramedReader
  st_decode :: DecodeLevel

definition SessionTask_new ::
    "ServerHandlerMap \<Rightarrow> AuthorizationType \<Rightarrow> FrameWriter \<Rightarrow> FramedReader \<Rightarrow>
     DecodeLevel \<Rightarrow> SessionTask" where
  "SessionTask_new handlers auth writer reader decode =
     \<lparr>st_handlers = handlers, st_auth = auth, st_writer = writer,
      st_reader = reader, st_decode = decode\<rparr>"

record ('h, 'io) session =
  ss_task :: SessionTask
  ss_store :: "'h handler_store"
  ss_io :: 'io

definition session_writer :: "(FrameWriter, 'a, 'e) se \<Rightarrow> (('h, 'io) session, 'a, 'e) se" where
  "session_writer m s = (case m (st_writer (ss_task s)) of
     (r, fw) \<Rightarrow> (r, s\<lparr>ss_task := (ss_task s)\<lparr>st_writer := fw\<rparr>\<rparr>))"

definition session_write ::
    "('r, 'w, 'd, 'io) platform \<Rightarrow> u8 list \<Rightarrow> (('h, 'io) session, unit, RequestError) se" where
  "session_write P bytes s = (case conv_err RequestError_from_io (io_write P bytes) (ss_io s) of
     (r, io) \<Rightarrow> (r, s\<lparr>ss_io := io\<rparr>))"

definition SessionTask_reply_with_error_generic ::
    "('r, 'w, 'd, 'io) platform \<Rightarrow> FrameHeader \<Rightarrow> FunctionField \<Rightarrow> ExceptionCode \<Rightarrow>
     (('h, 'io) session, unit, RequestError) se" where
  "SessionTask_reply_with_error_generic P header func ex =
     (if fh_destination header \<noteq> Broadcast
      then bnd (session_writer (FrameWriter_format_ex P header func ex)) (session_write P)
      else ret ())"

definition SessionTask_reply_with_error ::
    "('r, 'w, 'd, 'io) platform \<Rightarrow> FrameHeader \<Rightarrow> FunctionCode \<Rightarrow> ExceptionCode \<Rightarrow>
     (('h, 'io) session, unit, RequestError) se" where
  "SessionTask_reply_with_error P header func ex =
     SessionTask_reply_with_error_generic P header (Field_Exception func) ex"

text \<open>Running a request on a locked handler, with the writer at hand or without it.\<close>

definition session_reply ::
    "handler_ref \<Rightarrow> (FrameWriter \<times> 'h, 'a, 'e) se \<Rightarrow> (('h, 'io) session, 'a, 'e) se" where
  "session_reply r m s = (case with_lock r m (st_writer (ss_task s), ss_store s) of
     (res, (fw, st)) \<Rightarrow> (res, s\<lparr>ss_task := (ss_task s)\<lparr>st_writer := fw\<rparr>, ss_store := st\<rparr>))"

definition session_execute ::
    "('h, unit, 'e) se \<Rightarrow> handler_ref \<Rightarrow> (('h, 'io) session, unit, 'e) se" where
  "session_execute m r s = (case with_lock r (\<lambda>(u, h). case m h of (res, h') \<Rightarrow> (res, (u, h'))) ((), ss_store s) of
     (res, (_, st)) \<Rightarrow> (res, s\<lparr>ss_store := st\<rparr>))"

definition SessionTask_handle_request ::
    "('r, 'w, 'd, 'io) platform \<Rightarrow> 'h RequestHandler \<Rightarrow> FrameHeader \<Rightarrow> Request \<Rightarrow>
     (('h, 'io) session, unit, RequestError) se" where
  "SessionTask_handle_request P H header request s = (case fh_destination header of
      Dest_UnitId unit_id \<Rightarrow> (case ServerHandlerMap_get unit_id (st_handlers (ss_task s)) of
          None \<Rightarrow> (Ok (), s)
        | Some handler \<Rightarrow>
            bnd (session_reply handler (Request_get_reply P H request header)) (session_write P) s)
    | Broadcast \<Rightarrow> (case Request_into_broadcast_request request of
          None \<Rightarrow> (Ok (), s)
        | Some request' \<Rightarrow>
            for_list (session_execute (BroadcastRequest_execute H request'))
              (ServerHandlerMap_iter_mut (st_handlers (ss_task s))) s))"

definition SessionTask_handle_frame ::
    "('r, 'w, 'd, 'io) platform \<Rightarrow> 'h RequestHandler \<Rightarrow> Frame \<Rightarrow>
     (('h, 'io) session, unit, RequestError) se" where
  "SessionTask_handle_frame P H frame s =
     (let cursor = rc_new P (Frame_payload frame); header = fr_header frame in
      case rc_read_u8 P cursor of
        (Err _, _) \<Rightarrow> (Ok (), s)
      | (Panic, _) \<Rightarrow> (Panic, s)
      | (Ok value, cursor1) \<Rightarrow> (case FunctionCode_get value of
            None \<Rightarrow> SessionTask_reply_with_error_generic P header (FunctionField_unknown value) IllegalFunction s
          | Some function \<Rightarrow> (case Request_parse P function cursor1 of
                (Err err, _) \<Rightarrow> SessionTask_reply_with_error P header function IllegalDataValue s
              | (Panic, _) \<Rightarrow> (Panic, s)
              | (Ok request, _) \<Rightarrow>
                  (case AuthorizationType_is_authorized (st_auth (ss_task s))
                          (FrameDestination_into_unit_id (fh_destination header)) request of
                     Deny \<Rightarrow>
                       if \<not> FrameDestination_is_broadcast (fh_destination header)
                       then bnd (SessionTask_reply_with_error P header (Request_get_function request)
                              IllegalFunction) (\<lambda>_. ret ()) s
                       else (Ok (), s)
                   | Allow \<Rightarrow> SessionTask_handle_request P H header request s))))"

fun SessionTask_apply_setting :: "ServerSetting \<Rightarrow> SessionTask \<Rightarrow> SessionTask" where
  "SessionTask_apply_setting (ChangeDecoding level) t = t\<lparr>st_decode := level\<rparr>"

text \<open>
  The two branches of the \<open>select!\<close> in \<open>run_one\<close>. The macro polls them in an
  order of its choosing, an argument here, and the first one that is ready wins. A frame read that
  is abandoned keeps the reader's state.
\<close>

definition SessionTask_poll_frame ::
    "('r, 'w, 'd, 'io) platform \<Rightarrow> 'h RequestHandler \<Rightarrow> ('h, 'io) session \<Rightarrow>
     ((unit, RequestError) result poll \<times> ('h, 'io) session) option" where
  "SessionTask_poll_frame P H s =
     (case FramedReader_next_frame P (st_reader (ss_task s)) (ss_io s) of
        None \<Rightarrow> None
      | Some (x, r, io) \<Rightarrow>
          let s' = s\<lparr>ss_task := (ss_task s)\<lparr>st_reader := r\<rparr>, ss_io := io\<rparr> in
          Some (case x of
              Pending \<Rightarrow> (Pending, s')
            | Ready (Err e) \<Rightarrow> (Ready (Err e), s')
            | Ready Panic \<Rightarrow> (Ready Panic, s')
            | Ready (Ok frame) \<Rightarrow>
                (case SessionTask_handle_frame P H frame s' of (res, s'') \<Rightarrow> (Ready res, s''))))"

definition SessionTask_poll_command ::
    "ServerSetting option poll \<Rightarrow> ('h, 'io) session \<Rightarrow> (unit, RequestError) result poll \<times> ('h, 'io) session" where
  "SessionTask_poll_command recv s = (case recv of
      Pending \<Rightarrow> (Pending, s)
    | Ready None \<Rightarrow> (Ready (Err RequestShutdown), s)
    | Ready (Some setting) \<Rightarrow>
        (Ready (Ok ()), s\<lparr>ss_task := SessionTask_apply_setting setting (ss_task s)\<rparr>))"

definition SessionTask_run_one ::
    "('r, 'w, 'd, 'io) platform \<Rightarrow> 'h RequestHandler \<Rightarrow> bool \<Rightarrow> ServerSetting option poll \<Rightarrow>
     ('h, 'io) session \<Rightarrow> ((unit, RequestError) result poll \<times> ('h, 'io) session) option" where
  "SessionTask_run_one P H frame_first recv s =
     (if frame_first
      then (case SessionTask_poll_frame P H s of
              Some (Pending, s') \<Rightarrow> Some (SessionTask_poll_command recv s')
            | r \<Rightarrow> r)
      else (case SessionTask_poll_command recv s of
              (Pending, s') \<Rightarrow> SessionTask_poll_frame P H s'
            | r \<Rightarrow> Some r))"

text \<open>
  The loop of \<open>run\<close>. Each turn takes the macro's choice and the state of the channel from
  a list; the result is \<open>None\<close> when the list is used up, and otherwise the error that ends
  the session, or waiting.
\<close>

fun SessionTask_run ::
    "('r, 'w, 'd, 'io) platform \<Rightarrow> 'h RequestHandler \<Rightarrow> (bool \<times> ServerSetting option poll) list \<Rightarrow>
     ('h, 'io) session \<Rightarrow> ((unit, RequestError) result poll \<times> ('h, 'io) session) option" where
  "SessionTask_run P H [] s = None"
| "SessionTask_run P H ((c, recv) # cs) s = (case SessionTask_run_one P H c recv s of
      Some (Ready (Ok _), s') \<Rightarrow> SessionTask_run P H cs s'
    | r \<Rightarrow> r)"

text \<open>
  Waiting before a serial port is opened again: settings are applied as they arrive; a closed
  channel ends the wait with \<open>Shutdown\<close>, the elapsed time ends it normally. The argument
  lists what the channel delivers before the time is up.
\<close>

fun SessionTask_process_settings :: "ServerSetting option list \<Rightarrow> SessionTask \<Rightarrow> unit poll \<times> SessionTask" where
  "SessionTask_process_settings [] t = (Pending, t)"
| "SessionTask_process_settings (None # q) t = (Ready (), t)"
| "SessionTask_process_settings (Some setting # q) t =
     SessionTask_process_settings q (SessionTask_apply_setting setting t)"

datatype Shutdown = Shutdown

definition SessionTask_sleep_for :: "ServerSetting option list \<Rightarrow> SessionTask \<Rightarrow> (unit, Shutdown) result \<times> SessionTask" where
  "SessionTask_sleep_for recvs t = (case SessionTask_process_settings recvs t of
      (Ready _, t') \<Rightarrow> (Err Shutdown, t')
    | (Pending, t') \<Rightarrow> (Ok (), t'))"

section \<open>What a server promises\<close>

text \<open>
  The abstract server: from the destination and the PDU of a frame to the PDU of the reply, if
  there is one, and the handlers afterwards. It knows nothing of frames, buffers or locks, and it is written
  down on its own: function codes and exceptions are the numbers of the protocol, and who may do what, which
  handlers a request reaches and what it does to them is said without the functions of the session.
\<close>

definition unless_broadcast :: "FrameDestination \<Rightarrow> u8 list \<Rightarrow> u8 list option" where
  "unless_broadcast d pdu = (if d = Broadcast then None else Some pdu)"

definition function_table :: "(u8 \<times> FunctionCode) list" where
  "function_table =
    [(0x01, ReadCoils), (0x02, ReadDiscreteInputs), (0x03, ReadHoldingRegisters), (0x04, ReadInputRegisters),
     (0x05, WriteSingleCoil), (0x06, WriteSingleRegister), (0x0F, WriteMultipleCoils), (0x10, WriteMultipleRegisters)]"

text \<open>The policy: without a handler everything is allowed; a handler is asked about the operation itself.\<close>

fun allows :: "AuthorizationType \<Rightarrow> UnitId \<Rightarrow> Request \<Rightarrow> bool" where
  "allows Auth_None u req = True"
| "allows (Auth_Handler a role) u (Req_ReadCoils x) = (ah_read_coils a u (rbr_inner x) role = Allow)"
| "allows (Auth_Handler a role) u (Req_ReadDiscreteInputs x) = (ah_read_discrete_inputs a u (rbr_inner x) role = Allow)"
| "allows (Auth_Handler a role) u (Req_ReadHoldingRegisters x) = (ah_read_holding_registers a u (rrr_inner x) role = Allow)"
| "allows (Auth_Handler a role) u (Req_ReadInputRegisters x) = (ah_read_input_registers a u (rrr_inner x) role = Allow)"
| "allows (Auth_Handler a role) u (Req_WriteSingleCoil x) = (ah_write_single_coil a u (ix_index x) role = Allow)"
| "allows (Auth_Handler a role) u (Req_WriteSingleRegister x) = (ah_write_single_register a u (ix_index x) role = Allow)"
| "allows (Auth_Handler a role) u (Req_WriteMultipleCoils x) = (ah_write_multiple_coils a u (wcs_range x) role = Allow)"
| "allows (Auth_Handler a role) u (Req_WriteMultipleRegisters x) = (ah_write_multiple_registers a u (wrs_range x) role = Allow)"

text \<open>A broadcast has the unit id 0.\<close>

definition addressed_unit :: "FrameDestination \<Rightarrow> UnitId" where
  "addressed_unit d = (case d of Dest_UnitId u \<Rightarrow> u | Broadcast \<Rightarrow> UnitId 0)"

definition serve_unit ::
    "'h RequestHandler \<Rightarrow> Request \<Rightarrow> handler_ref \<Rightarrow> 'h handler_store \<Rightarrow> u8 list option \<times> 'h handler_store" where
  "serve_unit H req r st = (case answer H req (mx_value (st r)) of
      (Ok pdu, h) \<Rightarrow> (Some pdu, st(r := RequestHandler_wrap h))
    | (_, h) \<Rightarrow> (None, st(r := RequestHandler_wrap h)))"

text \<open>A broadcast write reaches the handler of every unit, in the order of the units; a broadcast read none.\<close>

fun write_effect :: "'h RequestHandler \<Rightarrow> Request \<Rightarrow> 'h \<Rightarrow> 'h" where
  "write_effect H (Req_WriteSingleCoil x) h = snd (rh_write_single_coil H x h)"
| "write_effect H (Req_WriteSingleRegister x) h = snd (rh_write_single_register H x h)"
| "write_effect H (Req_WriteMultipleCoils x) h = snd (rh_write_multiple_coils H x h)"
| "write_effect H (Req_WriteMultipleRegisters x) h = snd (rh_write_multiple_registers H x h)"
| "write_effect H _ h = h"

fun serve_all :: "'h RequestHandler \<Rightarrow> Request \<Rightarrow> handler_ref list \<Rightarrow> 'h handler_store \<Rightarrow> 'h handler_store" where
  "serve_all H req [] st = st"
| "serve_all H req (r # rs) st =
     serve_all H req rs (st(r := RequestHandler_wrap (write_effect H req (mx_value (st r)))))"

definition serve_request ::
    "'h RequestHandler \<Rightarrow> ServerHandlerMap \<Rightarrow> FrameDestination \<Rightarrow> Request \<Rightarrow> 'h handler_store \<Rightarrow>
     u8 list option \<times> 'h handler_store" where
  "serve_request H handlers d req st = (case d of
      Dest_UnitId u \<Rightarrow> (case map_of (shm_handlers handlers) u of
          None \<Rightarrow> (None, st) | Some r \<Rightarrow> serve_unit H req r st)
    | Broadcast \<Rightarrow> (None, serve_all H req (map snd (shm_handlers handlers)) st))"

text \<open>
  The PDU names a range that runs past the last address. The documentation of \<open>RequestHandler\<close>
  gives this case an exception of its own, and so does the abstract server.
\<close>

fun overflowing_range :: "u8 list \<Rightarrow> bool" where
  "overflowing_range (fc # a # b # n # m # rest) \<longleftrightarrow>
     fc \<in> {0x01, 0x02, 0x03, 0x04, 0x0F, 0x10} \<and> 65536 < unat (u16_be a b) + unat (u16_be n m)"
| "overflowing_range _ \<longleftrightarrow> False"

fun serve ::
    "'h RequestHandler \<Rightarrow> ServerHandlerMap \<Rightarrow> AuthorizationType \<Rightarrow> FrameDestination \<Rightarrow> u8 list \<Rightarrow>
     'h handler_store \<Rightarrow> u8 list option \<times> 'h handler_store" where
  "serve H handlers auth d [] st = (None, st)"
| "serve H handlers auth d (fc # body) st = (case map_of function_table fc of
      None \<Rightarrow> (unless_broadcast d [fc OR 0x80, 0x01], st)
    | Some f \<Rightarrow>
        if overflowing_range (fc # body) then (unless_broadcast d [fc OR 0x80, 0x02], st)
        else (case decode_request f body of
            Ok req \<Rightarrow>
              if allows auth (addressed_unit d) req then serve_request H handlers d req st
              else (unless_broadcast d [fc OR 0x80, 0x01], st)
          | _ \<Rightarrow> (unless_broadcast d [fc OR 0x80, 0x03], st)))"

lemma function_table_get: "map_of function_table fc = FunctionCode_get fc"
  by (simp add: function_table_def FunctionCode_get_def)

lemma allows_authorized: "allows auth u req \<longleftrightarrow> AuthorizationType_is_authorized auth u req = Allow"
  by (cases auth; cases req) simp_all

lemma addressed_into_unit_id: "FrameDestination_into_unit_id d = addressed_unit d"
  by (cases d) (simp_all add: FrameDestination_into_unit_id_def addressed_unit_def UnitId_new_def UnitId_broadcast_def)

lemma exception_pdu_get:
  "FunctionCode_get fc = Some f \<Longrightarrow> exception_pdu f ex = [fc OR 0x80, ExceptionCode_to_u8 ex]"
  by (simp add: exception_pdu_def FunctionCode_as_error_def FunctionCode_get_Some)

text \<open>The code splits a broadcast into the request for it and its execution.\<close>

lemma broadcast_effect:
  "case Request_into_broadcast_request req of
     None \<Rightarrow> write_effect H req h = h
   | Some b \<Rightarrow> snd (BroadcastRequest_execute H b h) = write_effect H req h"
  by (cases req) (simp_all add: discard_def split: prod.split result.split)

text \<open>Handlers that never panic, and stores without poisoned locks.\<close>

definition handler_total :: "'h RequestHandler \<Rightarrow> bool" where
  "handler_total H \<longleftrightarrow>
     (\<forall>h a. rh_read_coil H h a \<noteq> Panic \<and> rh_read_discrete_input H h a \<noteq> Panic \<and>
        rh_read_holding_register H h a \<noteq> Panic \<and> rh_read_input_register H h a \<noteq> Panic) \<and>
     (\<forall>h x. fst (rh_write_single_coil H x h) \<noteq> Panic) \<and>
     (\<forall>h x. fst (rh_write_single_register H x h) \<noteq> Panic) \<and>
     (\<forall>h x. fst (rh_write_multiple_coils H x h) \<noteq> Panic) \<and>
     (\<forall>h x. fst (rh_write_multiple_registers H x h) \<noteq> Panic)"

definition healthy :: "'h handler_store \<Rightarrow> bool" where
  "healthy st \<longleftrightarrow> (\<forall>r. \<not> mx_poisoned (st r))"

lemma healthy_update [simp]: "healthy st \<Longrightarrow> healthy (st(r := RequestHandler_wrap h))"
  by (simp add: healthy_def RequestHandler_wrap_def)

lemma serve_all_healthy: "healthy st \<Longrightarrow> healthy (serve_all H req rs st)"
  by (induction H req rs st rule: serve_all.induct) simp_all

lemma serve_all_same:
  assumes "healthy st" and "write_effect H req = (\<lambda>h. h)"
  shows "serve_all H req rs st = st"
proof -
  have "st(r := RequestHandler_wrap (mx_value (st r))) = st" for r
    using assms(1) by (auto simp: healthy_def RequestHandler_wrap_def intro!: fun_upd_idem Mutex.equality)
  then show ?thesis using assms(2) by (induction rs) simp_all
qed

lemma read_all_total: "(\<And>a. g a \<noteq> Panic) \<Longrightarrow> read_all g as \<noteq> Panic"
  by (induction as) (auto simp: bind_result_case split: result.splits)

lemma answer_read_total: "(\<And>a. g a \<noteq> Panic) \<Longrightarrow> \<exists>pdu. answer_read f enc g r = Ok pdu"
  using read_all_total [of g] by (auto simp: answer_read_def split: result.splits)

lemma answer_write_total: "fst x \<noteq> Panic \<Longrightarrow> \<exists>pdu st'. answer_write f echo x = (Ok pdu, st')"
  by (cases x; cases "fst x") (auto simp: answer_write_def)

lemma answer_total:
  assumes "handler_total H"
  shows "\<exists>pdu st'. answer H req st = (Ok pdu, st')"
proof (cases req)
  case (Req_WriteSingleCoil x)
  then show ?thesis using assms by (simp add: answer_write_total handler_total_def)
next
  case (Req_WriteSingleRegister x)
  then show ?thesis using assms by (simp add: answer_write_total handler_total_def)
next
  case (Req_WriteMultipleCoils x)
  then show ?thesis using assms by (simp add: answer_write_total handler_total_def)
next
  case (Req_WriteMultipleRegisters x)
  then show ?thesis using assms by (simp add: answer_write_total handler_total_def)
qed (use assms in \<open>simp_all add: answer_read_total handler_total_def\<close>)

lemma execute_total:
  assumes "handler_total H"
  shows "fst (BroadcastRequest_execute H b h) = Ok ()"
  using assms by (cases b) (auto simp: discard_def handler_total_def split: prod.splits result.splits, (metis fst_conv)+)

section \<open>The session implements it\<close>

text \<open>
  \<open>replies P t h s reply x\<close>: the outcome \<open>x\<close> of handling a frame in session
  \<open>s\<close> has written the frame of the reply PDU and nothing else, or nothing at all.
\<close>

definition replies ::
    "('r, 'w, 'd, 'io) platform \<Rightarrow> FrameHeader \<Rightarrow> ('h, 'io) session \<Rightarrow> u8 list option \<times> 'h handler_store \<Rightarrow>
     (unit, RequestError) result \<times> ('h, 'io) session \<Rightarrow> bool" where
  "replies P h s y x \<longleftrightarrow> (case (y, x) of ((reply, st), (res, s')) \<Rightarrow>
     ss_store s' = st \<and> same_writer (st_writer (ss_task s)) (st_writer (ss_task s')) \<and>
     ss_task s' = (ss_task s)\<lparr>st_writer := st_writer (ss_task s')\<rparr> \<and>
     (case reply of
        None \<Rightarrow> res = Ok () \<and> ss_io s' = ss_io s
      | Some pdu \<Rightarrow> (res, ss_io s') = conv_err RequestError_from_io
            (io_write P (frame_bytes P (fw_format_type (st_writer (ss_task s))) h pdu)) (ss_io s)))"

lemma replies_none:
  "fw_wf (st_writer (ss_task s)) \<Longrightarrow> replies P h s (None, ss_store s) (Ok (), s)"
  by (simp add: replies_def same_writer_def)

context platform
begin

lemma session_exception:
  assumes fw: "fw_wf (st_writer (ss_task s))" "header_ok (fw_format_type (st_writer (ss_task s))) h"
    and fn: "fn = Field_Exception f \<or> fn = UnknownFunction u"
  shows "replies P h s
    (unless_broadcast (fh_destination h) [FunctionField_get_value fn, ExceptionCode_to_u8 ex], ss_store s)
    (SessionTask_reply_with_error_generic P h fn ex s)"
proof (cases "fh_destination h = Broadcast")
  case True
  then show ?thesis
    using fw by (simp add: SessionTask_reply_with_error_generic_def unless_broadcast_def ret_def replies_none)
next
  case False
  obtain fw' where fw': "FrameWriter_format_ex P h fn ex (st_writer (ss_task s)) =
      (Ok (frame_bytes P (fw_format_type (st_writer (ss_task s))) h
        [FunctionField_get_value fn, ExceptionCode_to_u8 ex]), fw')"
    "same_writer (st_writer (ss_task s)) fw'"
    using format_ex_wire [OF fw, of fn ex] fn by auto
  then show ?thesis
    using False
    by (simp add: SessionTask_reply_with_error_generic_def unless_broadcast_def bnd_def session_writer_def
        session_write_def replies_def split: prod.splits)
qed

lemma session_serve_unit:
  assumes fw: "fw_wf (st_writer (ss_task s))" "header_ok (fw_format_type (st_writer (ss_task s))) h"
    and req: "request_ok req" "iterable P req" and H: "handler_total H" and st: "healthy (ss_store s)"
  shows "replies P h s (serve_unit H req r (ss_store s))
    (bnd (session_reply r (Request_get_reply P H req h)) (session_write P) s)"
proof -
  obtain pdu h' where ans: "answer H req (mx_value (ss_store s r)) = (Ok pdu, h')"
    using answer_total [OF H] by blast
  obtain fw' where fw': "Request_get_reply P H req h (st_writer (ss_task s), mx_value (ss_store s r)) =
      (Ok (frame_bytes P (fw_format_type (st_writer (ss_task s))) h pdu), (fw', h'))"
    "same_writer (st_writer (ss_task s)) fw'"
    using get_reply_answer [OF fw req ans] by blast
  have "\<not> mx_poisoned (ss_store s r)" using st by (simp add: healthy_def)
  then show ?thesis
    using fw' ans
    by (simp add: serve_unit_def session_reply_def with_lock_def bnd_def session_write_def replies_def
        RequestHandler_wrap_def split: prod.splits)
qed

lemma session_serve_all:
  assumes H: "handler_total H" and st: "healthy (ss_store s)" and b: "Request_into_broadcast_request req = Some b"
  shows "for_list (session_execute (BroadcastRequest_execute H b)) rs s =
    (Ok (), s\<lparr>ss_store := serve_all H req rs (ss_store s)\<rparr>)"
  using st
proof (induction rs arbitrary: s)
  case (Cons r rs)
  have ok: "\<not> mx_poisoned (ss_store s r)" using Cons.prems by (simp add: healthy_def)
  let ?h = "write_effect H req (mx_value (ss_store s r))"
  have ex: "BroadcastRequest_execute H b (mx_value (ss_store s r)) = (Ok (), ?h)"
    using execute_total [OF H, of b "mx_value (ss_store s r)"]
      broadcast_effect [where req = req and H = H and h = "mx_value (ss_store s r)"] b
    by (intro prod_eqI) simp_all
  then have "session_execute (BroadcastRequest_execute H b) r s =
      (Ok (), s\<lparr>ss_store := (ss_store s)(r := RequestHandler_wrap ?h)\<rparr>)"
    using ok by (simp add: session_execute_def with_lock_def RequestHandler_wrap_def)
  then show ?case
    using Cons.IH [of "s\<lparr>ss_store := (ss_store s)(r := RequestHandler_wrap ?h)\<rparr>"] Cons.prems
    by (simp del: fun_upd_apply)
qed simp

lemma session_serve_request:
  assumes fw: "fw_wf (st_writer (ss_task s))" "header_ok (fw_format_type (st_writer (ss_task s))) h"
    and req: "request_ok req" "iterable P req" and H: "handler_total H" and st: "healthy (ss_store s)"
  shows "replies P h s (serve_request H (st_handlers (ss_task s)) (fh_destination h) req (ss_store s))
    (SessionTask_handle_request P H h req s)"
proof (cases "fh_destination h")
  case (Dest_UnitId u)
  then show ?thesis
    using session_serve_unit [OF fw req H st] replies_none [OF fw(1), of P h]
    by (simp add: serve_request_def SessionTask_handle_request_def ServerHandlerMap_get_def bt_get_def split: option.splits)
next
  case Broadcast
  let ?rs = "ServerHandlerMap_iter_mut (st_handlers (ss_task s))"
  have rs: "map snd (shm_handlers (st_handlers (ss_task s))) = ?rs" by (simp add: ServerHandlerMap_iter_mut_def bt_values_def)
  show ?thesis
  proof (cases "Request_into_broadcast_request req")
    case None
    then have "write_effect H req = (\<lambda>h. h)" using broadcast_effect [where req = req and H = H] by auto
    then show ?thesis
      using Broadcast None serve_all_same [OF st, of H req] replies_none [OF fw(1), of P h]
      by (simp add: serve_request_def SessionTask_handle_request_def)
  next
    case (Some b)
    then show ?thesis
      using Broadcast session_serve_all [OF H st Some] fw(1) rs
      by (simp add: serve_request_def SessionTask_handle_request_def replies_def same_writer_def)
  qed
qed

text \<open>A frame with a request that cannot be read is answered with the exception for an illegal value.\<close>

lemma handle_frame_undecoded:
  assumes fw: "fw_wf (st_writer (ss_task s))"
      "header_ok (fw_format_type (st_writer (ss_task s))) (fr_header frame)"
    and "Frame_payload frame = fc # body" and "FunctionCode_get fc = Some f" and "decode_request f body = Err e"
  shows "replies P (fr_header frame) s
    (unless_broadcast (fh_destination (fr_header frame)) [fc OR 0x80, 0x03], ss_store s)
    (SessionTask_handle_frame P H frame s)"
proof -
  obtain c' where c': "rc_read_u8 P (rc_new P (Frame_payload frame)) = (Ok fc, c')" "rview c' = body"
    using rc_read_u8_Cons [of "rc_new P (Frame_payload frame)" fc body] assms(3) by (auto simp: rc_new)
  obtain res c2 where p: "Request_parse P f c' = (res, c2)" by fastforce
  then have "res = Err e" using Request_parse_decode [of f c'] c'(2) assms(5) by simp
  then show ?thesis
    using session_exception [OF fw, of "Field_Exception f" f _ IllegalDataValue] assms(4) c' p
    by (simp add: SessionTask_handle_frame_def SessionTask_reply_with_error_def Let_def FunctionCode_as_error_def
        FunctionCode_get_Some)
qed

text \<open>The destination and payload decide everything that \<open>handle_frame\<close> does.\<close>

lemma handle_frame_serve:
  assumes fw: "fw_wf (st_writer (ss_task s))"
      "header_ok (fw_format_type (st_writer (ss_task s))) (fr_header frame)"
    and ov: "\<not> overflowing_range (Frame_payload frame)"
    and it: "\<And>f body req. Frame_payload frame = FunctionCode_get_value f # body \<Longrightarrow>
      decode_request f body = Ok req \<Longrightarrow> iterable P req"
    and H: "handler_total H" and st: "healthy (ss_store s)"
  shows "replies P (fr_header frame) s
    (serve H (st_handlers (ss_task s)) (st_auth (ss_task s)) (fh_destination (fr_header frame))
      (Frame_payload frame) (ss_store s))
    (SessionTask_handle_frame P H frame s)"
proof (cases "Frame_payload frame")
  case Nil
  then obtain c' where "rc_read_u8 P (rc_new P (Frame_payload frame)) = (Err ReadError, c')"
    using rc_read_u8_Nil [of "rc_new P (Frame_payload frame)"] by (auto simp: rc_new)
  then show ?thesis
    using Nil replies_none [OF fw(1), of P "fr_header frame"] by (simp add: SessionTask_handle_frame_def Let_def)
next
  case (Cons fc body)
  then obtain c' where c': "rc_read_u8 P (rc_new P (Frame_payload frame)) = (Ok fc, c')" "rview c' = body"
    using rc_read_u8_Cons [of "rc_new P (Frame_payload frame)" fc body] by (auto simp: rc_new)
  let ?h = "fr_header frame"
  show ?thesis
  proof (cases "FunctionCode_get fc")
    case None
    then show ?thesis
      using session_exception [OF fw, of "UnknownFunction fc" _ fc IllegalFunction] Cons c'
      by (simp add: SessionTask_handle_frame_def Let_def FunctionField_unknown_def function_table_get)
  next
    case (Some f)
    obtain res c2 where p: "Request_parse P f c' = (res, c2)" by fastforce
    then have res: "decode_request f body = res" using Request_parse_decode [of f c'] c'(2) by simp
    have denied: "replies P ?h s (unless_broadcast (fh_destination ?h) [fc OR 0x80, 0x01], ss_store s)
        (SessionTask_reply_with_error P ?h f IllegalFunction s)"
      using session_exception [OF fw, of "Field_Exception f" f _ IllegalFunction] Some
      by (simp add: SessionTask_reply_with_error_def FunctionCode_as_error_def FunctionCode_get_Some)
    have none: "replies P ?h s (None, ss_store s) (Ok (), s)" by (rule replies_none [OF fw(1)])
    show ?thesis
    proof (cases res)
      case (Ok req)
      have ok: "request_ok req" "Request_get_function req = f" using decode_request_ok res Ok by blast+
      have "fc = FunctionCode_get_value f" using Some by (simp add: FunctionCode_get_Some)
      then have iter: "iterable P req" using it Cons res Ok by blast
      note served = session_serve_request [OF fw ok(1) iter H st]
      have run: "SessionTask_handle_frame P H frame s =
          (if allows (st_auth (ss_task s)) (addressed_unit (fh_destination ?h)) req then SessionTask_handle_request P H ?h req s
           else if fh_destination ?h = Broadcast then (result.Ok (), s)
           else SessionTask_reply_with_error P ?h f IllegalFunction s)"
        using Some Cons c' p res Ok ok(2)
        by (simp add: SessionTask_handle_frame_def Let_def FrameDestination_is_broadcast_def allows_authorized
            addressed_into_unit_id split: Authorization.split)
      show ?thesis
        unfolding run using Some Cons res Ok ov denied none served
        by (auto simp: function_table_get unless_broadcast_def)
    next
      case (Err e)
      then show ?thesis
        using handle_frame_undecoded [OF fw Cons Some] Some Cons res ov by (simp add: function_table_get)
    next
      case Panic
      then show ?thesis using res decode_request_no_panic by simp
    qed
  qed
qed

end

section \<open>Ranges that overflow\<close>

text \<open>Such a request is never accepted, and a request that is accepted names no such range.\<close>

lemma overflowing_undecoded:
  assumes "overflowing_range (fc # body)" and "FunctionCode_get fc = Some f"
  shows "\<exists>e. decode_request f body = Err e"
proof -
  obtain a b n m rest where body: "body = a # b # n # m # rest" and fc: "fc \<in> {0x01, 0x02, 0x03, 0x04, 0x0F, 0x10}"
    and big: "65536 < unat (u16_be a b) + unat (u16_be n m)"
    using assms(1) by (cases "fc # body" rule: overflowing_range.cases) auto
  have "u16_be n m \<noteq> 0" using big unsigned_less [where ?'a = nat, of "u16_be a b"] by auto
  then have "range_of (u16_be a b) (u16_be n m) = Err (RequestError_from_InvalidRange (AddressOverflow (u16_be a b) (u16_be n m)))"
    using big by (simp add: range_of_def AddressRange_try_from_eq)
  then show ?thesis using assms(2) fc body by (cases f) (simp_all add: FunctionCode_get_Some)
qed

lemma decoded_no_overflow:
  assumes "decode_request f body = Ok req"
  shows "\<not> overflowing_range (FunctionCode_get_value f # body)"
  using overflowing_undecoded [of "FunctionCode_get_value f" body f] assms by auto

end
