(* ===== verification/ClientMessage.thy ===== *)
theory ClientMessage
  imports ServerRequest
begin

text \<open>
  Requests as the client sees them: \<open>rodbus/src/client/message.rs\<close> and the request types
  under \<open>rodbus/src/client/requests/\<close>. A promise holds a callback, named by a number, until
  it is completed; the log records every invocation of a callback with its argument. Dropping a
  promise that has not been completed completes it with \<open>Shutdown\<close>.
\<close>

section \<open>Promises\<close>

type_synonym callback = nat

datatype reply_value =
    Reply_Bits BitIterator
  | Reply_Registers RegisterIterator
  | Reply_Coil "bool Indexed"
  | Reply_Register "u16 Indexed"
  | Reply_Range AddressRange

type_synonym completion = "callback \<times> (reply_value, RequestError) result"
type_synonym completions = "completion list"

record Promise =
  pr_callback :: "callback option"

definition Promise_new :: "callback \<Rightarrow> Promise" where
  "Promise_new callback = \<lparr>pr_callback = Some callback\<rparr>"

definition Promise_complete ::
    "(reply_value, RequestError) result \<Rightarrow> Promise \<Rightarrow> completions \<Rightarrow> Promise \<times> completions" where
  "Promise_complete res p log = (case pr_callback p of
      Some callback \<Rightarrow> (p\<lparr>pr_callback := None\<rparr>, log @ [(callback, res)])
    | None \<Rightarrow> (p, log))"

definition Promise_failure :: "RequestError \<Rightarrow> Promise \<Rightarrow> completions \<Rightarrow> Promise \<times> completions" where
  "Promise_failure err p log = Promise_complete (Err err) p log"

definition Promise_success :: "reply_value \<Rightarrow> Promise \<Rightarrow> completions \<Rightarrow> Promise \<times> completions" where
  "Promise_success value p log = Promise_complete (Ok value) p log"

definition Promise_drop :: "Promise \<Rightarrow> completions \<Rightarrow> completions" where
  "Promise_drop p log = snd (Promise_failure RequestShutdown p log)"

text \<open>
  The two read requests have promise types of their own, with the same operations on an iterator
  instead of a value.
\<close>

definition BitsPromise_new :: "callback \<Rightarrow> Promise" where
  "BitsPromise_new callback = \<lparr>pr_callback = Some callback\<rparr>"

definition BitsPromise_complete ::
    "(BitIterator, RequestError) result \<Rightarrow> Promise \<Rightarrow> completions \<Rightarrow> Promise \<times> completions" where
  "BitsPromise_complete res p log = (case pr_callback p of
      Some callback \<Rightarrow> (p\<lparr>pr_callback := None\<rparr>, log @ [(callback, bind_result res (\<lambda>it. Ok (Reply_Bits it)))])
    | None \<Rightarrow> (p, log))"

definition BitsPromise_failure :: "RequestError \<Rightarrow> Promise \<Rightarrow> completions \<Rightarrow> Promise \<times> completions" where
  "BitsPromise_failure err p log = BitsPromise_complete (Err err) p log"

definition BitsPromise_success :: "BitIterator \<Rightarrow> Promise \<Rightarrow> completions \<Rightarrow> Promise \<times> completions" where
  "BitsPromise_success iter p log = BitsPromise_complete (Ok iter) p log"

definition BitsPromise_drop :: "Promise \<Rightarrow> completions \<Rightarrow> completions" where
  "BitsPromise_drop p log = snd (BitsPromise_failure RequestShutdown p log)"

definition RegistersPromise_new :: "callback \<Rightarrow> Promise" where
  "RegistersPromise_new callback = \<lparr>pr_callback = Some callback\<rparr>"

definition RegistersPromise_complete ::
    "(RegisterIterator, RequestError) result \<Rightarrow> Promise \<Rightarrow> completions \<Rightarrow> Promise \<times> completions" where
  "RegistersPromise_complete x p log = (case pr_callback p of
      Some callback \<Rightarrow> (p\<lparr>pr_callback := None\<rparr>, log @ [(callback, bind_result x (\<lambda>it. Ok (Reply_Registers it)))])
    | None \<Rightarrow> (p, log))"

definition RegistersPromise_failure :: "RequestError \<Rightarrow> Promise \<Rightarrow> completions \<Rightarrow> Promise \<times> completions" where
  "RegistersPromise_failure err p log = RegistersPromise_complete (Err err) p log"

definition RegistersPromise_success :: "RegisterIterator \<Rightarrow> Promise \<Rightarrow> completions \<Rightarrow> Promise \<times> completions" where
  "RegistersPromise_success iter p log = RegistersPromise_complete (Ok iter) p log"

definition RegistersPromise_drop :: "Promise \<Rightarrow> completions \<Rightarrow> completions" where
  "RegistersPromise_drop p log = snd (RegistersPromise_failure RequestShutdown p log)"

text \<open>All three are the same promise.\<close>

lemma read_promises:
  "BitsPromise_new = Promise_new" "RegistersPromise_new = Promise_new"
  "BitsPromise_failure = Promise_failure" "RegistersPromise_failure = Promise_failure"
  "BitsPromise_success it = Promise_success (Reply_Bits it)"
  "RegistersPromise_success rt = Promise_success (Reply_Registers rt)"
  "BitsPromise_drop = Promise_drop" "RegistersPromise_drop = Promise_drop"
proof -
  show bf: "BitsPromise_failure = Promise_failure" and rf: "RegistersPromise_failure = Promise_failure"
    by (simp_all add: fun_eq_iff BitsPromise_failure_def BitsPromise_complete_def RegistersPromise_failure_def
        RegistersPromise_complete_def Promise_failure_def Promise_complete_def split: option.splits)
  show "BitsPromise_drop = Promise_drop" "RegistersPromise_drop = Promise_drop"
    by (simp_all add: fun_eq_iff BitsPromise_drop_def RegistersPromise_drop_def Promise_drop_def bf rf)
qed (simp_all add: fun_eq_iff BitsPromise_new_def RegistersPromise_new_def Promise_new_def BitsPromise_success_def
    BitsPromise_complete_def RegistersPromise_success_def RegistersPromise_complete_def Promise_success_def
    Promise_complete_def split: option.splits)

section \<open>Request types\<close>

record ReadBits =
  rdb_request :: ReadBitsRange
  rdb_promise :: Promise

record ReadRegisters =
  rdr_request :: ReadRegistersRange
  rdr_promise :: Promise

record 'a SingleWrite =
  sw_request :: 'a
  sw_promise :: Promise

record 'a MultipleWriteRequest =
  mw_request :: "'a WriteMultiple"
  mw_promise :: Promise

definition ReadBits_new :: "ReadBitsRange \<Rightarrow> Promise \<Rightarrow> ReadBits" where
  "ReadBits_new request promise = \<lparr>rdb_request = request, rdb_promise = promise\<rparr>"

definition ReadRegisters_new :: "ReadRegistersRange \<Rightarrow> Promise \<Rightarrow> ReadRegisters" where
  "ReadRegisters_new request promise = \<lparr>rdr_request = request, rdr_promise = promise\<rparr>"

definition SingleWrite_new :: "'a \<Rightarrow> Promise \<Rightarrow> 'a SingleWrite" where
  "SingleWrite_new request promise = \<lparr>sw_request = request, sw_promise = promise\<rparr>"

definition MultipleWriteRequest_new :: "'a WriteMultiple \<Rightarrow> Promise \<Rightarrow> 'a MultipleWriteRequest" where
  "MultipleWriteRequest_new request promise = \<lparr>mw_request = request, mw_promise = promise\<rparr>"

text \<open>\<open>failure\<close> of each type.\<close>

definition ReadBits_failure :: "RequestError \<Rightarrow> ReadBits \<Rightarrow> completions \<Rightarrow> ReadBits \<times> completions" where
  "ReadBits_failure err x log =
     (case BitsPromise_failure err (rdb_promise x) log of (p, log') \<Rightarrow> (x\<lparr>rdb_promise := p\<rparr>, log'))"

definition ReadRegisters_failure :: "RequestError \<Rightarrow> ReadRegisters \<Rightarrow> completions \<Rightarrow> ReadRegisters \<times> completions" where
  "ReadRegisters_failure err x log =
     (case RegistersPromise_failure err (rdr_promise x) log of (p, log') \<Rightarrow> (x\<lparr>rdr_promise := p\<rparr>, log'))"

definition SingleWrite_failure :: "RequestError \<Rightarrow> 'a SingleWrite \<Rightarrow> completions \<Rightarrow> 'a SingleWrite \<times> completions" where
  "SingleWrite_failure err x log =
     (case Promise_failure err (sw_promise x) log of (p, log') \<Rightarrow> (x\<lparr>sw_promise := p\<rparr>, log'))"

definition MultipleWriteRequest_failure ::
    "RequestError \<Rightarrow> 'a MultipleWriteRequest \<Rightarrow> completions \<Rightarrow> 'a MultipleWriteRequest \<times> completions" where
  "MultipleWriteRequest_failure err x log =
     (case Promise_failure err (mw_promise x) log of (p, log') \<Rightarrow> (x\<lparr>mw_promise := p\<rparr>, log'))"

datatype RequestDetails =
    Det_ReadCoils ReadBits
  | Det_ReadDiscreteInputs ReadBits
  | Det_ReadHoldingRegisters ReadRegisters
  | Det_ReadInputRegisters ReadRegisters
  | Det_WriteSingleCoil "bool Indexed SingleWrite"
  | Det_WriteSingleRegister "u16 Indexed SingleWrite"
  | Det_WriteMultipleCoils "bool MultipleWriteRequest"
  | Det_WriteMultipleRegisters "u16 MultipleWriteRequest"

text \<open>The response of a read: a byte count that is not used, and the values.\<close>

definition parse_bits_response ::
    "('r, 'w, 'd, 'io) platform \<Rightarrow> AddressRange \<Rightarrow> ('r, BitIterator, RequestError) se" where
  "parse_bits_response P rng = bnd (read_u8 P) (\<lambda>_. BitIterator_parse_all P rng)"

definition parse_registers_response ::
    "('r, 'w, 'd, 'io) platform \<Rightarrow> AddressRange \<Rightarrow> ('r, RegisterIterator, RequestError) se" where
  "parse_registers_response P rng = bnd (read_u8 P) (\<lambda>_. RegisterIterator_parse_all P rng)"

definition SingleWriteBool_serialize ::
    "('r, 'w, 'd, 'io) platform \<Rightarrow> bool Indexed \<Rightarrow> ('w, unit, RequestError) se" where
  "SingleWriteBool_serialize P x =
     bnd (write_u16_be P (ix_index x)) (\<lambda>_.
       bnd (write_u16_be P (coil_to_u16 (ix_value x))) (\<lambda>_. ret ()))"

definition SingleWriteU16_serialize ::
    "('r, 'w, 'd, 'io) platform \<Rightarrow> u16 Indexed \<Rightarrow> ('w, unit, RequestError) se" where
  "SingleWriteU16_serialize P x =
     bnd (write_u16_be P (ix_index x)) (\<lambda>_. bnd (write_u16_be P (ix_value x)) (\<lambda>_. ret ()))"

definition SingleWriteBool_parse :: "('r, 'w, 'd, 'io) platform \<Rightarrow> ('r, bool Indexed, RequestError) se" where
  "SingleWriteBool_parse P =
     bnd (read_u16_be P) (\<lambda>index. bnd (read_u16_be P) (\<lambda>raw.
       bnd (lift_result (map_err RequestError_from_AduParseError (coil_from_u16 raw)))
         (\<lambda>value. ret (Indexed_new index value))))"

definition SingleWriteU16_parse :: "('r, 'w, 'd, 'io) platform \<Rightarrow> ('r, u16 Indexed, RequestError) se" where
  "SingleWriteU16_parse P =
     bnd (read_u16_be P) (\<lambda>index. bnd (read_u16_be P) (\<lambda>value. ret (Indexed_new index value)))"

definition SingleWrite_parse_all ::
    "('r, 'w, 'd, 'io) platform \<Rightarrow> ('r, 'a, RequestError) se \<Rightarrow> 'a \<Rightarrow> ('r, 'a, RequestError) se" where
  "SingleWrite_parse_all P parse request =
     bnd parse (\<lambda>response. bnd (expect_empty P) (\<lambda>_.
       if request \<noteq> response then fail (RequestError_from_AduParseError ReplyEchoMismatch)
       else ret response))"

definition MultipleWrite_parse_all ::
    "('r, 'w, 'd, 'io) platform \<Rightarrow> AddressRange \<Rightarrow> ('r, AddressRange, RequestError) se" where
  "MultipleWrite_parse_all P expected =
     bnd (AddressRange_parse P) (\<lambda>rng.
       if rng \<noteq> expected then fail (BadResponse ReplyEchoMismatch)
       else bnd (expect_empty P) (\<lambda>_. ret rng))"

text \<open>\<open>handle_response\<close> of each type: parse, then complete the promise with the value.\<close>

definition ReadBits_handle_response ::
    "('r, 'w, 'd, 'io) platform \<Rightarrow> 'r \<Rightarrow> (ReadBits \<times> completions, unit, RequestError) se" where
  "ReadBits_handle_response P cursor s = (case s of (x, log) \<Rightarrow>
     (case fst (parse_bits_response P (rbr_inner (rdb_request x)) cursor) of
        Ok response \<Rightarrow> (case BitsPromise_success response (rdb_promise x) log of
            (p, log') \<Rightarrow> (Ok (), (x\<lparr>rdb_promise := p\<rparr>, log')))
      | Err e \<Rightarrow> (Err e, s) | Panic \<Rightarrow> (Panic, s)))"

definition ReadRegisters_handle_response ::
    "('r, 'w, 'd, 'io) platform \<Rightarrow> 'r \<Rightarrow> (ReadRegisters \<times> completions, unit, RequestError) se" where
  "ReadRegisters_handle_response P cursor s = (case s of (x, log) \<Rightarrow>
     (case fst (parse_registers_response P (rrr_inner (rdr_request x)) cursor) of
        Ok response \<Rightarrow> (case RegistersPromise_success response (rdr_promise x) log of
            (p, log') \<Rightarrow> (Ok (), (x\<lparr>rdr_promise := p\<rparr>, log')))
      | Err e \<Rightarrow> (Err e, s) | Panic \<Rightarrow> (Panic, s)))"

definition SingleWrite_handle_response ::
    "('r, 'w, 'd, 'io) platform \<Rightarrow> ('r, 'a, RequestError) se \<Rightarrow> ('a \<Rightarrow> reply_value) \<Rightarrow> 'r \<Rightarrow>
     ('a SingleWrite \<times> completions, unit, RequestError) se" where
  "SingleWrite_handle_response P parse wrap cursor s = (case s of (x, log) \<Rightarrow>
     (case fst (SingleWrite_parse_all P parse (sw_request x) cursor) of
        Ok response \<Rightarrow> (case Promise_success (wrap response) (sw_promise x) log of
            (p, log') \<Rightarrow> (Ok (), (x\<lparr>sw_promise := p\<rparr>, log')))
      | Err e \<Rightarrow> (Err e, s) | Panic \<Rightarrow> (Panic, s)))"

definition MultipleWriteRequest_handle_response ::
    "('r, 'w, 'd, 'io) platform \<Rightarrow> 'r \<Rightarrow> ('a MultipleWriteRequest \<times> completions, unit, RequestError) se" where
  "MultipleWriteRequest_handle_response P cursor s = (case s of (x, log) \<Rightarrow>
     (case fst (MultipleWrite_parse_all P (wm_range (mw_request x)) cursor) of
        Ok response \<Rightarrow> (case Promise_success (Reply_Range response) (mw_promise x) log of
            (p, log') \<Rightarrow> (Ok (), (x\<lparr>mw_promise := p\<rparr>, log')))
      | Err e \<Rightarrow> (Err e, s) | Panic \<Rightarrow> (Panic, s)))"

section \<open>Operations on request details\<close>

fun RequestDetails_function :: "RequestDetails \<Rightarrow> FunctionCode" where
  "RequestDetails_function (Det_ReadCoils _) = ReadCoils"
| "RequestDetails_function (Det_ReadDiscreteInputs _) = ReadDiscreteInputs"
| "RequestDetails_function (Det_ReadHoldingRegisters _) = ReadHoldingRegisters"
| "RequestDetails_function (Det_ReadInputRegisters _) = ReadInputRegisters"
| "RequestDetails_function (Det_WriteSingleCoil _) = WriteSingleCoil"
| "RequestDetails_function (Det_WriteSingleRegister _) = WriteSingleRegister"
| "RequestDetails_function (Det_WriteMultipleCoils _) = WriteMultipleCoils"
| "RequestDetails_function (Det_WriteMultipleRegisters _) = WriteMultipleRegisters"

fun RequestDetails_serialize ::
    "('r, 'w, 'd, 'io) platform \<Rightarrow> RequestDetails \<Rightarrow> ('w, unit, RequestError) se" where
  "RequestDetails_serialize P (Det_ReadCoils x) = AddressRange_serialize P (rbr_inner (rdb_request x))"
| "RequestDetails_serialize P (Det_ReadDiscreteInputs x) = AddressRange_serialize P (rbr_inner (rdb_request x))"
| "RequestDetails_serialize P (Det_ReadHoldingRegisters x) = AddressRange_serialize P (rrr_inner (rdr_request x))"
| "RequestDetails_serialize P (Det_ReadInputRegisters x) = AddressRange_serialize P (rrr_inner (rdr_request x))"
| "RequestDetails_serialize P (Det_WriteSingleCoil x) = SingleWriteBool_serialize P (sw_request x)"
| "RequestDetails_serialize P (Det_WriteSingleRegister x) = SingleWriteU16_serialize P (sw_request x)"
| "RequestDetails_serialize P (Det_WriteMultipleCoils x) = WriteMultipleBool_serialize P (mw_request x)"
| "RequestDetails_serialize P (Det_WriteMultipleRegisters x) = WriteMultipleU16_serialize P (mw_request x)"

text \<open>The promise inside a request, and the request with another promise.\<close>

fun details_promise :: "RequestDetails \<Rightarrow> Promise" where
  "details_promise (Det_ReadCoils x) = rdb_promise x"
| "details_promise (Det_ReadDiscreteInputs x) = rdb_promise x"
| "details_promise (Det_ReadHoldingRegisters x) = rdr_promise x"
| "details_promise (Det_ReadInputRegisters x) = rdr_promise x"
| "details_promise (Det_WriteSingleCoil x) = sw_promise x"
| "details_promise (Det_WriteSingleRegister x) = sw_promise x"
| "details_promise (Det_WriteMultipleCoils x) = mw_promise x"
| "details_promise (Det_WriteMultipleRegisters x) = mw_promise x"

fun with_promise :: "Promise \<Rightarrow> RequestDetails \<Rightarrow> RequestDetails" where
  "with_promise p (Det_ReadCoils x) = Det_ReadCoils (x\<lparr>rdb_promise := p\<rparr>)"
| "with_promise p (Det_ReadDiscreteInputs x) = Det_ReadDiscreteInputs (x\<lparr>rdb_promise := p\<rparr>)"
| "with_promise p (Det_ReadHoldingRegisters x) = Det_ReadHoldingRegisters (x\<lparr>rdr_promise := p\<rparr>)"
| "with_promise p (Det_ReadInputRegisters x) = Det_ReadInputRegisters (x\<lparr>rdr_promise := p\<rparr>)"
| "with_promise p (Det_WriteSingleCoil x) = Det_WriteSingleCoil (x\<lparr>sw_promise := p\<rparr>)"
| "with_promise p (Det_WriteSingleRegister x) = Det_WriteSingleRegister (x\<lparr>sw_promise := p\<rparr>)"
| "with_promise p (Det_WriteMultipleCoils x) = Det_WriteMultipleCoils (x\<lparr>mw_promise := p\<rparr>)"
| "with_promise p (Det_WriteMultipleRegisters x) = Det_WriteMultipleRegisters (x\<lparr>mw_promise := p\<rparr>)"

lemma details_promise_with_promise [simp]: "details_promise (with_promise p d) = p"
  by (cases d) simp_all

lemma function_with_promise [simp]: "RequestDetails_function (with_promise p d) = RequestDetails_function d"
  by (cases d) simp_all

text \<open>The same operation under the constructor of a variant.\<close>

definition under :: "('x \<Rightarrow> RequestDetails) \<Rightarrow> 'x \<times> completions \<Rightarrow> RequestDetails \<times> completions" where
  "under c y = (case y of (x, log) \<Rightarrow> (c x, log))"

definition under_res ::
    "('x \<Rightarrow> RequestDetails) \<Rightarrow> (unit, RequestError) result \<times> ('x \<times> completions) \<Rightarrow>
     (unit, RequestError) result \<times> (RequestDetails \<times> completions)" where
  "under_res c y = (case y of (r, x, log) \<Rightarrow> (r, c x, log))"

fun RequestDetails_fail :: "RequestError \<Rightarrow> RequestDetails \<Rightarrow> completions \<Rightarrow> RequestDetails \<times> completions" where
  "RequestDetails_fail err (Det_ReadCoils x) log = under Det_ReadCoils (ReadBits_failure err x log)"
| "RequestDetails_fail err (Det_ReadDiscreteInputs x) log = under Det_ReadDiscreteInputs (ReadBits_failure err x log)"
| "RequestDetails_fail err (Det_ReadHoldingRegisters x) log =
     under Det_ReadHoldingRegisters (ReadRegisters_failure err x log)"
| "RequestDetails_fail err (Det_ReadInputRegisters x) log =
     under Det_ReadInputRegisters (ReadRegisters_failure err x log)"
| "RequestDetails_fail err (Det_WriteSingleCoil x) log = under Det_WriteSingleCoil (SingleWrite_failure err x log)"
| "RequestDetails_fail err (Det_WriteSingleRegister x) log =
     under Det_WriteSingleRegister (SingleWrite_failure err x log)"
| "RequestDetails_fail err (Det_WriteMultipleCoils x) log =
     under Det_WriteMultipleCoils (MultipleWriteRequest_failure err x log)"
| "RequestDetails_fail err (Det_WriteMultipleRegisters x) log =
     under Det_WriteMultipleRegisters (MultipleWriteRequest_failure err x log)"

fun RequestDetails_handle_response ::
    "('r, 'w, 'd, 'io) platform \<Rightarrow> 'r \<Rightarrow> (RequestDetails \<times> completions, unit, RequestError) se" where
  "RequestDetails_handle_response P cursor (Det_ReadCoils x, log) =
     under_res Det_ReadCoils (ReadBits_handle_response P cursor (x, log))"
| "RequestDetails_handle_response P cursor (Det_ReadDiscreteInputs x, log) =
     under_res Det_ReadDiscreteInputs (ReadBits_handle_response P cursor (x, log))"
| "RequestDetails_handle_response P cursor (Det_ReadHoldingRegisters x, log) =
     under_res Det_ReadHoldingRegisters (ReadRegisters_handle_response P cursor (x, log))"
| "RequestDetails_handle_response P cursor (Det_ReadInputRegisters x, log) =
     under_res Det_ReadInputRegisters (ReadRegisters_handle_response P cursor (x, log))"
| "RequestDetails_handle_response P cursor (Det_WriteSingleCoil x, log) =
     under_res Det_WriteSingleCoil
       (SingleWrite_handle_response P (SingleWriteBool_parse P) Reply_Coil cursor (x, log))"
| "RequestDetails_handle_response P cursor (Det_WriteSingleRegister x, log) =
     under_res Det_WriteSingleRegister
       (SingleWrite_handle_response P (SingleWriteU16_parse P) Reply_Register cursor (x, log))"
| "RequestDetails_handle_response P cursor (Det_WriteMultipleCoils x, log) =
     under_res Det_WriteMultipleCoils (MultipleWriteRequest_handle_response P cursor (x, log))"
| "RequestDetails_handle_response P cursor (Det_WriteMultipleRegisters x, log) =
     under_res Det_WriteMultipleRegisters (MultipleWriteRequest_handle_response P cursor (x, log))"

section \<open>Requests\<close>

record ClientRequest =
  cr_id :: UnitId
  cr_timeout :: nat
  cr_details :: RequestDetails

definition Request_new :: "UnitId \<Rightarrow> nat \<Rightarrow> RequestDetails \<Rightarrow> ClientRequest" where
  "Request_new i timeout details = \<lparr>cr_id = i, cr_timeout = timeout, cr_details = details\<rparr>"

definition Request_get_error_for ::
    "('r, 'w, 'd, 'io) platform \<Rightarrow> u8 \<Rightarrow> FunctionCode \<Rightarrow> 'r \<Rightarrow> (RequestError, RequestError) result" where
  "Request_get_error_for P function expected_function cursor =
     (if function = FunctionCode_as_error expected_function
      then (case rc_read_u8 P cursor of
              (Ok x, cursor') \<Rightarrow>
                let ex = ExceptionCode_from_u8 x in
                if rc_is_empty P cursor' then Ok (Exception ex)
                else Ok (BadResponse (TrailingBytes (rc_remaining P cursor')))
            | (Err err, _) \<Rightarrow> Ok (RequestError_from_ReadError err)
            | (Panic, _) \<Rightarrow> Panic)
      else Ok (BadResponse (UnknownResponseFunction function
             (FunctionCode_get_value expected_function) (FunctionCode_as_error expected_function))))"

definition Request_handle_response ::
    "('r, 'w, 'd, 'io) platform \<Rightarrow> u8 list \<Rightarrow> (RequestDetails \<times> completions, unit, RequestError) se" where
  "Request_handle_response P payload s =
     (let expected_function = RequestDetails_function (fst s); cursor = rc_new P payload in
      case rc_read_u8 P cursor of
        (Err err, _) \<Rightarrow> (Err (RequestError_from_ReadError err), s)
      | (Panic, _) \<Rightarrow> (Panic, s)
      | (Ok function, cursor') \<Rightarrow>
          if function \<noteq> FunctionCode_get_value expected_function
          then (case Request_get_error_for P function expected_function cursor' of
                  Ok e \<Rightarrow> (Err e, s) | Err e \<Rightarrow> (Err e, s) | Panic \<Rightarrow> (Panic, s))
          else RequestDetails_handle_response P cursor' s)"

text \<open>Dropping a request drops its promise.\<close>

definition Request_drop :: "RequestDetails \<Rightarrow> completions \<Rightarrow> completions" where
  "Request_drop d log = Promise_drop (details_promise d) log"

section \<open>All variants at once\<close>

text \<open>
  The operations of the eight variants differ only in the parser: a failure and a success reach
  the promise of the request, whichever it is.
\<close>

definition details_succeed :: "reply_value \<Rightarrow> RequestDetails \<Rightarrow> completions \<Rightarrow> RequestDetails \<times> completions" where
  "details_succeed value d log =
     (case Promise_success value (details_promise d) log of (p, log') \<Rightarrow> (with_promise p d, log'))"

fun parse_response ::
    "('r, 'w, 'd, 'io) platform \<Rightarrow> RequestDetails \<Rightarrow> 'r \<Rightarrow> (reply_value, RequestError) result" where
  "parse_response P (Det_ReadCoils x) cursor =
     bind_result (fst (parse_bits_response P (rbr_inner (rdb_request x)) cursor)) (\<lambda>v. Ok (Reply_Bits v))"
| "parse_response P (Det_ReadDiscreteInputs x) cursor =
     bind_result (fst (parse_bits_response P (rbr_inner (rdb_request x)) cursor)) (\<lambda>v. Ok (Reply_Bits v))"
| "parse_response P (Det_ReadHoldingRegisters x) cursor =
     bind_result (fst (parse_registers_response P (rrr_inner (rdr_request x)) cursor)) (\<lambda>v. Ok (Reply_Registers v))"
| "parse_response P (Det_ReadInputRegisters x) cursor =
     bind_result (fst (parse_registers_response P (rrr_inner (rdr_request x)) cursor)) (\<lambda>v. Ok (Reply_Registers v))"
| "parse_response P (Det_WriteSingleCoil x) cursor =
     bind_result (fst (SingleWrite_parse_all P (SingleWriteBool_parse P) (sw_request x) cursor)) (\<lambda>v. Ok (Reply_Coil v))"
| "parse_response P (Det_WriteSingleRegister x) cursor =
     bind_result (fst (SingleWrite_parse_all P (SingleWriteU16_parse P) (sw_request x) cursor)) (\<lambda>v. Ok (Reply_Register v))"
| "parse_response P (Det_WriteMultipleCoils x) cursor =
     bind_result (fst (MultipleWrite_parse_all P (wm_range (mw_request x)) cursor)) (\<lambda>v. Ok (Reply_Range v))"
| "parse_response P (Det_WriteMultipleRegisters x) cursor =
     bind_result (fst (MultipleWrite_parse_all P (wm_range (mw_request x)) cursor)) (\<lambda>v. Ok (Reply_Range v))"

lemma RequestDetails_fail_eq:
  "RequestDetails_fail err d log =
     (case Promise_failure err (details_promise d) log of (p, log') \<Rightarrow> (with_promise p d, log'))"
  by (cases d) (simp_all add: under_def ReadBits_failure_def ReadRegisters_failure_def SingleWrite_failure_def
      MultipleWriteRequest_failure_def read_promises split: prod.splits)

lemma RequestDetails_handle_response_eq:
  "RequestDetails_handle_response P cursor (d, log) = (case parse_response P d cursor of
     Ok value \<Rightarrow> (Ok (), details_succeed value d log) | Err e \<Rightarrow> (Err e, (d, log)) | Panic \<Rightarrow> (Panic, (d, log)))"
  by (cases d) (simp_all add: under_res_def ReadBits_handle_response_def ReadRegisters_handle_response_def
      SingleWrite_handle_response_def MultipleWriteRequest_handle_response_def details_succeed_def
      bind_result_case read_promises split: prod.splits result.splits)

section \<open>A promise is completed exactly once\<close>

text \<open>
  Every attempt to complete a promise, and its drop, in any order: the callback runs once, with
  the first result.
\<close>

fun complete_all :: "(reply_value, RequestError) result list \<Rightarrow> Promise \<Rightarrow> completions \<Rightarrow> Promise \<times> completions" where
  "complete_all [] p log = (p, log)"
| "complete_all (r # rs) p log = (case Promise_complete r p log of (p', log') \<Rightarrow> complete_all rs p' log')"

lemma Promise_complete_eq:
  "Promise_complete r \<lparr>pr_callback = None\<rparr> log = (\<lparr>pr_callback = None\<rparr>, log)"
  "Promise_complete r (Promise_new cb) log = (\<lparr>pr_callback = None\<rparr>, log @ [(cb, r)])"
  by (simp_all add: Promise_complete_def Promise_new_def)

lemma complete_all_None: "complete_all rs \<lparr>pr_callback = None\<rparr> log = (\<lparr>pr_callback = None\<rparr>, log)"
  by (induction rs) (simp_all add: Promise_complete_eq)

lemma Promise_drop_eq:
  "Promise_drop \<lparr>pr_callback = None\<rparr> log = log"
  "Promise_drop (Promise_new cb) log = log @ [(cb, Err RequestShutdown)]"
  by (simp_all add: Promise_drop_def Promise_failure_def Promise_complete_eq)

lemma complete_all_drop:
  "(case complete_all rs (Promise_new cb) log of (p, log') \<Rightarrow> Promise_drop p log') =
     log @ [(cb, case rs of [] \<Rightarrow> Err RequestShutdown | r # _ \<Rightarrow> r)]"
  by (cases rs) (simp_all add: Promise_complete_eq complete_all_None Promise_drop_eq)

section \<open>Responses as a function of the bytes\<close>

fun decode_values :: "nat \<Rightarrow> (u8 list \<Rightarrow> reply_value) \<Rightarrow> u8 list \<Rightarrow> (reply_value, RequestError) result" where
  "decode_values n c [] = Err (BadResponse InsufficientBytes)"
| "decode_values n c (cnt # bytes) =
     (if length bytes < n then Err (BadResponse InsufficientBytes)
      else if length bytes > n then Err (BadResponse (TrailingBytes (length bytes - n)))
      else Ok (c bytes))"

fun decode_echo ::
    "(u16 \<Rightarrow> u16 \<Rightarrow> ('a, RequestError) result) \<Rightarrow> 'a \<Rightarrow> ('a \<Rightarrow> reply_value) \<Rightarrow> u8 list \<Rightarrow>
     (reply_value, RequestError) result" where
  "decode_echo f request c (a # b # n # m # rest) = bind_result (f (u16_be a b) (u16_be n m)) (\<lambda>x.
     if rest \<noteq> [] then Err (BadResponse (TrailingBytes (length rest)))
     else if request \<noteq> x then Err (BadResponse ReplyEchoMismatch) else Ok (c x))"
| "decode_echo f request c _ = Err (BadResponse InsufficientBytes)"

fun decode_range_echo :: "AddressRange \<Rightarrow> u8 list \<Rightarrow> (reply_value, RequestError) result" where
  "decode_range_echo request (a # b # n # m # rest) = bind_result (range_of (u16_be a b) (u16_be n m)) (\<lambda>x.
     if x \<noteq> request then Err (BadResponse ReplyEchoMismatch)
     else if rest \<noteq> [] then Err (BadResponse (TrailingBytes (length rest))) else Ok (Reply_Range x))"
| "decode_range_echo request _ = Err (BadResponse InsufficientBytes)"

definition bits_value :: "AddressRange \<Rightarrow> u8 list \<Rightarrow> reply_value" where
  "bits_value r bytes = Reply_Bits \<lparr>bi_bytes = bytes, bi_range = r, bi_pos = 0\<rparr>"

definition registers_value :: "AddressRange \<Rightarrow> u8 list \<Rightarrow> reply_value" where
  "registers_value r bytes = Reply_Registers \<lparr>ri_bytes = bytes, ri_range = r, ri_pos = 0\<rparr>"

fun decode_response :: "RequestDetails \<Rightarrow> u8 list \<Rightarrow> (reply_value, RequestError) result" where
  "decode_response (Det_ReadCoils x) = (let r = rbr_inner (rdb_request x) in
     decode_values (num_bytes_for_bits (ar_count r)) (bits_value r))"
| "decode_response (Det_ReadDiscreteInputs x) = (let r = rbr_inner (rdb_request x) in
     decode_values (num_bytes_for_bits (ar_count r)) (bits_value r))"
| "decode_response (Det_ReadHoldingRegisters x) = (let r = rrr_inner (rdr_request x) in
     decode_values (2 * unat (ar_count r)) (registers_value r))"
| "decode_response (Det_ReadInputRegisters x) = (let r = rrr_inner (rdr_request x) in
     decode_values (2 * unat (ar_count r)) (registers_value r))"
| "decode_response (Det_WriteSingleCoil x) = decode_echo coil_of (sw_request x) Reply_Coil"
| "decode_response (Det_WriteSingleRegister x) = decode_echo register_of (sw_request x) Reply_Register"
| "decode_response (Det_WriteMultipleCoils x) = decode_range_echo (wm_range (mw_request x))"
| "decode_response (Det_WriteMultipleRegisters x) = decode_range_echo (wm_range (mw_request x))"

fun decode_exception :: "u8 list \<Rightarrow> RequestError" where
  "decode_exception [] = BadResponse InsufficientBytes"
| "decode_exception [x] = Exception (ExceptionCode_from_u8 x)"
| "decode_exception (x # rest) = BadResponse (TrailingBytes (length rest))"

text \<open>The meaning of a whole response PDU for a request.\<close>

fun response_outcome :: "RequestDetails \<Rightarrow> u8 list \<Rightarrow> (reply_value, RequestError) result" where
  "response_outcome d [] = Err (BadResponse InsufficientBytes)"
| "response_outcome d (fc # body) = (let f = RequestDetails_function d in
     if fc = FunctionCode_get_value f then decode_response d body
     else if fc = FunctionCode_as_error f then Err (decode_exception body)
     else Err (BadResponse (UnknownResponseFunction fc (FunctionCode_get_value f) (FunctionCode_as_error f))))"

lemma reads_if_fail:
  "reads rview m f \<Longrightarrow> reads rview (if b then fail e else m) (\<lambda>bs. if b then Err e else f bs)"
  by (simp add: reads_def fail_def)

context read_cursor
begin

lemma parse_values_decode:
  assumes "reads rview m (bnd_list (list_bytes n) (\<lambda>bytes. bnd_list list_end (\<lambda>_ bs. Ok (it bytes, bs))))"
  shows "bind_result (fst (bnd (read_u8 P) (\<lambda>_. m) cur)) (\<lambda>v. Ok (c v)) =
    decode_values n (\<lambda>bytes. c (it bytes)) (rview cur)"
  unfolding reads_result [OF reads_bnd [OF reads_u8 assms]]
  by (cases "rview cur") (auto simp: bnd_list_def list_bytes_def list_end_def)

lemma parse_echo_decode:
  assumes "reads rview parse (list_two f)"
  shows "bind_result (fst (SingleWrite_parse_all P parse request cur)) (\<lambda>v. Ok (c v)) =
    decode_echo f request c (rview cur)"
  unfolding SingleWrite_parse_all_def
    reads_result [OF reads_bnd [OF assms reads_bnd [OF reads_expect_empty reads_if_fail [OF reads_ret]]]]
  by (cases "(f, rview cur)" rule: list_two.cases)
    (auto simp: bnd_list_def list_end_def bind_result_case RequestError_from_AduParseError_def split: result.splits)

lemma parse_range_echo_decode:
  "bind_result (fst (MultipleWrite_parse_all P request cur)) (\<lambda>v. Ok (Reply_Range v)) =
    decode_range_echo request (rview cur)"
  unfolding MultipleWrite_parse_all_def
    reads_result [OF reads_bnd [OF reads_AddressRange reads_if_fail [OF reads_bnd [OF reads_expect_empty reads_ret]]]]
  by (cases "(range_of, rview cur)" rule: list_two.cases)
    (auto simp: bnd_list_def list_end_def bind_result_case split: result.splits)

lemma reads_SingleWriteBool: "reads rview (SingleWriteBool_parse P) (list_two coil_of)"
  using reads_IndexedBool by (simp add: SingleWriteBool_parse_def IndexedBool_parse_def)

lemma reads_SingleWriteU16: "reads rview (SingleWriteU16_parse P) (list_two register_of)"
  using reads_IndexedU16 by (simp add: SingleWriteU16_parse_def IndexedU16_parse_def)

lemma parse_response_decode: "parse_response P d cur = decode_response d (rview cur)"
  by (cases d)
    (simp_all add: parse_bits_response_def parse_registers_response_def Let_def
      parse_values_decode [OF reads_BitIterator_all] parse_values_decode [OF reads_RegisterIterator_all]
      bits_value_def [abs_def] registers_value_def [abs_def]
      parse_echo_decode [OF reads_SingleWriteBool] parse_echo_decode [OF reads_SingleWriteU16]
      parse_range_echo_decode)

lemma get_error_for_decode:
  "Request_get_error_for P fc f cur =
    Ok (if fc = FunctionCode_as_error f then decode_exception (rview cur)
        else BadResponse (UnknownResponseFunction fc (FunctionCode_get_value f) (FunctionCode_as_error f)))"
proof (cases "rview cur")
  case Nil
  then show ?thesis
    using rc_read_u8_Nil [OF Nil] by (auto simp: Request_get_error_for_def RequestError_from_ReadError_def)
next
  case (Cons x rest)
  then obtain c' where "rc_read_u8 P cur = (Ok x, c')" "rview c' = rest" using rc_read_u8_Cons by blast
  then show ?thesis
    using Cons by (cases rest) (simp_all add: Request_get_error_for_def rc_is_empty rc_remaining Let_def)
qed

lemma handle_response_outcome:
  "Request_handle_response P payload (d, log) = (case response_outcome d payload of
     Ok v \<Rightarrow> (Ok (), details_succeed v d log) | Err e \<Rightarrow> (Err e, (d, log)) | Panic \<Rightarrow> (Panic, (d, log)))"
proof (cases payload)
  case Nil
  then show ?thesis
    using rc_read_u8_Nil [of "rc_new P payload"]
    by (auto simp: Request_handle_response_def rc_new RequestError_from_ReadError_def Let_def)
next
  case (Cons fc body)
  then obtain c' where "rc_read_u8 P (rc_new P payload) = (Ok fc, c')" "rview c' = body"
    using rc_read_u8_Cons [of "rc_new P payload" fc body] by (auto simp: rc_new)
  then show ?thesis
    using Cons
    by (simp add: Request_handle_response_def Let_def get_error_for_decode RequestDetails_handle_response_eq
        parse_response_decode)
qed

end

end
