(* ===== verification/ClientTask.thy ===== *)
theory ClientTask
  imports ServerTask ClientMessage
begin

text \<open>
  The client's request loop, \<open>rodbus/src/client/task.rs\<close>. What the environment decides is
  an argument: what \<open>recv\<close> on the command channel returns, whether the response deadline has
  passed, and the order in which \<open>select!\<close> polls its branches. A request that waits for its
  response is kept in \<open>cw_current\<close>, the state of the suspended future.
\<close>

section \<open>Commands and errors\<close>

datatype Setting = Set_DecodeLevel DecodeLevel | Enable | Disable

datatype Command = Cmd_Request ClientRequest | Cmd_Setting Setting

datatype SessionError = IoError ErrorKind | Session_BadFrame | Session_Disabled | Session_Shutdown

datatype StateChange = Change_Disable | Change_Shutdown

definition SessionError_from_Shutdown :: "Shutdown \<Rightarrow> SessionError" where
  [conv_defs]: "SessionError_from_Shutdown x = Session_Shutdown"

definition StateChange_from_Shutdown :: "Shutdown \<Rightarrow> StateChange" where
  [conv_defs]: "StateChange_from_Shutdown x = Change_Shutdown"

fun SessionError_from_request_err :: "RequestError \<Rightarrow> SessionError option" where
  "SessionError_from_request_err (Io x) = Some (IoError x)"
| "SessionError_from_request_err (BadFrame _) = Some Session_BadFrame"
| "SessionError_from_request_err _ = None"

text \<open>\<open>recv\<close> of the wrapped receiver: a closed channel is the error \<open>Shutdown\<close>.\<close>

definition Receiver_recv :: "'a option poll \<Rightarrow> ('a, Shutdown) result poll" where
  "Receiver_recv r = (case r of
      Pending \<Rightarrow> Pending | Ready (Some x) \<Rightarrow> Ready (Ok x) | Ready None \<Rightarrow> Ready (Err Shutdown))"

section \<open>The loop\<close>

record ClientLoop =
  cl_writer :: FrameWriter
  cl_reader :: FramedReader
  cl_tx_id :: TxId
  cl_decode :: DecodeLevel
  cl_enabled :: bool

definition ClientLoop_new :: "FrameWriter \<Rightarrow> FramedReader \<Rightarrow> DecodeLevel \<Rightarrow> ClientLoop" where
  "ClientLoop_new writer reader decode =
     \<lparr>cl_writer = writer, cl_reader = reader, cl_tx_id = TxId_default, cl_decode = decode, cl_enabled = False\<rparr>"

definition ClientLoop_is_enabled :: "ClientLoop \<Rightarrow> bool" where
  "ClientLoop_is_enabled c = cl_enabled c"

fun ClientLoop_change_setting :: "Setting \<Rightarrow> ClientLoop \<Rightarrow> ClientLoop" where
  "ClientLoop_change_setting (Set_DecodeLevel level) c = c\<lparr>cl_decode := level\<rparr>"
| "ClientLoop_change_setting Enable c = (if \<not> cl_enabled c then c\<lparr>cl_enabled := True\<rparr> else c)"
| "ClientLoop_change_setting Disable c = (if cl_enabled c then c\<lparr>cl_enabled := False\<rparr> else c)"

record 'io client =
  cw_loop :: ClientLoop
  cw_io :: 'io
  cw_log :: completions
  cw_current :: "(ClientRequest \<times> TxId) option"

text \<open>\<open>execute_request\<close> up to the wait: format the request and write it.\<close>

definition ClientLoop_send_request ::
    "('r, 'w, 'd, 'io) platform \<Rightarrow> ClientRequest \<Rightarrow> TxId \<Rightarrow> ('io client, unit, RequestError) se" where
  "ClientLoop_send_request P request tx_id w =
     (case FrameWriter_format_request P (FrameHeader_new_tcp_header (cr_id request) tx_id)
             (RequestDetails_function (cr_details request)) (RequestDetails_serialize P (cr_details request))
             (cl_writer (cw_loop w)) of
        (Ok bytes, fw) \<Rightarrow>
          let w' = w\<lparr>cw_loop := (cw_loop w)\<lparr>cl_writer := fw\<rparr>\<rparr> in
          (case conv_err RequestError_from_io (io_write P bytes) (cw_io w') of
             (r, io) \<Rightarrow> (r, w'\<lparr>cw_io := io\<rparr>))
      | (Err e, fw) \<Rightarrow> (Err e, w\<lparr>cw_loop := (cw_loop w)\<lparr>cl_writer := fw\<rparr>\<rparr>)
      | (Panic, fw) \<Rightarrow> (Panic, w\<lparr>cw_loop := (cw_loop w)\<lparr>cl_writer := fw\<rparr>\<rparr>))"

text \<open>
  One poll of the response loop. \<open>fired\<close> says whether the deadline has passed;
  each turn of the loop takes from a list whether the timer is polled first.
\<close>

fun ClientLoop_await_response ::
    "('r, 'w, 'd, 'io) platform \<Rightarrow> TxId \<Rightarrow> bool \<Rightarrow> bool list \<Rightarrow> 'io client \<Rightarrow>
     ((Frame, RequestError) result poll \<times> 'io client) option" where
  "ClientLoop_await_response P tx_id fired [] w = None"
| "ClientLoop_await_response P tx_id fired (timer_first # ts) w =
     (if timer_first \<and> fired then Some (Ready (Err ResponseTimeout), w)
      else case FramedReader_next_frame P (cl_reader (cw_loop w)) (cw_io w) of
        None \<Rightarrow> None
      | Some (x, r, io) \<Rightarrow>
          let w' = w\<lparr>cw_loop := (cw_loop w)\<lparr>cl_reader := r\<rparr>, cw_io := io\<rparr> in
          (case x of
             Pending \<Rightarrow> if fired then Some (Ready (Err ResponseTimeout), w') else Some (Pending, w')
           | Ready (Err e) \<Rightarrow> Some (Ready (Err e), w')
           | Ready Panic \<Rightarrow> Some (Ready Panic, w')
           | Ready (Ok frame) \<Rightarrow>
               (case fh_tx_id (fr_header frame) of
                  Some received_tx_id \<Rightarrow>
                    if received_tx_id \<noteq> tx_id then ClientLoop_await_response P tx_id fired ts w'
                    else Some (Ready (Ok frame), w')
                | None \<Rightarrow> Some (Ready (Ok frame), w'))))"

text \<open>
  The end of \<open>run_one_request\<close>: an error fails the request in one place and may end the
  session. The request is dropped when the function returns.
\<close>

definition ClientLoop_finish_request ::
    "ClientRequest \<Rightarrow> (unit, RequestError) result \<Rightarrow> 'io client \<Rightarrow> (unit, SessionError) result \<times> 'io client" where
  "ClientLoop_finish_request request result w = (case result of
      Ok _ \<Rightarrow> (Ok (), w\<lparr>cw_log := Request_drop (cr_details request) (cw_log w), cw_current := None\<rparr>)
    | Err err \<Rightarrow>
        let (details, log) = RequestDetails_fail err (cr_details request) (cw_log w);
            w' = w\<lparr>cw_log := Request_drop details log, cw_current := None\<rparr>
        in (case SessionError_from_request_err err of Some e \<Rightarrow> (Err e, w') | None \<Rightarrow> (Ok (), w'))
    | Panic \<Rightarrow> (Panic, w\<lparr>cw_log := Request_drop (cr_details request) (cw_log w), cw_current := None\<rparr>))"

definition ClientLoop_handle_response ::
    "('r, 'w, 'd, 'io) platform \<Rightarrow> ClientRequest \<Rightarrow> Frame \<Rightarrow> 'io client \<Rightarrow> (unit, SessionError) result \<times> 'io client" where
  "ClientLoop_handle_response P request frame w =
     (case Request_handle_response P (Frame_payload frame) (cr_details request, cw_log w) of
        (r, (details, log)) \<Rightarrow>
          ClientLoop_finish_request (request\<lparr>cr_details := details\<rparr>) r (w\<lparr>cw_log := log\<rparr>))"

text \<open>Polling a request that has been sent.\<close>

definition ClientLoop_poll_request ::
    "('r, 'w, 'd, 'io) platform \<Rightarrow> bool \<Rightarrow> bool list \<Rightarrow> ClientRequest \<Rightarrow> TxId \<Rightarrow> 'io client \<Rightarrow>
     ((unit, SessionError) result poll \<times> 'io client) option" where
  "ClientLoop_poll_request P fired ts request tx_id w =
     (case ClientLoop_await_response P tx_id fired ts w of
        None \<Rightarrow> None
      | Some (Pending, w') \<Rightarrow> Some (Pending, w'\<lparr>cw_current := Some (request, tx_id)\<rparr>)
      | Some (Ready (Ok frame), w') \<Rightarrow>
          (case ClientLoop_handle_response P request frame w' of (r, w'') \<Rightarrow> Some (Ready r, w''))
      | Some (Ready (Err e), w') \<Rightarrow>
          (case ClientLoop_finish_request request (Err e) w' of (r, w'') \<Rightarrow> Some (Ready r, w''))
      | Some (Ready Panic, w') \<Rightarrow>
          (case ClientLoop_finish_request request Panic w' of (r, w'') \<Rightarrow> Some (Ready r, w'')))"

definition ClientLoop_run_one_request ::
    "('r, 'w, 'd, 'io) platform \<Rightarrow> bool \<Rightarrow> bool list \<Rightarrow> ClientRequest \<Rightarrow> 'io client \<Rightarrow>
     ((unit, SessionError) result poll \<times> 'io client) option" where
  "ClientLoop_run_one_request P fired ts request w =
     (let (tx_id, nxt) = TxId_next (cl_tx_id (cw_loop w));
          w1 = w\<lparr>cw_loop := (cw_loop w)\<lparr>cl_tx_id := nxt\<rparr>\<rparr>
      in case ClientLoop_send_request P request tx_id w1 of
           (Ok _, w2) \<Rightarrow> ClientLoop_poll_request P fired ts request tx_id w2
         | (Err e, w2) \<Rightarrow> (case ClientLoop_finish_request request (Err e) w2 of (r, w3) \<Rightarrow> Some (Ready r, w3))
         | (Panic, w2) \<Rightarrow> (case ClientLoop_finish_request request Panic w2 of (r, w3) \<Rightarrow> Some (Ready r, w3)))"

definition ClientLoop_run_cmd ::
    "('r, 'w, 'd, 'io) platform \<Rightarrow> bool \<Rightarrow> bool list \<Rightarrow> Command \<Rightarrow> 'io client \<Rightarrow>
     ((unit, SessionError) result poll \<times> 'io client) option" where
  "ClientLoop_run_cmd P fired ts cmd w = (case cmd of
      Cmd_Setting setting \<Rightarrow>
        let w' = w\<lparr>cw_loop := ClientLoop_change_setting setting (cw_loop w)\<rparr> in
        if \<not> cl_enabled (cw_loop w') then Some (Ready (Err Session_Disabled), w')
        else Some (Ready (Ok ()), w')
    | Cmd_Request request \<Rightarrow> ClientLoop_run_one_request P fired ts request w)"

text \<open>The branches of \<open>poll\<close> while no request is in flight.\<close>

definition ClientLoop_poll_idle_frame ::
    "('r, 'w, 'd, 'io) platform \<Rightarrow> 'io client \<Rightarrow> ((unit, SessionError) result poll \<times> 'io client) option" where
  "ClientLoop_poll_idle_frame P w =
     (case FramedReader_next_frame P (cl_reader (cw_loop w)) (cw_io w) of
        None \<Rightarrow> None
      | Some (x, r, io) \<Rightarrow>
          let w' = w\<lparr>cw_loop := (cw_loop w)\<lparr>cl_reader := r\<rparr>, cw_io := io\<rparr> in
          Some (case x of
              Pending \<Rightarrow> (Pending, w')
            | Ready (Ok frame) \<Rightarrow> (Ready (Ok ()), w')
            | Ready (Err err) \<Rightarrow> (case SessionError_from_request_err err of
                  Some e \<Rightarrow> (Ready (Err e), w') | None \<Rightarrow> (Ready (Ok ()), w'))
            | Ready Panic \<Rightarrow> (Ready Panic, w')))"

definition ClientLoop_poll_command ::
    "('r, 'w, 'd, 'io) platform \<Rightarrow> bool \<Rightarrow> bool list \<Rightarrow> Command option poll \<Rightarrow> 'io client \<Rightarrow>
     ((unit, SessionError) result poll \<times> 'io client) option" where
  "ClientLoop_poll_command P fired ts recv w = (case Receiver_recv recv of
      Pending \<Rightarrow> Some (Pending, w)
    | Ready (Ok cmd) \<Rightarrow> ClientLoop_run_cmd P fired ts cmd w
    | Ready (Err x) \<Rightarrow> Some (Ready (Err (SessionError_from_Shutdown x)), w)
    | Ready Panic \<Rightarrow> Some (Ready Panic, w))"

definition ClientLoop_poll ::
    "('r, 'w, 'd, 'io) platform \<Rightarrow> bool \<Rightarrow> Command option poll \<Rightarrow> bool \<Rightarrow> bool list \<Rightarrow> 'io client \<Rightarrow>
     ((unit, SessionError) result poll \<times> 'io client) option" where
  "ClientLoop_poll P frame_first recv fired ts w = (case cw_current w of
      Some (request, tx_id) \<Rightarrow> ClientLoop_poll_request P fired ts request tx_id w
    | None \<Rightarrow>
        if frame_first
        then (case ClientLoop_poll_idle_frame P w of
                Some (Pending, w') \<Rightarrow> ClientLoop_poll_command P fired ts recv w'
              | r \<Rightarrow> r)
        else (case ClientLoop_poll_command P fired ts recv w of
                Some (Pending, w') \<Rightarrow>
                  (if cw_current w' = None then ClientLoop_poll_idle_frame P w' else Some (Pending, w'))
              | r \<Rightarrow> r))"

text \<open>
  The loop of \<open>run\<close>. Each turn takes from a list what the environment decides: the order
  of the branches, what \<open>recv\<close> returns, whether the deadline has passed, and the order in
  the response loop. A turn that is left waiting is polled again.
\<close>

type_synonym turn = "bool \<times> Command option poll \<times> bool \<times> bool list"

fun ClientLoop_run ::
    "('r, 'w, 'd, 'io) platform \<Rightarrow> turn list \<Rightarrow> 'io client \<Rightarrow>
     ((SessionError, unit) result poll \<times> 'io client) option" where
  "ClientLoop_run P [] w = Some (Pending, w)"
| "ClientLoop_run P ((frame_first, recv, fired, ts) # es) w =
     (case ClientLoop_poll P frame_first recv fired ts w of
        None \<Rightarrow> None
      | Some (Ready (Err err), w') \<Rightarrow> Some (Ready (Ok err), w')
      | Some (Ready Panic, w') \<Rightarrow> Some (Ready Panic, w')
      | Some (_, w') \<Rightarrow> ClientLoop_run P es w')"

section \<open>While there is no connection\<close>

text \<open>Requests are failed as they arrive; each step takes one value from the channel.\<close>

type_synonym loop_state = "ClientLoop \<times> completions"

definition ClientLoop_fail_next_request ::
    "Command option \<Rightarrow> (loop_state, unit, StateChange) se" where
  "ClientLoop_fail_next_request recv s = (case s of (c, log) \<Rightarrow>
     (case recv of
        None \<Rightarrow> (Err (StateChange_from_Shutdown Shutdown), (c, log))
      | Some (Cmd_Request req) \<Rightarrow>
          let (details, log') = RequestDetails_fail NoConnection (cr_details req) log in
          (Ok (), (c, Request_drop details log'))
      | Some (Cmd_Setting x) \<Rightarrow>
          let c' = ClientLoop_change_setting x c in
          if cl_enabled c' then (Ok (), (c', log)) else (Err Change_Disable, (c', log))))"

fun ClientLoop_wait_for_enabled ::
    "Command option list \<Rightarrow> loop_state \<Rightarrow> (unit, Shutdown) result poll \<times> loop_state \<times> Command option list" where
  "ClientLoop_wait_for_enabled [] s = (if cl_enabled (fst s) then (Ready (Ok ()), s, []) else (Pending, s, []))"
| "ClientLoop_wait_for_enabled (r # rs) s =
     (if cl_enabled (fst s) then (Ready (Ok ()), s, r # rs)
      else case ClientLoop_fail_next_request r s of
        (Err Change_Shutdown, s') \<Rightarrow> (Ready (Err Shutdown), s', rs)
      | (Panic, s') \<Rightarrow> (Ready Panic, s', rs)
      | (_, s') \<Rightarrow> ClientLoop_wait_for_enabled rs s')"

fun ClientLoop_fail_requests ::
    "Command option list \<Rightarrow> loop_state \<Rightarrow> StateChange poll \<times> loop_state \<times> Command option list" where
  "ClientLoop_fail_requests [] s = (Pending, s, [])"
| "ClientLoop_fail_requests (r # rs) s = (case ClientLoop_fail_next_request r s of
      (Err err, s') \<Rightarrow> (Ready err, s', rs)
    | (_, s') \<Rightarrow> ClientLoop_fail_requests rs s')"

text \<open>
  \<open>fail_requests_for\<close>: the list holds what the channel delivers before the deadline; when
  it does not end the loop, the deadline does.
\<close>

definition ClientLoop_fail_requests_for ::
    "Command option list \<Rightarrow> loop_state \<Rightarrow> (unit, StateChange) result \<times> loop_state \<times> Command option list" where
  "ClientLoop_fail_requests_for rs s = (case ClientLoop_fail_requests rs s of
      (Pending, x) \<Rightarrow> (Ok (), x)
    | (Ready err, x) \<Rightarrow> (Err err, x))"

section \<open>Every request is completed exactly once\<close>

abbreviation request_callback :: "ClientRequest \<Rightarrow> callback option" where
  "request_callback req \<equiv> pr_callback (details_promise (cr_details req))"

lemma promise_ops:
  "pr_callback p = None \<Longrightarrow> Promise_drop p log = log"
  "pr_callback p = Some cb \<Longrightarrow> Promise_drop p log = log @ [(cb, Err RequestShutdown)]"
  "pr_callback p = Some cb \<Longrightarrow> Promise_failure e p log = (p\<lparr>pr_callback := None\<rparr>, log @ [(cb, Err e)])"
  "pr_callback p = Some cb \<Longrightarrow> Promise_success v p log = (p\<lparr>pr_callback := None\<rparr>, log @ [(cb, Ok v)])"
  by (simp_all add: Promise_drop_def Promise_failure_def Promise_success_def Promise_complete_def)

lemma request_ops:
  assumes "pr_callback (details_promise d) = Some cb"
  shows "Request_drop d log = log @ [(cb, Err RequestShutdown)]"
    and "\<exists>d'. RequestDetails_fail e d log = (d', log @ [(cb, Err e)]) \<and> pr_callback (details_promise d') = None"
    and "\<exists>d'. details_succeed v d log = (d', log @ [(cb, Ok v)]) \<and> pr_callback (details_promise d') = None"
  using promise_ops(2-4) [OF assms]
  by (simp_all add: Request_drop_def RequestDetails_fail_eq details_succeed_def)

lemma Request_drop_done: "pr_callback (details_promise d) = None \<Longrightarrow> Request_drop d log = log"
  by (simp add: Request_drop_def promise_ops)

lemma finish_request_fresh:
  assumes "request_callback req = Some cb"
  shows "\<exists>r w'. ClientLoop_finish_request req res w = (r, w') \<and> cw_current w' = None \<and>
    cw_loop w' = cw_loop w \<and> cw_io w' = cw_io w \<and>
    cw_log w' = cw_log w @ [(cb, case res of Err e \<Rightarrow> Err e | _ \<Rightarrow> Err RequestShutdown)]"
proof (cases res)
  case (Err e)
  obtain d' where "RequestDetails_fail e (cr_details req) (cw_log w) = (d', cw_log w @ [(cb, result.Err e)])"
    "pr_callback (details_promise d') = None" using request_ops(2) [OF assms] by blast
  then show ?thesis
    using Err by (cases "SessionError_from_request_err e") (simp_all add: ClientLoop_finish_request_def Request_drop_done)
qed (simp_all add: ClientLoop_finish_request_def request_ops(1) [OF assms])

lemma finish_request_done:
  assumes "request_callback req = None"
  shows "ClientLoop_finish_request req (Ok ()) w = (Ok (), w\<lparr>cw_current := None\<rparr>)"
  using assms by (simp add: ClientLoop_finish_request_def Request_drop_done)

lemma send_request_log:
  assumes "ClientLoop_send_request P req tx w = (r, w')"
  shows "cw_log w' = cw_log w \<and> cw_current w' = cw_current w"
  using assms by (auto simp: ClientLoop_send_request_def Let_def split: prod.splits result.splits)

lemma await_response_log:
  assumes "ClientLoop_await_response P tx fired ts w = Some (x, w')"
  shows "cw_log w' = cw_log w \<and> cw_current w' = cw_current w"
  using assms
proof (induction P tx fired ts w arbitrary: x w' rule: ClientLoop_await_response.induct)
  case (2 P tx fired t ts w)
  show ?case
  proof (cases "t \<and> fired")
    case False
    obtain y r io where y: "FramedReader_next_frame P (cl_reader (cw_loop w)) (cw_io w) = Some (y, r, io)"
      using "2.prems" False by (auto split: option.splits)
    show ?thesis
      using "2.prems" False y "2.IH" [OF False y refl refl refl]
      by (auto simp: Let_def split: poll.splits result.splits option.splits if_splits)
  qed (use "2.prems" in auto)
qed simp

text \<open>The response loop only accepts a frame without a transaction id or with the one expected.\<close>

lemma await_response_tx:
  assumes "ClientLoop_await_response P tx fired ts w = Some (Ready (Ok frame), w')"
  shows "fh_tx_id (fr_header frame) = None \<or> fh_tx_id (fr_header frame) = Some tx"
  using assms
proof (induction P tx fired ts w rule: ClientLoop_await_response.induct)
  case (2 P tx fired t ts w)
  show ?case
  proof (cases "t \<and> fired")
    case False
    obtain y r io where y: "FramedReader_next_frame P (cl_reader (cw_loop w)) (cw_io w) = Some (y, r, io)"
      using "2.prems" False by (auto split: option.splits)
    show ?thesis
      using "2.prems" False y "2.IH" [OF False y refl refl refl]
      by (auto simp: Let_def split: poll.splits result.splits option.splits if_splits)
  qed (use "2.prems" in auto)
qed simp

context read_cursor
begin

lemma handle_response_once:
  assumes "request_callback req = Some cb"
  shows "\<exists>r w'. ClientLoop_handle_response P req frame w = (r, w') \<and> cw_current w' = None \<and>
    cw_loop w' = cw_loop w \<and> cw_io w' = cw_io w \<and>
    cw_log w' = cw_log w @ [(cb, case response_outcome (cr_details req) (Frame_payload frame) of
      Ok v \<Rightarrow> Ok v | Err e \<Rightarrow> Err e | Panic \<Rightarrow> Err RequestShutdown)]"
proof (cases "response_outcome (cr_details req) (Frame_payload frame)")
  case (Ok v)
  obtain d' where d': "details_succeed v (cr_details req) (cw_log w) = (d', cw_log w @ [(cb, result.Ok v)])"
    "pr_callback (details_promise d') = None" using request_ops(3) [OF assms] by blast
  have "request_callback (req\<lparr>cr_details := d'\<rparr>) = None" using d'(2) by simp
  note fin = finish_request_done [OF this]
  show ?thesis
    using Ok d'(1) by (simp add: ClientLoop_handle_response_def handle_response_outcome fin)
next
  case (Err e)
  then show ?thesis
    using finish_request_fresh [OF assms, of "result.Err e" w]
    by (simp add: ClientLoop_handle_response_def handle_response_outcome)
next
  case Panic
  then show ?thesis
    using finish_request_fresh [OF assms, of "result.Panic" w]
    by (simp add: ClientLoop_handle_response_def handle_response_outcome)
qed

text \<open>
  Polling a request either leaves it in flight and its callback untouched, or ends it and has run
  its callback once.
\<close>

lemma poll_request_once:
  assumes "request_callback req = Some cb"
    and "ClientLoop_poll_request P fired ts req tx w = Some (x, w')"
  shows "if x = Pending then cw_log w' = cw_log w \<and> cw_current w' = Some (req, tx)
    else cw_current w' = None \<and> (\<exists>r. cw_log w' = cw_log w @ [(cb, r)])"
proof -
  obtain y w1 where y: "ClientLoop_await_response P tx fired ts w = Some (y, w1)"
    using assms(2) by (auto simp: ClientLoop_poll_request_def split: option.splits)
  have log: "cw_log w1 = cw_log w" using await_response_log [OF y] by simp
  show ?thesis
  proof (cases y)
    case Pending
    then show ?thesis using assms(2) y log by (auto simp: ClientLoop_poll_request_def)
  next
    case (Ready z)
    show ?thesis
    proof (cases z)
      case (Ok frame)
      then show ?thesis
        using assms(2) y Ready log handle_response_once [OF assms(1), of frame w1]
        by (auto simp: ClientLoop_poll_request_def)
    next
      case (Err e)
      then show ?thesis
        using assms(2) y Ready log finish_request_fresh [OF assms(1), of "result.Err e" w1]
        by (auto simp: ClientLoop_poll_request_def)
    next
      case Panic
      then show ?thesis
        using assms(2) y Ready log finish_request_fresh [OF assms(1), of "result.Panic" w1]
        by (auto simp: ClientLoop_poll_request_def)
    qed
  qed
qed

lemma run_one_request_once:
  assumes "request_callback req = Some cb"
    and "ClientLoop_run_one_request P fired ts req w = Some (x, w')"
  shows "if x = Pending then cw_log w' = cw_log w \<and> cw_current w' = Some (req, cl_tx_id (cw_loop w))
    else cw_current w' = None \<and> (\<exists>r. cw_log w' = cw_log w @ [(cb, r)])"
proof -
  let ?tx = "cl_tx_id (cw_loop w)"
  let ?w1 = "w\<lparr>cw_loop := (cw_loop w)\<lparr>cl_tx_id := TxId (tx_value ?tx + 1)\<rparr>\<rparr>"
  obtain y w2 where y: "ClientLoop_send_request P req ?tx ?w1 = (y, w2)" by fastforce
  have log: "cw_log w2 = cw_log w" using send_request_log [OF y] by simp
  show ?thesis
  proof (cases y)
    case (Ok u)
    then show ?thesis
      using assms(2) y log poll_request_once [OF assms(1), of fired ts ?tx w2 x w']
      by (auto simp: ClientLoop_run_one_request_def TxId_next_eq)
  next
    case (Err e)
    then show ?thesis
      using assms(2) y log finish_request_fresh [OF assms(1), of "result.Err e" w2]
      by (auto simp: ClientLoop_run_one_request_def TxId_next_eq)
  next
    case Panic
    then show ?thesis
      using assms(2) y log finish_request_fresh [OF assms(1), of "result.Panic" w2]
      by (auto simp: ClientLoop_run_one_request_def TxId_next_eq)
  qed
qed

end

section \<open>Requests without a connection\<close>

lemma fail_next_request_once:
  assumes "request_callback req = Some cb"
  shows "ClientLoop_fail_next_request (Some (Cmd_Request req)) (c, log) =
    (Ok (), (c, log @ [(cb, Err NoConnection)]))"
proof -
  obtain d' where "RequestDetails_fail NoConnection (cr_details req) log = (d', log @ [(cb, Err NoConnection)])"
    "pr_callback (details_promise d') = None" using request_ops(2) [OF assms] by blast
  then show ?thesis by (simp add: ClientLoop_fail_next_request_def Request_drop_done)
qed

text \<open>All requests that arrive are failed in order of arrival, and nothing else happens.\<close>

lemma fail_requests_fifo:
  assumes "\<forall>(req, cb) \<in> set reqs. request_callback req = Some cb"
  shows "ClientLoop_fail_requests (map (\<lambda>(req, cb). Some (Cmd_Request req)) reqs) (c, log) =
    (Pending, (c, log @ map (\<lambda>(req, cb). (cb, Err NoConnection)) reqs), [])"
  using assms
proof (induction reqs arbitrary: log)
  case (Cons x reqs)
  obtain req cb where x: "x = (req, cb)" by (cases x)
  then have "request_callback req = Some cb" using Cons.prems by simp
  from fail_next_request_once [OF this, of c log] show ?case
    using Cons.IH [of "log @ [(cb, Err NoConnection)]"] Cons.prems x by simp
qed simp

lemma fail_next_request_cases:
  assumes "ClientLoop_fail_next_request r s = (x, s')"
  shows "x \<noteq> Panic \<and> (x = Err Change_Shutdown \<longleftrightarrow> r = None) \<and>
    (x = Err Change_Disable \<longrightarrow> \<not> cl_enabled (fst s'))"
  using assms
  by (auto simp: ClientLoop_fail_next_request_def Let_def StateChange_from_Shutdown_def
      split: prod.splits option.splits Command.splits if_splits)

lemma wait_for_enabled_result:
  assumes "ClientLoop_wait_for_enabled rs s = (x, s', rest)"
  shows "case x of
      Ready (Ok _) \<Rightarrow> cl_enabled (fst s')
    | Ready (Err _) \<Rightarrow> None \<in> set rs
    | Ready Panic \<Rightarrow> False
    | Pending \<Rightarrow> \<not> cl_enabled (fst s') \<and> None \<notin> set rs"
  using assms
proof (induction rs s arbitrary: x s' rest rule: ClientLoop_wait_for_enabled.induct)
  case (1 s)
  then show ?case by (auto split: if_splits)
next
  case (2 r rs s)
  show ?case
  proof (cases "cl_enabled (fst s)")
    case True
    then show ?thesis using "2.prems" by auto
  next
    case False
    obtain y s1 where y: "ClientLoop_fail_next_request r s = (y, s1)" by (meson surj_pair)
    note c = fail_next_request_cases [OF y]
    show ?thesis
    proof (cases "y = Err Change_Shutdown")
      case True
      then show ?thesis using "2.prems" False y c by auto
    next
      case no: False
      then have step: "ClientLoop_wait_for_enabled rs s1 = (x, s', rest)"
        using "2.prems" False y c by (cases y) (auto split: StateChange.splits)
      have "r \<noteq> None" using no c by simp
      have "case x of Ready (Ok _) \<Rightarrow> cl_enabled (fst s') | Ready (Err _) \<Rightarrow> None \<in> set rs
          | Ready Panic \<Rightarrow> False | Pending \<Rightarrow> \<not> cl_enabled (fst s') \<and> None \<notin> set rs"
      proof (cases y)
        case (Ok u)
        then show ?thesis using "2.IH"(1) [OF False y [symmetric]] step by simp
      next
        case (Err e)
        then have "e = Change_Disable" using no by (cases e) auto
        then show ?thesis using "2.IH"(2) [OF False y [symmetric]] Err step by simp
      qed (use c in simp)
      then show ?thesis using \<open>r \<noteq> None\<close> by (auto split: poll.splits result.splits)
    qed
  qed
qed

section \<open>Conservation of requests\<close>

text \<open>
  Which request a turn takes from the channel: none while one is in flight, and none when the
  frame branch is polled first and is ready.
\<close>

fun received :: "Command option poll \<Rightarrow> ClientRequest list" where
  "received (Ready (Some (Cmd_Request req))) = [req]"
| "received _ = []"

fun taken :: "('r, 'w, 'd, 'io) platform \<Rightarrow> turn \<Rightarrow> 'io client \<Rightarrow> ClientRequest list" where
  "taken P (frame_first, recv, fired, ts) w =
     (if cw_current w \<noteq> None then []
      else if frame_first then (case ClientLoop_poll_idle_frame P w of Some (Pending, _) \<Rightarrow> received recv | _ \<Rightarrow> [])
      else received recv)"

definition in_flight :: "'io client \<Rightarrow> ClientRequest list" where
  "in_flight w = (case cw_current w of None \<Rightarrow> [] | Some (req, _) \<Rightarrow> [req])"

definition callbacks :: "ClientRequest list \<Rightarrow> callback list" where
  "callbacks reqs = map (\<lambda>req. the (request_callback req)) reqs"

definition open_requests :: "ClientRequest list \<Rightarrow> bool" where
  "open_requests reqs \<longleftrightarrow> (\<forall>req \<in> set reqs. request_callback req \<noteq> None)"

text \<open>\<open>conserves reqs w w'\<close>: the callbacks of the requests in flight and of the new ones are, in order, the
  new completions and the requests that are in flight now.\<close>

definition conserves :: "ClientRequest list \<Rightarrow> 'io client \<Rightarrow> 'io client \<Rightarrow> bool" where
  "conserves reqs w w' \<longleftrightarrow> open_requests (in_flight w') \<and>
     (\<exists>new. cw_log w' = cw_log w @ new \<and>
       map fst new @ callbacks (in_flight w') = callbacks (in_flight w @ reqs))"

lemma conserves_refl: "open_requests (in_flight w) \<Longrightarrow> conserves [] w w"
  by (simp add: conserves_def)

lemma conserves_trans:
  assumes "conserves xs u v" and "conserves ys v w"
  shows "conserves (xs @ ys) u w"
proof -
  obtain m where m: "cw_log v = cw_log u @ m"
    "map fst m @ callbacks (in_flight v) = callbacks (in_flight u @ xs)" using assms(1) by (auto simp: conserves_def)
  obtain n where n: "cw_log w = cw_log v @ n"
    "map fst n @ callbacks (in_flight w) = callbacks (in_flight v @ ys)" using assms(2) by (auto simp: conserves_def)
  have split: "callbacks (ps @ qs) = callbacks ps @ callbacks qs" for ps qs by (simp add: callbacks_def)
  have "map fst (m @ n) @ callbacks (in_flight w) = callbacks (in_flight u @ xs @ ys)"
    using m(2) n(2) by (metis append_assoc map_append split)
  then show ?thesis using assms(2) m(1) n(1) by (auto simp: conserves_def)
qed

lemma poll_idle_keeps:
  assumes "ClientLoop_poll_idle_frame P w = Some (x, w')"
  shows "cw_log w' = cw_log w \<and> cw_current w' = cw_current w"
  using assms by (auto simp: ClientLoop_poll_idle_frame_def Let_def split: option.splits poll.splits result.splits)

lemma conserves_idle:
  "cw_current w = None \<Longrightarrow> cw_log w' = cw_log w \<Longrightarrow> cw_current w' = cw_current w \<Longrightarrow> conserves [] w w'"
  by (simp add: conserves_def in_flight_def open_requests_def callbacks_def)

context read_cursor
begin

lemma poll_request_conserves:
  assumes "request_callback req = Some cb" and "ClientLoop_poll_request P fired ts req tx w = Some (x, w')"
  shows "open_requests (in_flight w') \<and> (\<exists>new. cw_log w' = cw_log w @ new \<and>
    map fst new @ callbacks (in_flight w') = [cb])"
  using poll_request_once [OF assms] assms(1)
  by (cases "x = Pending") (auto simp: in_flight_def open_requests_def callbacks_def)

lemma poll_command_conserves:
  assumes "cw_current w = None" and "open_requests (received recv)"
    and "ClientLoop_poll_command P fired ts recv w = Some (x, w')"
  shows "conserves (received recv) w w'"
proof (cases "\<exists>req. recv = Ready (Some (Cmd_Request req))")
  case True
  then obtain req where req: "recv = Ready (Some (Cmd_Request req))" by blast
  then obtain cb where cb: "request_callback req = Some cb" using assms(2) by (auto simp: open_requests_def)
  have "ClientLoop_run_one_request P fired ts req w = Some (x, w')"
    using assms(3) req by (simp add: ClientLoop_poll_command_def Receiver_recv_def ClientLoop_run_cmd_def)
  from run_one_request_once [OF cb this] show ?thesis
    using assms(1) req cb
    by (cases "x = Pending") (auto simp: conserves_def in_flight_def open_requests_def callbacks_def)
next
  case False
  then have "received recv = []" by (cases recv rule: received.cases) auto
  moreover have "cw_log w' = cw_log w \<and> cw_current w' = cw_current w"
    using assms(3) False
    by (auto simp: ClientLoop_poll_command_def Receiver_recv_def ClientLoop_run_cmd_def Let_def
        split: poll.splits option.splits Command.splits if_splits)
  ultimately show ?thesis using assms(1) conserves_idle [of w w'] by simp
qed

lemma poll_conserves:
  assumes "open_requests (in_flight w)" and "open_requests (taken P (ff, recv, fired, ts) w)"
    and "ClientLoop_poll P ff recv fired ts w = Some (x, w')"
  shows "conserves (taken P (ff, recv, fired, ts) w) w w'"
proof (cases "cw_current w")
  case (Some y)
  then obtain req tx where y: "cw_current w = Some (req, tx)" by (cases y) auto
  then obtain cb where cb: "request_callback req = Some cb" using assms(1) by (auto simp: in_flight_def open_requests_def)
  have "ClientLoop_poll_request P fired ts req tx w = Some (x, w')" using assms(3) y by (simp add: ClientLoop_poll_def)
  from poll_request_conserves [OF cb this] show ?thesis
    using y cb by (auto simp: conserves_def in_flight_def callbacks_def)
next
  case None
  show ?thesis
  proof (cases ff)
    case True
    obtain z w1 where z: "ClientLoop_poll_idle_frame P w = Some (z, w1)"
      using assms(3) None True by (auto simp: ClientLoop_poll_def split: option.splits)
    note keep = poll_idle_keeps [OF z]
    show ?thesis
    proof (cases "z = Pending")
      case pending: True
      have "ClientLoop_poll_command P fired ts recv w1 = Some (x, w')"
        using assms(3) None True z pending by (simp add: ClientLoop_poll_def)
      from poll_command_conserves [OF _ _ this] have "conserves (received recv) w1 w'"
        using assms(2) None True z pending keep by simp
      then show ?thesis
        using conserves_trans [OF conserves_idle [OF None, of w1]] keep None True z pending by simp
    next
      case False
      then have "w' = w1" using assms(3) None True z by (auto simp: ClientLoop_poll_def split: poll.splits)
      then show ?thesis using conserves_idle [OF None, of w1] keep None True z False by (cases z) auto
    qed
  next
    case no: False
    obtain z w1 where z: "ClientLoop_poll_command P fired ts recv w = Some (z, w1)"
      using assms(3) None no by (auto simp: ClientLoop_poll_def split: option.splits)
    have c: "conserves (received recv) w w1"
      using poll_command_conserves [OF None _ z] assms(2) None no by simp
    show ?thesis
    proof (cases "z = Pending \<and> cw_current w1 = None")
      case True
      then have "ClientLoop_poll_idle_frame P w1 = Some (x, w')"
        using assms(3) None no z by (simp add: ClientLoop_poll_def)
      from poll_idle_keeps [OF this] True have "conserves [] w1 w'" by (auto intro: conserves_idle)
      from conserves_trans [OF c this] show ?thesis using None no by simp
    next
      case False
      then have "w' = w1" using assms(3) None no z by (auto simp: ClientLoop_poll_def split: poll.splits if_splits)
      then show ?thesis using c None no by simp
    qed
  qed
qed

end

text \<open>The requests that a whole session takes from the channel.\<close>

fun all_taken :: "('r, 'w, 'd, 'io) platform \<Rightarrow> turn list \<Rightarrow> 'io client \<Rightarrow> ClientRequest list" where
  "all_taken P [] w = []"
| "all_taken P ((ff, recv, fired, ts) # es) w = taken P (ff, recv, fired, ts) w @
     (case ClientLoop_poll P ff recv fired ts w of
        Some (Ready (Ok _), w') \<Rightarrow> all_taken P es w'
      | Some (Pending, w') \<Rightarrow> all_taken P es w'
      | _ \<Rightarrow> [])"

context read_cursor
begin

lemma run_conserves:
  assumes "open_requests (in_flight w)" and "open_requests (all_taken P es w)"
    and "ClientLoop_run P es w = Some (x, w')"
  shows "conserves (all_taken P es w) w w'"
  using assms
proof (induction es arbitrary: w)
  case Nil
  then show ?case by (simp add: conserves_refl)
next
  case (Cons e es)
  obtain ff recv fired ts where e: "e = (ff, recv, fired, ts)" by (cases e) auto
  obtain z w1 where z: "ClientLoop_poll P ff recv fired ts w = Some (z, w1)"
    using Cons.prems(3) e by (auto split: option.splits)
  have "open_requests (taken P e w)" using Cons.prems(2) e by (simp add: open_requests_def del: taken.simps)
  then have c: "conserves (taken P e w) w w1" using poll_conserves [OF Cons.prems(1) _ z] e by simp
  show ?case
  proof (cases "z = Pending \<or> (\<exists>u. z = Ready (Ok u))")
    case True
    have "open_requests (in_flight w1)" using c by (simp add: conserves_def)
    moreover have "open_requests (all_taken P es w1)" "ClientLoop_run P es w1 = Some (x, w')"
      using Cons.prems(2,3) e z True by (auto simp: open_requests_def)
    ultimately have "conserves (all_taken P es w1) w1 w'" by (rule Cons.IH)
    from conserves_trans [OF c this] show ?thesis using e z True by auto
  next
    case False
    then have "w' = w1" "all_taken P (e # es) w = taken P e w"
      using Cons.prems(3) e z by (auto split: poll.splits result.splits)
    then show ?thesis using c by simp
  qed
qed

end

section \<open>A session that ends as disabled\<close>

lemma request_error_not_disabled: "SessionError_from_request_err e \<noteq> Some Session_Disabled"
  by (cases e) simp_all

lemma finish_not_disabled: "ClientLoop_finish_request req res w \<noteq> (Err Session_Disabled, w')"
  using request_error_not_disabled
  by (auto simp: ClientLoop_finish_request_def Let_def split: result.splits prod.splits option.splits)

lemma poll_request_not_disabled: "ClientLoop_poll_request P fired ts req tx w \<noteq> Some (Ready (Err Session_Disabled), w')"
  by (auto simp: finish_not_disabled ClientLoop_poll_request_def ClientLoop_handle_response_def
      split: option.splits prod.splits poll.splits result.splits)

lemma run_one_request_not_disabled:
  "ClientLoop_run_one_request P fired ts req w \<noteq> Some (Ready (Err Session_Disabled), w')"
  by (auto simp: finish_not_disabled poll_request_not_disabled ClientLoop_run_one_request_def Let_def split: prod.splits result.splits)

lemma poll_command_disabled:
  assumes "ClientLoop_poll_command P fired ts recv w = Some (Ready (Err Session_Disabled), w')"
  shows "\<not> cl_enabled (cw_loop w')"
  using assms
  by (auto simp: run_one_request_not_disabled ClientLoop_poll_command_def Receiver_recv_def ClientLoop_run_cmd_def SessionError_from_Shutdown_def Let_def
      split: poll.splits option.splits Command.splits if_splits)

lemma poll_idle_not_disabled: "ClientLoop_poll_idle_frame P w \<noteq> Some (Ready (Err Session_Disabled), w')"
  using request_error_not_disabled
  by (auto simp: ClientLoop_poll_idle_frame_def Let_def split: option.splits prod.splits poll.splits result.splits)

lemma poll_disabled:
  assumes "ClientLoop_poll P ff recv fired ts w = Some (Ready (Err Session_Disabled), w')"
  shows "\<not> cl_enabled (cw_loop w')"
  using assms
  by (auto simp: ClientLoop_poll_def poll_request_not_disabled poll_idle_not_disabled dest: poll_command_disabled
      split: option.splits prod.splits poll.splits result.splits if_splits)

lemma run_disabled:
  assumes "ClientLoop_run P es w = Some (Ready (Ok Session_Disabled), w')"
  shows "\<not> cl_enabled (cw_loop w')"
  using assms
proof (induction es arbitrary: w)
  case (Cons e es)
  obtain ff recv fired ts where "e = (ff, recv, fired, ts)" by (cases e) auto
  then show ?case
    using Cons by (auto dest: poll_disabled split: option.splits prod.splits poll.splits result.splits)
qed simp

end
