(* ===== verification/EndToEnd.thy ===== *)
theory EndToEnd
  imports ClientTask
begin

text \<open>
  A client and a server together. A request that the client API can build is written as a PDU
  that the server reads as the same request, and the PDU that answers it is read by the client as
  the outcome of running the request on the server's handler.
\<close>

section \<open>A request on the wire\<close>

text \<open>The body of the PDU, and the ranges and counts that the client API lets through.\<close>

fun details_body :: "RequestDetails \<Rightarrow> u8 list" where
  "details_body (Det_ReadCoils x) = range_bytes (rbr_inner (rdb_request x))"
| "details_body (Det_ReadDiscreteInputs x) = range_bytes (rbr_inner (rdb_request x))"
| "details_body (Det_ReadHoldingRegisters x) = range_bytes (rrr_inner (rdr_request x))"
| "details_body (Det_ReadInputRegisters x) = range_bytes (rrr_inner (rdr_request x))"
| "details_body (Det_WriteSingleCoil x) = indexed_bool_bytes (sw_request x)"
| "details_body (Det_WriteSingleRegister x) = indexed_u16_bytes (sw_request x)"
| "details_body (Det_WriteMultipleCoils x) =
     range_bytes (wm_range (mw_request x)) @ bool_slice_bytes (wm_values (mw_request x))"
| "details_body (Det_WriteMultipleRegisters x) =
     range_bytes (wm_range (mw_request x)) @ u16_slice_bytes (wm_values (mw_request x))"

definition details_pdu :: "RequestDetails \<Rightarrow> u8 list" where
  "details_pdu d = FunctionCode_get_value (RequestDetails_function d) # details_body d"

definition bits_range_ok :: "ReadBitsRange \<Rightarrow> bool" where
  "bits_range_ok r \<longleftrightarrow> valid_range (rbr_inner r) \<and> unat (ar_count (rbr_inner r)) \<le> 2000"

definition registers_range_ok :: "ReadRegistersRange \<Rightarrow> bool" where
  "registers_range_ok r \<longleftrightarrow> valid_range (rrr_inner r) \<and> unat (ar_count (rrr_inner r)) \<le> 125"

definition multiple_ok :: "'a WriteMultiple \<Rightarrow> bool" where
  "multiple_ok wm \<longleftrightarrow> valid_range (wm_range wm) \<and> length (wm_values wm) = unat (ar_count (wm_range wm))"

fun details_ok :: "RequestDetails \<Rightarrow> bool" where
  "details_ok (Det_ReadCoils x) = bits_range_ok (rdb_request x)"
| "details_ok (Det_ReadDiscreteInputs x) = bits_range_ok (rdb_request x)"
| "details_ok (Det_ReadHoldingRegisters x) = registers_range_ok (rdr_request x)"
| "details_ok (Det_ReadInputRegisters x) = registers_range_ok (rdr_request x)"
| "details_ok (Det_WriteMultipleCoils x) = multiple_ok (mw_request x)"
| "details_ok (Det_WriteMultipleRegisters x) = multiple_ok (mw_request x)"
| "details_ok _ = True"

text \<open>The request as the server sees it.\<close>

fun server_request :: "RequestDetails \<Rightarrow> Request" where
  "server_request (Det_ReadCoils x) = Req_ReadCoils (rdb_request x)"
| "server_request (Det_ReadDiscreteInputs x) = Req_ReadDiscreteInputs (rdb_request x)"
| "server_request (Det_ReadHoldingRegisters x) = Req_ReadHoldingRegisters (rdr_request x)"
| "server_request (Det_ReadInputRegisters x) = Req_ReadInputRegisters (rdr_request x)"
| "server_request (Det_WriteSingleCoil x) = Req_WriteSingleCoil (sw_request x)"
| "server_request (Det_WriteSingleRegister x) = Req_WriteSingleRegister (sw_request x)"
| "server_request (Det_WriteMultipleCoils x) =
     coils_request (wm_range (mw_request x)) (packed_bits (wm_values (mw_request x)))"
| "server_request (Det_WriteMultipleRegisters x) =
     registers_request (wm_range (mw_request x)) (register_bytes (wm_values (mw_request x)))"

lemma be_bytes_eq: "be_bytes v = [be_hi v, be_lo v]"
  by (simp add: be_bytes_def)

lemma range_of_valid: "valid_range r \<Longrightarrow> range_of (ar_start r) (ar_count r) = Ok r"
  by (simp add: range_of_def valid_range_try_from)

lemma decode_range_bytes:
  assumes "valid_range r"
  shows "unat (ar_count r) \<le> 2000 \<Longrightarrow> decode_read_bits c (range_bytes r) = Ok (c (ReadBitsRange r))"
    and "unat (ar_count r) \<le> 125 \<Longrightarrow> decode_read_registers d (range_bytes r) = Ok (d (ReadRegistersRange r))"
    and "decode_multiple sz e (range_bytes r @ cnt # bytes) =
      (if length bytes < sz r then Err (BadResponse InsufficientBytes)
       else if length bytes > sz r then Err (BadResponse (TrailingBytes (length bytes - sz r)))
       else Ok (e r bytes))"
proof -
  show "decode_read_bits c (range_bytes r) = Ok (c (ReadBitsRange r))" if "unat (ar_count r) \<le> 2000"
  proof -
    have "AddressRange_of_read_bits r = Ok (ReadBitsRange r)"
      using assms that by (simp add: AddressRange_of_read_Ok_iff)
    then show ?thesis using assms by (simp add: range_bytes_def be_bytes_eq range_of_valid)
  qed
  show "decode_read_registers d (range_bytes r) = Ok (d (ReadRegistersRange r))" if "unat (ar_count r) \<le> 125"
  proof -
    have "AddressRange_of_read_registers r = Ok (ReadRegistersRange r)"
      using assms that by (simp add: AddressRange_of_read_Ok_iff)
    then show ?thesis using assms by (simp add: range_bytes_def be_bytes_eq range_of_valid)
  qed
  show "decode_multiple sz e (range_bytes r @ cnt # bytes) =
      (if length bytes < sz r then Err (BadResponse InsufficientBytes)
       else if length bytes > sz r then Err (BadResponse (TrailingBytes (length bytes - sz r)))
       else Ok (e r bytes))"
    using assms by (simp add: range_bytes_def be_bytes_eq range_of_valid)
qed

lemma coil_of_round: "coil_of (ix_index x) (coil_to_u16 (ix_value x)) = Ok x"
  by (simp add: coil_of_def Indexed_new_def)

lemma register_of_round: "register_of (ix_index x) (ix_value x) = Ok x"
  by (simp add: register_of_def Indexed_new_def)

lemma read_ranges_eq: "ReadBitsRange (rbr_inner b) = b" "ReadRegistersRange (rrr_inner r) = r"
  by (cases b; simp) (cases r; simp)

lemma decode_details:
  assumes "details_ok d"
  shows "decode_request (RequestDetails_function d) (details_body d) = Ok (server_request d)"
  using assms
  by (cases d)
    (simp_all add: bits_range_ok_def registers_range_ok_def multiple_ok_def decode_range_bytes read_ranges_eq
      indexed_bool_bytes_def indexed_u16_bytes_def be_bytes_eq coil_of_round
      register_of_round [unfolded register_of_def] Indexed_new_def bool_slice_bytes_def u16_slice_bytes_def
      length_packed_bits num_bytes_for_bits_def)

context write_cursor
begin

lemma emits_details:
  assumes "length (details_body d) \<le> 256"
  shows "emits wbuf wpos (RequestDetails_serialize P d) (details_body d)"
proof (cases d)
  case (Det_WriteSingleCoil x)
  then show ?thesis
    using emits_IndexedBool [of "sw_request x"]
    by (simp add: SingleWriteBool_serialize_def IndexedBool_serialize_def)
next
  case (Det_WriteSingleRegister x)
  then show ?thesis
    using emits_IndexedU16 [of "sw_request x"]
    by (simp add: SingleWriteU16_serialize_def IndexedU16_serialize_def)
next
  case (Det_WriteMultipleCoils x)
  then show ?thesis using assms by (simp add: emits_WriteMultipleBool)
next
  case (Det_WriteMultipleRegisters x)
  then show ?thesis using assms by (simp add: emits_WriteMultipleU16)
qed (simp_all add: emits_AddressRange)

end

section \<open>The answer as the client reads it\<close>

definition expected_bits ::
    "(u16 \<Rightarrow> (bool, ExceptionCode) result) \<Rightarrow> AddressRange \<Rightarrow> (reply_value, RequestError) result" where
  "expected_bits g r = (case read_all g (range_addresses r) of
      Ok vs \<Rightarrow> Ok (bits_value r (packed_bits vs))
    | Err ex \<Rightarrow> Err (Exception (ExceptionCode_from_u8 (ExceptionCode_to_u8 ex)))
    | Panic \<Rightarrow> Panic)"

definition expected_registers ::
    "(u16 \<Rightarrow> (u16, ExceptionCode) result) \<Rightarrow> AddressRange \<Rightarrow> (reply_value, RequestError) result" where
  "expected_registers g r = (case read_all g (range_addresses r) of
      Ok vs \<Rightarrow> Ok (registers_value r (register_bytes vs))
    | Err ex \<Rightarrow> Err (Exception (ExceptionCode_from_u8 (ExceptionCode_to_u8 ex)))
    | Panic \<Rightarrow> Panic)"

definition expected_write ::
    "reply_value \<Rightarrow> (unit, ExceptionCode) result \<Rightarrow> (reply_value, RequestError) result" where
  "expected_write v x = (case x of
      Ok _ \<Rightarrow> Ok v
    | Err ex \<Rightarrow> Err (Exception (ExceptionCode_from_u8 (ExceptionCode_to_u8 ex)))
    | Panic \<Rightarrow> Panic)"

text \<open>The outcome of a request on the application's data, without any protocol.\<close>

fun expected_outcome :: "'h RequestHandler \<Rightarrow> RequestDetails \<Rightarrow> 'h \<Rightarrow> (reply_value, RequestError) result" where
  "expected_outcome H (Det_ReadCoils x) h = expected_bits (rh_read_coil H h) (rbr_inner (rdb_request x))"
| "expected_outcome H (Det_ReadDiscreteInputs x) h =
     expected_bits (rh_read_discrete_input H h) (rbr_inner (rdb_request x))"
| "expected_outcome H (Det_ReadHoldingRegisters x) h =
     expected_registers (rh_read_holding_register H h) (rrr_inner (rdr_request x))"
| "expected_outcome H (Det_ReadInputRegisters x) h =
     expected_registers (rh_read_input_register H h) (rrr_inner (rdr_request x))"
| "expected_outcome H (Det_WriteSingleCoil x) h =
     expected_write (Reply_Coil (sw_request x)) (fst (rh_write_single_coil H (sw_request x) h))"
| "expected_outcome H (Det_WriteSingleRegister x) h =
     expected_write (Reply_Register (sw_request x)) (fst (rh_write_single_register H (sw_request x) h))"
| "expected_outcome H (Det_WriteMultipleCoils x) h = (let r = wm_range (mw_request x) in
     expected_write (Reply_Range r) (fst (rh_write_multiple_coils H (WriteCoils_new r
       \<lparr>bi_bytes = packed_bits (wm_values (mw_request x)), bi_range = r, bi_pos = 0\<rparr>) h)))"
| "expected_outcome H (Det_WriteMultipleRegisters x) h = (let r = wm_range (mw_request x) in
     expected_write (Reply_Range r) (fst (rh_write_multiple_registers H (WriteRegisters_new r
       \<lparr>ri_bytes = register_bytes (wm_values (mw_request x)), ri_range = r, ri_pos = 0\<rparr>) h)))"

lemma function_ne_error: "FunctionCode_as_error f \<noteq> FunctionCode_get_value f"
  by (cases f) (simp_all add: FunctionCode_as_error_def)

lemma outcome_exception:
  "response_outcome d (exception_pdu (RequestDetails_function d) ex) =
     Err (Exception (ExceptionCode_from_u8 (ExceptionCode_to_u8 ex)))"
  using function_ne_error [of "RequestDetails_function d"] by (simp add: exception_pdu_def Let_def)

lemma outcome_answer_bits:
  assumes "answer_read f bool_slice_bytes g r = Ok pdu" and "f = RequestDetails_function d"
    and "decode_response d = decode_values (num_bytes_for_bits (ar_count r)) (bits_value r)"
  shows "response_outcome d pdu = expected_bits g r"
proof (cases "read_all g (range_addresses r)")
  case (Ok vs)
  then obtain v where "map v (range_addresses r) = vs" using read_all_Ok by metis
  then have "length vs = unat (ar_count r)" by auto
  then show ?thesis
    using assms Ok by (auto simp: answer_read_def expected_bits_def bool_slice_bytes_def Let_def
        length_packed_bits num_bytes_for_bits_def)
next
  case (Err ex)
  then have "pdu = exception_pdu f ex" using assms(1) by (simp add: answer_read_def)
  then show ?thesis using assms(2) Err by (simp add: outcome_exception expected_bits_def del: response_outcome.simps)
qed (use assms in \<open>simp add: answer_read_def\<close>)

lemma outcome_answer_registers:
  assumes "answer_read f u16_slice_bytes g r = Ok pdu" and "f = RequestDetails_function d"
    and "decode_response d = decode_values (2 * unat (ar_count r)) (registers_value r)"
  shows "response_outcome d pdu = expected_registers g r"
proof (cases "read_all g (range_addresses r)")
  case (Ok vs)
  then obtain v where "map v (range_addresses r) = vs" using read_all_Ok by metis
  then have "length vs = unat (ar_count r)" by auto
  then show ?thesis
    using assms Ok by (auto simp: answer_read_def expected_registers_def u16_slice_bytes_def Let_def)
next
  case (Err ex)
  then have "pdu = exception_pdu f ex" using assms(1) by (simp add: answer_read_def)
  then show ?thesis
    using assms(2) Err by (simp add: outcome_exception expected_registers_def del: response_outcome.simps)
qed (use assms in \<open>simp add: answer_read_def\<close>)

lemma outcome_answer_write:
  assumes "answer_write f echo x = (Ok pdu, h)" and "f = RequestDetails_function d"
    and "decode_response d echo = Ok v"
  shows "response_outcome d pdu = expected_write v (fst x)"
proof (cases "fst x")
  case (Ok u)
  then show ?thesis
    using assms by (cases x) (auto simp: answer_write_def expected_write_def Let_def)
next
  case (Err ex)
  then have "pdu = exception_pdu f ex" using assms(1) by (cases x) (simp add: answer_write_def)
  then show ?thesis
    using assms(2) Err by (simp add: outcome_exception expected_write_def del: response_outcome.simps)
qed (use assms in \<open>cases x; simp add: answer_write_def\<close>)

lemma decode_echoes:
  "decode_echo coil_of x c (indexed_bool_bytes x) = Ok (c x)"
  "decode_echo register_of y e (indexed_u16_bytes y) = Ok (e y)"
  "valid_range r \<Longrightarrow> decode_range_echo r (range_bytes r) = Ok (Reply_Range r)"
  by (simp_all add: indexed_bool_bytes_def indexed_u16_bytes_def range_bytes_def be_bytes_eq coil_of_round
      register_of_round range_of_valid)

text \<open>The client reads the server's answer as the outcome of the request on the handler.\<close>

lemma outcome_answer:
  assumes "details_ok d" and ans: "answer H (server_request d) h = (Ok pdu, h')"
  shows "response_outcome d pdu = expected_outcome H d h"
proof (cases d)
  case (Det_ReadCoils x)
  then show ?thesis using ans by (auto simp: Let_def intro!: outcome_answer_bits)
next
  case (Det_ReadDiscreteInputs x)
  then show ?thesis using ans by (auto simp: Let_def intro!: outcome_answer_bits)
next
  case (Det_ReadHoldingRegisters x)
  then show ?thesis using ans by (auto simp: Let_def intro!: outcome_answer_registers)
next
  case (Det_ReadInputRegisters x)
  then show ?thesis using ans by (auto simp: Let_def intro!: outcome_answer_registers)
next
  case (Det_WriteSingleCoil x)
  then have "answer_write WriteSingleCoil (indexed_bool_bytes (sw_request x))
      (rh_write_single_coil H (sw_request x) h) = (Ok pdu, h')" using ans by simp
  from outcome_answer_write [OF this, of d] show ?thesis
    using Det_WriteSingleCoil by (simp add: decode_echoes)
next
  case (Det_WriteSingleRegister x)
  then have "answer_write WriteSingleRegister (indexed_u16_bytes (sw_request x))
      (rh_write_single_register H (sw_request x) h) = (Ok pdu, h')" using ans by simp
  from outcome_answer_write [OF this, of d] show ?thesis
    using Det_WriteSingleRegister by (simp add: decode_echoes)
next
  case (Det_WriteMultipleCoils x)
  let ?r = "wm_range (mw_request x)"
  have "answer_write WriteMultipleCoils (range_bytes ?r) (rh_write_multiple_coils H (WriteCoils_new ?r
      \<lparr>bi_bytes = packed_bits (wm_values (mw_request x)), bi_range = ?r, bi_pos = 0\<rparr>) h) = (Ok pdu, h')"
    using ans Det_WriteMultipleCoils by (simp add: coils_request_def WriteCoils_new_def)
  from outcome_answer_write [OF this, of d] show ?thesis
    using Det_WriteMultipleCoils assms(1) by (simp add: decode_echoes multiple_ok_def Let_def)
next
  case (Det_WriteMultipleRegisters x)
  let ?r = "wm_range (mw_request x)"
  have "answer_write WriteMultipleRegisters (range_bytes ?r) (rh_write_multiple_registers H (WriteRegisters_new ?r
      \<lparr>ri_bytes = register_bytes (wm_values (mw_request x)), ri_range = ?r, ri_pos = 0\<rparr>) h) = (Ok pdu, h')"
    using ans Det_WriteMultipleRegisters by (simp add: registers_request_def WriteRegisters_new_def)
  from outcome_answer_write [OF this, of d] show ?thesis
    using Det_WriteMultipleRegisters assms(1) by (simp add: decode_echoes multiple_ok_def Let_def)
qed

section \<open>Well-formed PDUs\<close>

text \<open>
  Requests that fit the 253 bytes of a PDU, and the answers to them, have the length that their
  function code announces, so that they can also be sent over a serial line.
\<close>

lemma details_pdu_ok:
  assumes "details_ok d" and "length (details_body d) \<le> 252"
  shows "rtu_pdu_ok Request (details_pdu d)"
proof -
  have mode: "RtuParser_length_mode Request (FunctionCode_get_value f) = (case f of
      WriteMultipleCoils \<Rightarrow> Offset 5 | WriteMultipleRegisters \<Rightarrow> Offset 5 | _ \<Rightarrow> Fixed 4)" for f
    by (cases f) (simp_all add: RtuParser_length_mode_def FunctionCode_get_def)
  show ?thesis
    using assms
    by (cases d)
      (simp_all add: details_pdu_def mode MAX_ADU_LENGTH_def nth_append bool_slice_bytes_def u16_slice_bytes_def
        unat_of_nat_u8 length_packed_bits del: FunctionCode_get_value.simps of_nat_mult)
qed

lemma mode_of_response:
  "RtuParser_length_mode Response (FunctionCode_as_error f) = Fixed 1"
  "RtuParser_length_mode Response (FunctionCode_get_value f) = (if f \<in> {ReadCoils, ReadDiscreteInputs,
     ReadHoldingRegisters, ReadInputRegisters} then Offset 1 else Fixed 4)"
  by (cases f; simp add: RtuParser_length_mode_def FunctionCode_as_error_def)
    (cases f; simp add: RtuParser_length_mode_def FunctionCode_get_def)

lemma exception_pdu_ok: "rtu_pdu_ok Response (exception_pdu f ex)"
  by (simp add: exception_pdu_def mode_of_response MAX_ADU_LENGTH_def)

lemma answer_read_pdu_ok:
  assumes "answer_read f enc g r = Ok pdu"
    and "f \<in> {ReadCoils, ReadDiscreteInputs, ReadHoldingRegisters, ReadInputRegisters}"
    and "\<And>vs. length vs = unat (ar_count r) \<Longrightarrow> \<exists>bs. enc vs = of_nat (length bs) # bs \<and> length bs \<le> 250"
  shows "rtu_pdu_ok Response pdu"
proof (cases "read_all g (range_addresses r)")
  case (Ok vs)
  then obtain v where "map v (range_addresses r) = vs" using read_all_Ok by metis
  then have "length vs = unat (ar_count r)" by auto
  then obtain bs where "enc vs = of_nat (length bs) # bs" "length bs \<le> 250" using assms(3) by blast
  moreover from this have "pdu = FunctionCode_get_value f # of_nat (length bs) # bs"
    using assms(1) Ok by (simp add: answer_read_def)
  ultimately show ?thesis
    using assms(2) mode_of_response(2) [of f]
    by (auto simp: MAX_ADU_LENGTH_def unat_of_nat_u8 simp del: FunctionCode_get_value.simps)
qed (use assms(1) exception_pdu_ok in \<open>auto simp: answer_read_def\<close>)

lemma answer_write_pdu_ok:
  assumes "answer_write f echo x = (Ok pdu, h)" and "length echo = 4"
    and "f \<notin> {ReadCoils, ReadDiscreteInputs, ReadHoldingRegisters, ReadInputRegisters}"
  shows "rtu_pdu_ok Response pdu"
  using assms mode_of_response(2) [of f] exception_pdu_ok
  by (auto simp: answer_write_def MAX_ADU_LENGTH_def split: prod.splits result.splits
      simp del: FunctionCode_get_value.simps)

lemma answer_pdu_ok:
  assumes "request_ok req" and "answer H req h = (Ok pdu, h')"
  shows "rtu_pdu_ok Response pdu"
proof -
  have bits: "\<exists>bs. bool_slice_bytes vs = of_nat (length bs) # bs \<and> length bs \<le> 250"
    if "length vs = n" "n \<le> 2000" for vs n
    using that by (simp add: bool_slice_bytes_def length_packed_bits)
  have regs: "\<exists>bs. u16_slice_bytes vs = of_nat (length bs) # bs \<and> length bs \<le> 250"
    if "length vs = n" "n \<le> 125" for vs n
    using that by (simp add: u16_slice_bytes_def)
  show ?thesis
    using assms
    by (cases req) (auto intro: bits regs elim!: answer_read_pdu_ok answer_write_pdu_ok)
qed

section \<open>A link between a client and a server\<close>

text \<open>
  What an exchange relies on: each side's parser, when idle, recognises the frame that the other
  side writes for a well-formed PDU, and a frame for a device reaches it under a header that names
  the device and, if it carries a transaction id at all, the one of the request.
\<close>

definition reader_ready :: "(FrameParser \<Rightarrow> bool) \<Rightarrow> FramedReader \<Rightarrow> bool" where
  "reader_ready idle r \<longleftrightarrow> idle (fdr_parser r) \<and> rb_wf (fdr_buffer r) \<and> rb_view (fdr_buffer r) = []"

lemma replies_Some:
  assumes "replies P h s (Some pdu, st) (res, s')"
  shows "ss_store s' = st" and "st_reader (ss_task s') = st_reader (ss_task s)"
    and "(res, ss_io s') = conv_err RequestError_from_io
      (io_write P (frame_bytes P (fw_format_type (st_writer (ss_task s))) h pdu)) (ss_io s)"
proof -
  have "ss_task s' = (ss_task s)\<lparr>st_writer := st_writer (ss_task s')\<rparr>"
    using assms by (simp add: replies_def)
  from arg_cong [OF this, of st_reader] show "st_reader (ss_task s') = st_reader (ss_task s)" by simp
qed (use assms in \<open>simp_all add: replies_def\<close>)

locale link = platform P rview wbuf wpos incoming sent
  + server: frame_codec P incoming sent server_expects server_idle
  + client: frame_codec P incoming sent client_expects client_idle
  for P :: "('r, 'w, 'd, 'io) platform"
    and rview :: "'r \<Rightarrow> u8 list" and wbuf :: "'w \<Rightarrow> u8 list" and wpos :: "'w \<Rightarrow> nat"
    and incoming :: "'io \<Rightarrow> segment list" and sent :: "'io \<Rightarrow> u8 list"
    and server_expects client_expects :: "FrameParser \<Rightarrow> u8 list \<Rightarrow> Frame \<Rightarrow> bool"
    and server_idle client_idle :: "FrameParser \<Rightarrow> bool" +
  fixes fmt :: FormatType
    and heard :: "UnitId \<Rightarrow> TxId \<Rightarrow> FrameHeader"
    and device :: "UnitId \<Rightarrow> bool"
  assumes heard_ok: "header_ok fmt (heard u tx)"
    and heard_tx: "fh_tx_id (heard u tx) = None \<or> fh_tx_id (heard u tx) = Some tx"
    and heard_device: "device u \<Longrightarrow> fh_destination (heard u tx) = Dest_UnitId u"
    and heard_same: "frame_bytes P fmt (heard u tx) pdu = frame_bytes P fmt (FrameHeader_new_tcp_header u tx) pdu"
    and server_starts: "server_idle p \<Longrightarrow> rtu_pdu_ok Request pdu \<Longrightarrow>
      server_expects p (frame_bytes P fmt (FrameHeader_new_tcp_header u tx) pdu) (frame_of (heard u tx) pdu)"
    and client_starts: "client_idle p \<Longrightarrow> rtu_pdu_ok Response pdu \<Longrightarrow>
      client_expects p (frame_bytes P fmt (FrameHeader_new_tcp_header u tx) pdu) (frame_of (heard u tx) pdu)"
begin

lemma pdu_length:
  assumes "rtu_pdu_ok t pdu"
  shows "length pdu \<le> MAX_ADU_LENGTH" and "frame_bytes P fmt h pdu \<noteq> []"
    and "length (frame_bytes P fmt h pdu) \<le> MAX_FRAME_LENGTH"
proof -
  obtain fc body where pdu: "pdu = fc # body" "length body + 1 \<le> MAX_ADU_LENGTH"
    using assms by (cases pdu) auto
  then have len: "length (frame_bytes P fmt h pdu) = overhead fmt + length body"
    by (simp add: length_frame_bytes)
  show "length pdu \<le> MAX_ADU_LENGTH" using pdu by simp
  have "0 < overhead fmt \<and> overhead fmt \<le> 8" by (cases fmt) simp_all
  then show "frame_bytes P fmt h pdu \<noteq> []" "length (frame_bytes P fmt h pdu) \<le> MAX_FRAME_LENGTH"
    using len pdu(2) by (auto simp: MAX_ADU_LENGTH_def)
qed

text \<open>The client writes the request and waits; it is ready for the reply.\<close>

lemma client_sends:
  assumes "fw_wf (cl_writer (cw_loop w))" and "fw_format_type (cl_writer (cw_loop w)) = fmt"
    and "reader_ready client_idle (cl_reader (cw_loop w))" and "incoming (cw_io w) = []"
    and "\<And>bs io. fst (io_write P bs io) = Ok ()"
    and "length (details_body (cr_details req)) \<le> 252" and "rtu_pdu_ok Response pdu"
  defines "tx \<equiv> cl_tx_id (cw_loop w)"
  shows "\<exists>w1. ClientLoop_run_one_request P False (b # ts) req w = Some (Pending, w1) \<and>
    sent (cw_io w1) = sent (cw_io w) @
      frame_bytes P fmt (FrameHeader_new_tcp_header (cr_id req) tx) (details_pdu (cr_details req)) \<and>
    cw_log w1 = cw_log w \<and> cw_current w1 = Some (req, tx) \<and>
    rb_wf (fdr_buffer (cl_reader (cw_loop w1))) \<and> rb_view (fdr_buffer (cl_reader (cw_loop w1))) = [] \<and>
    client_expects (fdr_parser (cl_reader (cw_loop w1)))
      (frame_bytes P fmt (FrameHeader_new_tcp_header (cr_id req) tx) pdu) (frame_of (heard (cr_id req) tx) pdu)"
proof -
  let ?h = "FrameHeader_new_tcp_header (cr_id req) tx" and ?d = "cr_details req"
  let ?out = "frame_bytes P fmt ?h (details_pdu ?d)" and ?post = "frame_bytes P fmt ?h pdu"
  let ?f = "frame_of (heard (cr_id req) tx) pdu"
  define w0 where "w0 = w\<lparr>cw_loop := (cw_loop w)\<lparr>cl_tx_id := TxId (tx_value tx + 1)\<rparr>\<rparr>"
  have hdr: "header_ok (fw_format_type (cl_writer (cw_loop w))) ?h"
    by (simp add: header_ok_def FrameHeader_new_tcp_header_def)
  have "length (details_body ?d) \<le> 256" "overhead (fw_format_type (cl_writer (cw_loop w))) + length (details_body ?d)
      \<le> MAX_FRAME_LENGTH"
    using assms(6) by (cases "fw_format_type (cl_writer (cw_loop w))"; simp)+
  then obtain fw where fw: "FrameWriter_format_request P ?h (RequestDetails_function ?d)
      (RequestDetails_serialize P ?d) (cl_writer (cw_loop w)) = (Ok ?out, fw)"
    using format_request_wire [OF assms(1) hdr emits_details [of ?d], of "RequestDetails_function ?d"] assms(2)
    by (auto simp: details_pdu_def)
  obtain io1 where io1: "io_write P ?out (cw_io w) = (Ok (), io1)"
    using assms(5) [of ?out "cw_io w"] by (cases "io_write P ?out (cw_io w)") simp
  from io_write_Ok [OF this] have io: "sent io1 = sent (cw_io w) @ ?out" "incoming io1 = []"
    using assms(4) by simp_all
  let ?w2 = "w0\<lparr>cw_loop := (cw_loop w0)\<lparr>cl_writer := fw\<rparr>, cw_io := io1\<rparr>"
  have send: "ClientLoop_send_request P req tx w0 = (Ok (), ?w2)"
    using fw io1 by (simp add: ClientLoop_send_request_def w0_def Let_def conv_err_def)
  let ?r = "cl_reader (cw_loop w)"
  have ready: "rb_wf (fdr_buffer ?r)" "rb_view (fdr_buffer ?r) = []" "client_idle (fdr_parser ?r)"
    using assms(3) by (simp_all add: reader_ready_def)
  obtain r' io' where nf: "FramedReader_next_frame P ?r io1 = Some (Pending, r', io')" "rb_wf (fdr_buffer r')"
    "client_expects (fdr_parser r') (rb_view (fdr_buffer r') @ ?post) ?f" "rb_end (fdr_buffer r') = 0"
    "sent io' = sent io1"
    using client.next_frame_waits [OF ready(1), of "[]" ?post ?f io1]
      client_starts [OF ready(3) assms(7)] pdu_length(2) [OF assms(7)] ready(2) io(2) by auto
  have "rb_view (fdr_buffer r') = []" using nf(4) by (simp add: rb_view_def)
  then show ?thesis
    using nf io send
    by (auto simp: ClientLoop_run_one_request_def TxId_next_eq tx_def [symmetric] w0_def [symmetric]
        ClientLoop_poll_request_def Let_def) (simp_all add: w0_def)
qed

text \<open>The server reads the request, runs it on the device's handler and writes the answer.\<close>

lemma server_answers:
  assumes "fw_wf (st_writer (ss_task s))" and "fw_format_type (st_writer (ss_task s)) = fmt"
    and "reader_ready server_idle (st_reader (ss_task s))"
    and "\<And>bs io. fst (io_write P bs io) = Ok ()"
    and "device u" and "ServerHandlerMap_get u (st_handlers (ss_task s)) = Some ref"
    and "AuthorizationType_is_authorized (st_auth (ss_task s)) u (server_request d) = Allow"
    and "handler_total H" and "healthy (ss_store s)"
    and "details_ok d" and "length (details_body d) \<le> 252" and "iterable P (server_request d)"
    and "answer H (server_request d) (mx_value (ss_store s ref)) = (Ok pdu, h')"
    and "concat segs = frame_bytes P fmt (FrameHeader_new_tcp_header u tx) (details_pdu d)"
    and "\<forall>x \<in> set segs. x \<noteq> []" and "incoming (ss_io s) = map Data segs @ rest"
  shows "\<exists>s1. SessionTask_poll_frame P H s = Some (Ready (Ok ()), s1) \<and>
    sent (ss_io s1) = sent (ss_io s) @ frame_bytes P fmt (FrameHeader_new_tcp_header u tx) pdu \<and>
    incoming (ss_io s1) = rest \<and> ss_store s1 = (ss_store s)(ref := RequestHandler_wrap h') \<and>
    reader_ready server_idle (st_reader (ss_task s1))"
proof -
  let ?f = "frame_of (heard u tx) (details_pdu d)" and ?r = "st_reader (ss_task s)"
  note ok = details_pdu_ok [OF assms(10,11)]
  have ready: "rb_wf (fdr_buffer ?r)" "rb_view (fdr_buffer ?r) = []" "server_idle (fdr_parser ?r)"
    using assms(3) by (simp_all add: reader_ready_def)
  have exp: "server_expects (fdr_parser ?r) (rb_view (fdr_buffer ?r) @ concat segs) ?f"
    using server_starts [OF ready(3) ok] ready(2) assms(14) by simp
  have fits: "(if rb_view (fdr_buffer ?r) = [] then 0 else rb_end (fdr_buffer ?r)) + length (concat segs)
      \<le> MAX_FRAME_LENGTH"
    using ready(2) assms(14) pdu_length(3) [OF ok] by simp
  obtain r' io' where nf: "FramedReader_next_frame P ?r (ss_io s) = Some (Ready (Ok ?f), r', io')"
    "reader_ready server_idle r'" "incoming io' = rest" "sent io' = sent (ss_io s)"
    using server.next_frame_segments [OF ready(1) exp fits assms(15,16)] by (auto simp: reader_ready_def)
  define s0 where "s0 = s\<lparr>ss_task := (ss_task s)\<lparr>st_reader := r'\<rparr>, ss_io := io'\<rparr>"
  have hdr: "fr_header ?f = heard u tx" "Frame_payload ?f = details_pdu d"
    using pdu_length(1) [OF ok] by simp_all
  have dec: "decode_request (RequestDetails_function d) (details_body d) = Ok (server_request d)"
    by (rule decode_details [OF assms(10)])
  have unit: "FrameDestination_into_unit_id (Dest_UnitId u) = u"
    by (simp add: FrameDestination_into_unit_id_def UnitId_new_def)
  have serve: "serve H (st_handlers (ss_task s0)) (st_auth (ss_task s0)) (fh_destination (fr_header ?f))
      (Frame_payload ?f) (ss_store s0) = (Some pdu, (ss_store s)(ref := RequestHandler_wrap h'))"
    using assms(5,6,7,13) dec unfolding hdr
    using decoded_no_overflow [OF dec]
    by (simp add: details_pdu_def heard_device unit s0_def serve_request_def serve_unit_def function_table_get
        allows_authorized addressed_into_unit_id [symmetric] ServerHandlerMap_get_def bt_get_def)
  have it: "iterable P q" if "Frame_payload ?f = FunctionCode_get_value f # body" "decode_request f body = Ok q"
    for f body q
    using that dec assms(12) unfolding hdr by (simp add: details_pdu_def)
  have nov: "\<not> overflowing_range (Frame_payload ?f)" using decoded_no_overflow [OF dec] unfolding hdr by (simp add: details_pdu_def)
  have "replies P (fr_header ?f) s0 (Some pdu, (ss_store s)(ref := RequestHandler_wrap h'))
      (SessionTask_handle_frame P H ?f s0)"
    using handle_frame_serve [of s0 ?f H, unfolded serve] it assms(1,2,8,9) heard_ok [of u tx] hdr(1) nov
    by (simp add: s0_def)
  moreover obtain res s1 where s1: "SessionTask_handle_frame P H ?f s0 = (res, s1)" by fastforce
  ultimately have rep: "replies P (heard u tx) s0 (Some pdu, (ss_store s)(ref := RequestHandler_wrap h')) (res, s1)"
    using hdr(1) by simp
  have io1: "(res, ss_io s1) = conv_err RequestError_from_io
      (io_write P (frame_bytes P fmt (FrameHeader_new_tcp_header u tx) pdu)) io'"
    using replies_Some(3) [OF rep] assms(2) heard_same by (simp add: s0_def)
  obtain io2 where io2: "io_write P (frame_bytes P fmt (FrameHeader_new_tcp_header u tx) pdu) io' = (Ok (), io2)"
    using assms(4) by (metis prod.collapse)
  have "res = Ok ()" "ss_io s1 = io2" using io1 io2 by (simp_all add: conv_err_def)
  moreover have "SessionTask_poll_frame P H s = Some (Ready res, s1)"
    using nf(1) s1 by (simp add: SessionTask_poll_frame_def Let_def s0_def)
  ultimately show ?thesis using io_write_Ok [OF io2] nf replies_Some(1,2) [OF rep] by (auto simp: s0_def)
qed

text \<open>The client reads the answer and completes the request.\<close>

lemma client_receives:
  assumes "rb_wf (fdr_buffer (cl_reader (cw_loop w)))" and "rb_view (fdr_buffer (cl_reader (cw_loop w))) = []"
    and "client_expects (fdr_parser (cl_reader (cw_loop w)))
      (frame_bytes P fmt (FrameHeader_new_tcp_header u tx) pdu) (frame_of (heard u tx) pdu)"
    and "rtu_pdu_ok Response pdu" and "request_callback req = Some cb"
    and "concat segs = frame_bytes P fmt (FrameHeader_new_tcp_header u tx) pdu"
    and "\<forall>x \<in> set segs. x \<noteq> []" and "incoming (cw_io w) = map Data segs @ rest"
    and "response_outcome (cr_details req) pdu = out" and "out \<noteq> Panic"
  shows "\<exists>r w2. ClientLoop_poll_request P False (b # ts) req tx w = Some (Ready r, w2) \<and>
    cw_log w2 = cw_log w @ [(cb, out)] \<and> cw_current w2 = None \<and>
    reader_ready client_idle (cl_reader (cw_loop w2)) \<and> incoming (cw_io w2) = rest"
proof -
  let ?f = "frame_of (heard u tx) pdu" and ?r = "cl_reader (cw_loop w)"
  have fits: "(if rb_view (fdr_buffer ?r) = [] then 0 else rb_end (fdr_buffer ?r)) + length (concat segs)
      \<le> MAX_FRAME_LENGTH"
    using assms(2,6) pdu_length(3) [OF assms(4)] by simp
  have exp: "client_expects (fdr_parser ?r) (rb_view (fdr_buffer ?r) @ concat segs) ?f"
    using assms(2,3,6) by simp
  obtain r' io' where nf: "FramedReader_next_frame P ?r (cw_io w) = Some (Ready (Ok ?f), r', io')"
    "reader_ready client_idle r'" "incoming io' = rest"
    using client.next_frame_segments [OF assms(1) exp fits assms(7,8)] by (auto simp: reader_ready_def)
  let ?w = "w\<lparr>cw_loop := (cw_loop w)\<lparr>cl_reader := r'\<rparr>, cw_io := io'\<rparr>"
  have "ClientLoop_await_response P tx False (b # ts) w = Some (Ready (Ok ?f), ?w)"
    using nf(1) heard_tx [of u tx] by (auto simp: Let_def)
  moreover have "Frame_payload ?f = pdu" using pdu_length(1) [OF assms(4)] by simp
  ultimately show ?thesis
    using handle_response_once [OF assms(5), of ?f ?w] assms(9,10) nf
    by (cases out) (auto simp: ClientLoop_poll_request_def)
qed

end

section \<open>A complete exchange\<close>

definition client_up :: "(FrameParser \<Rightarrow> bool) \<Rightarrow> FormatType \<Rightarrow> 'io client \<Rightarrow> bool" where
  "client_up idle fmt w \<longleftrightarrow> fw_wf (cl_writer (cw_loop w)) \<and> fw_format_type (cl_writer (cw_loop w)) = fmt \<and>
     reader_ready idle (cl_reader (cw_loop w))"

definition server_up :: "(FrameParser \<Rightarrow> bool) \<Rightarrow> FormatType \<Rightarrow> ('h, 'io) session \<Rightarrow> bool" where
  "server_up idle fmt s \<longleftrightarrow> fw_wf (st_writer (ss_task s)) \<and> fw_format_type (st_writer (ss_task s)) = fmt \<and>
     reader_ready idle (st_reader (ss_task s)) \<and> healthy (ss_store s)"

text \<open>The server has the device, and its policy lets the request through.\<close>

definition serves_device :: "('h, 'io) session \<Rightarrow> UnitId \<Rightarrow> handler_ref \<Rightarrow> RequestDetails \<Rightarrow> bool" where
  "serves_device s u ref d \<longleftrightarrow> ServerHandlerMap_get u (st_handlers (ss_task s)) = Some ref \<and>
     AuthorizationType_is_authorized (st_auth (ss_task s)) u (server_request d) = Allow"

text \<open>What the client API lets through and fits into a PDU.\<close>

definition sendable :: "('r, 'w, 'd, 'io) platform \<Rightarrow> RequestDetails \<Rightarrow> bool" where
  "sendable P d \<longleftrightarrow> details_ok d \<and> length (details_body d) \<le> 252 \<and> iterable P (server_request d)"

definition arrives :: "('io \<Rightarrow> segment list) \<Rightarrow> u8 list \<Rightarrow> 'io \<Rightarrow> segment list \<Rightarrow> bool" where
  "arrives incoming bs io rest \<longleftrightarrow>
     (\<exists>segs. concat segs = bs \<and> (\<forall>x \<in> set segs. x \<noteq> []) \<and> incoming io = map Data segs @ rest)"

lemma expected_outcome_total:
  assumes "handler_total H"
  shows "expected_outcome H d h \<noteq> Panic"
proof -
  have read: "read_all (rh_read_coil H h) as \<noteq> Panic" "read_all (rh_read_discrete_input H h) as \<noteq> Panic"
    "read_all (rh_read_holding_register H h) bs \<noteq> Panic" "read_all (rh_read_input_register H h) bs \<noteq> Panic" for as bs
    using assms by (simp_all add: read_all_total handler_total_def)
  have wr: "expected_write v x \<noteq> Panic" if "x \<noteq> Panic" for v x
    using that by (cases x) (simp_all add: expected_write_def)
  show ?thesis
    using assms read
    by (cases d) (auto simp: expected_bits_def expected_registers_def Let_def handler_total_def intro!: wr
        split: result.splits)
qed

lemma server_request_ok: "details_ok d \<Longrightarrow> request_ok (server_request d)"
  using decode_request_ok [OF decode_details] by blast

context link
begin

lemma exchange:
  fixes w :: "'io client" and s :: "('h, 'io) session"
  assumes c: "client_up client_idle fmt w" "incoming (cw_io w) = []"
    and sv: "server_up server_idle fmt s" "handler_total H" "device (cr_id req)" "serves_device s (cr_id req) ref (cr_details req)"
    and wr: "\<And>bs io. fst (io_write P bs io) = Ok ()"
    and d: "sendable P (cr_details req)" "request_callback req = Some cb"
    and "arrives incoming (frame_bytes P fmt (FrameHeader_new_tcp_header (cr_id req) (cl_tx_id (cw_loop w)))
        (details_pdu (cr_details req))) (ss_io s) rest"
  shows "\<exists>pdu h' w1 s1.
    answer H (server_request (cr_details req)) (mx_value (ss_store s ref)) = (Ok pdu, h') \<and>
    ClientLoop_run_one_request P False (b # ts) req w = Some (Pending, w1) \<and>
    sent (cw_io w1) = sent (cw_io w) @
      frame_bytes P fmt (FrameHeader_new_tcp_header (cr_id req) (cl_tx_id (cw_loop w))) (details_pdu (cr_details req)) \<and>
    SessionTask_poll_frame P H s = Some (Ready (Ok ()), s1) \<and>
    ss_store s1 = (ss_store s)(ref := RequestHandler_wrap h') \<and>
    sent (ss_io s1) = sent (ss_io s) @
      frame_bytes P fmt (FrameHeader_new_tcp_header (cr_id req) (cl_tx_id (cw_loop w))) pdu \<and>
    (\<forall>io rest'. arrives incoming
        (frame_bytes P fmt (FrameHeader_new_tcp_header (cr_id req) (cl_tx_id (cw_loop w))) pdu) io rest' \<longrightarrow>
      (\<exists>r w2. ClientLoop_poll_request P False (b # ts) req (cl_tx_id (cw_loop w)) (w1\<lparr>cw_io := io\<rparr>) = Some (Ready r, w2) \<and>
        cw_log w2 = cw_log w @ [(cb, expected_outcome H (cr_details req) (mx_value (ss_store s ref)))] \<and>
        cw_current w2 = None \<and> reader_ready client_idle (cl_reader (cw_loop w2))))"
proof -
  let ?d = "cr_details req" and ?tx = "cl_tx_id (cw_loop w)"
  let ?h = "mx_value (ss_store s ref)" and ?hd = "FrameHeader_new_tcp_header (cr_id req) ?tx"
  have dd: "details_ok ?d" "length (details_body ?d) \<le> 252" "iterable P (server_request ?d)"
    using d(1) by (simp_all add: sendable_def)
  obtain pdu h' where ans: "answer H (server_request ?d) ?h = (Ok pdu, h')" using answer_total [OF sv(2)] by blast
  note pdu = answer_pdu_ok [OF server_request_ok [OF dd(1)] ans]
  note out = outcome_answer [OF dd(1) ans]
  have cu: "fw_wf (cl_writer (cw_loop w))" "fw_format_type (cl_writer (cw_loop w)) = fmt"
    "reader_ready client_idle (cl_reader (cw_loop w))" using c(1) by (simp_all add: client_up_def)
  obtain w1 where w1: "ClientLoop_run_one_request P False (b # ts) req w = Some (Pending, w1)"
    "sent (cw_io w1) = sent (cw_io w) @ frame_bytes P fmt ?hd (details_pdu ?d)" "cw_log w1 = cw_log w"
    "rb_wf (fdr_buffer (cl_reader (cw_loop w1)))" "rb_view (fdr_buffer (cl_reader (cw_loop w1))) = []"
    "client_expects (fdr_parser (cl_reader (cw_loop w1))) (frame_bytes P fmt ?hd pdu)
      (frame_of (heard (cr_id req) ?tx) pdu)"
    using client_sends [OF cu c(2) wr dd(2) pdu] by blast
  have su: "fw_wf (st_writer (ss_task s))" "fw_format_type (st_writer (ss_task s)) = fmt"
    "reader_ready server_idle (st_reader (ss_task s))" "healthy (ss_store s)"
    using sv(1) by (simp_all add: server_up_def)
  have dv: "ServerHandlerMap_get (cr_id req) (st_handlers (ss_task s)) = Some ref"
    "AuthorizationType_is_authorized (st_auth (ss_task s)) (cr_id req) (server_request ?d) = Allow"
    using sv(4) by (simp_all add: serves_device_def)
  from assms(10) obtain segs where segs: "concat segs = frame_bytes P fmt ?hd (details_pdu ?d)"
    "\<forall>x \<in> set segs. x \<noteq> []" "incoming (ss_io s) = map Data segs @ rest" by (auto simp: arrives_def)
  obtain s1 where s1: "SessionTask_poll_frame P H s = Some (Ready (Ok ()), s1)"
    "sent (ss_io s1) = sent (ss_io s) @ frame_bytes P fmt ?hd pdu"
    "ss_store s1 = (ss_store s)(ref := RequestHandler_wrap h')"
    using server_answers [OF su(1-3) wr sv(3) dv sv(2) su(4) dd ans segs] by blast
  have fin: "\<exists>r w2. ClientLoop_poll_request P False (b # ts) req ?tx (w1\<lparr>cw_io := io\<rparr>) = Some (Ready r, w2) \<and>
      cw_log w2 = cw_log w @ [(cb, expected_outcome H ?d ?h)] \<and> cw_current w2 = None \<and>
      reader_ready client_idle (cl_reader (cw_loop w2))"
    if "arrives incoming (frame_bytes P fmt ?hd pdu) io rest'" for io rest'
  proof -
    from that obtain segs' where "concat segs' = frame_bytes P fmt ?hd pdu" "\<forall>x \<in> set segs'. x \<noteq> []"
      "incoming io = map Data segs' @ rest'" by (auto simp: arrives_def)
    then show ?thesis
      using client_receives [of "w1\<lparr>cw_io := io\<rparr>" "cr_id req" ?tx pdu req cb segs' rest' _ b ts]
        w1(3-6) pdu d(2) out expected_outcome_total [OF sv(2)] by auto
  qed
  show ?thesis using ans w1(1,2) s1 fin by blast
qed

end

text \<open>
  TCP: the reply carries the header of the request. A serial line: the header is the address
  alone, and address 0 is a broadcast, not a device.
\<close>

definition rtu_heard :: "UnitId \<Rightarrow> TxId \<Rightarrow> FrameHeader" where
  "rtu_heard u tx = FrameHeader_new_rtu_header (rtu_destination (uid_value u))"

definition rtu_device :: "UnitId \<Rightarrow> bool" where
  "rtu_device u \<longleftrightarrow> u \<noteq> UnitId_broadcast"

lemma heard_fields:
  "fh_tx_id (FrameHeader_new_tcp_header u tx) = Some tx"
  "fh_destination (FrameHeader_new_tcp_header u tx) = Dest_UnitId u"
  "fh_tx_id (rtu_heard u tx) = None"
  "fh_destination (rtu_heard u tx) = rtu_destination (uid_value u)"
  by (simp_all add: FrameHeader_new_tcp_header_def rtu_heard_def FrameHeader_new_rtu_header_def)

lemma tcp_starts:
  assumes "tcp_idle p" and "rtu_pdu_ok t pdu"
  shows "tcp_expects p (frame_bytes P Format_Tcp (FrameHeader_new_tcp_header u tx) pdu)
    (frame_of (FrameHeader_new_tcp_header u tx) pdu)"
proof -
  have "length pdu \<le> MAX_ADU_LENGTH" using assms(2) by (cases pdu) auto
  then show ?thesis
    using assms(1) by (cases p) (auto simp: FrameHeader_new_tcp_header_def FrameDestination_into_unit_id_def UnitId_new_def)
qed

lemma rtu_starts:
  assumes "serial_idle t p" and "rtu_pdu_ok t pdu"
  shows "serial_expects P t p (frame_bytes P Format_Rtu (FrameHeader_new_tcp_header u tx) pdu)
    (frame_of (rtu_heard u tx) pdu)"
  using assms by (cases p) (auto simp: FrameHeader_new_tcp_header_def rtu_heard_def)

sublocale platform \<subseteq> tcp_link: link P rview wbuf wpos incoming sent tcp_expects tcp_expects tcp_idle tcp_idle
    Format_Tcp FrameHeader_new_tcp_header "\<lambda>_. True"
  by unfold_locales (use tcp_starts in \<open>auto simp: header_ok_def heard_fields\<close>)

lemma rtu_heard_device: "rtu_device u \<Longrightarrow> fh_destination (rtu_heard u tx) = Dest_UnitId u"
  by (simp add: heard_fields rtu_device_def rtu_destination_def)

sublocale platform \<subseteq> rtu_link: link P rview wbuf wpos incoming sent
    "serial_expects P Request" "serial_expects P Response" "serial_idle Request" "serial_idle Response"
    Format_Rtu rtu_heard rtu_device
  by unfold_locales
    (use rtu_starts [of _ _ _ P] rtu_heard_device in \<open>auto simp: header_ok_def heard_fields simp del: frame_bytes.simps\<close>,
     simp add: heard_fields)

text \<open>The instances, restated without qualifiers.\<close>

context platform
begin

lemmas exchange_tcp = tcp_link.exchange
lemmas exchange_rtu = rtu_link.exchange

end

section \<open>Requests that do not fit into a frame\<close>

context platform
begin

lemma format_request_error:
  assumes "fw_wf fw" and "header_ok (fw_format_type fw) h"
    and "\<And>w. wpos w \<le> 8 \<Longrightarrow> length (wbuf w) = MAX_FRAME_LENGTH \<Longrightarrow>
      \<exists>w'. msg w = (Err (Internal e), w') \<and> length (wbuf w') = MAX_FRAME_LENGTH"
  shows "\<exists>fw'. FrameWriter_format_request P h f msg fw = (Err (Internal e), fw') \<and> same_writer fw fw'"
proof -
  let ?t = "fw_format_type fw" and ?w = "wc_new P (fw_buffer fw)"
  have w: "wpos ?w = 0" "length (wbuf ?w) = MAX_FRAME_LENGTH"
    using assms(1) by (simp_all add: wc_new fw_wf_def)
  obtain w1 k where rb: "runs_body P wbuf wpos ?t h (Field_Valid f) msg ?w w1 k"
    using format_body [OF w assms(2)] by blast
  note k = runs_bodyD(1,2,4) [OF rb] and err = runs_bodyD(5) [OF rb]
  obtain w' where "msg w1 = (Err (Internal e), w')" "length (wbuf w') = MAX_FRAME_LENGTH"
    using assms(3) [of w1] k by auto
  with err show ?thesis
    by (auto simp: FrameWriter_format_request_def FrameWriter_format_generic_def bnd_def Let_def wc_buffer same_writer_def fw_wf_def)
qed

text \<open>A value count whose bytes do not fit into the count byte fails once the range is written.\<close>

lemma too_many_values:
  assumes "wpos w \<le> 8" and "length (wbuf w) = MAX_FRAME_LENGTH"
  shows "\<exists>w'. bnd (AddressRange_serialize P r) (\<lambda>_. bnd (lift_result (Err (Internal e))) m) w = (Err (Internal e), w') \<and>
    length (wbuf w') = MAX_FRAME_LENGTH"
proof -
  have "wpos w + length (range_bytes r) \<le> length (wbuf w)" using assms by (simp add: range_bytes_def)
  then obtain w' where "AddressRange_serialize P r w = (Ok (), w')" "length (wbuf w') = length (wbuf w)"
    using emitsD_fits [OF emits_AddressRange] by (metis length_patch)
  then show ?thesis using assms(2) by (simp add: bnd_def lift_result_def)
qed

lemma send_oversized:
  assumes "fw_wf fw" and "header_ok (fw_format_type fw) h"
    and "MAX_FRAME_LENGTH < overhead (fw_format_type fw) + length (details_body d)"
  shows "\<exists>e. \<exists>fw'. FrameWriter_format_request P h f (RequestDetails_serialize P d) fw = (Err (Internal e), fw') \<and> same_writer fw fw'"
proof (cases "\<exists>bs. emits wbuf wpos (RequestDetails_serialize P d) bs \<and> length bs = length (details_body d)")
  case True
  then show ?thesis using format_request_full [OF assms(1,2)] assms(3) by metis
next
  case False
  then have big: "256 < length (details_body d)" using emits_details [of d] by force
  show ?thesis
  proof (cases d)
    case (Det_WriteMultipleCoils x)
    let ?n = "(length (wm_values (mw_request x)) + 7) div 8"
    have "255 < ?n"
      using False Det_WriteMultipleCoils emits_WriteMultipleBool [of "mw_request x"] by force
    then have msg: "RequestDetails_serialize P d = bnd (AddressRange_serialize P (wm_range (mw_request x)))
        (\<lambda>_. bnd (lift_result (Err (Internal (BadByteCount ?n)))) (\<lambda>num_bytes. bnd (write_u8 P num_bytes) (\<lambda>_.
          for_list (\<lambda>byte. write_u8 P (pack_chunk 0 byte 0)) (chunks8 (wm_values (mw_request x))))))"
      using Det_WriteMultipleCoils
      by (simp add: WriteMultipleBool_serialize_def bool_slice_serialize_def calc_bytes_for_bits_eq Let_def
          RequestError_from_InternalError_def)
    show ?thesis unfolding msg by (rule exI, rule format_request_error [OF assms(1,2)], erule (1) too_many_values)
  next
    case (Det_WriteMultipleRegisters x)
    let ?n = "2 * length (wm_values (mw_request x))"
    have "255 < ?n"
      using False Det_WriteMultipleRegisters emits_WriteMultipleU16 [of "mw_request x"] by force
    then have msg: "RequestDetails_serialize P d = bnd (AddressRange_serialize P (wm_range (mw_request x)))
        (\<lambda>_. bnd (lift_result (Err (Internal (BadByteCount ?n)))) (\<lambda>num_bytes. bnd (write_u8 P num_bytes) (\<lambda>_.
          for_list (write_u16_be P) (wm_values (mw_request x)))))"
      using Det_WriteMultipleRegisters
      by (simp add: WriteMultipleU16_serialize_def u16_slice_serialize_def calc_bytes_for_registers_eq
          RequestError_from_InternalError_def)
    show ?thesis unfolding msg by (rule exI, rule format_request_error [OF assms(1,2)], erule (1) too_many_values)
  qed (use big in \<open>simp_all add: range_bytes_def indexed_bool_bytes_def indexed_u16_bytes_def\<close>)
qed

end

end
