(* ===== verification/ClientChannel.thy ===== *)
theory ClientChannel
  imports EndToEnd
begin

text \<open>
  The three client interfaces: the asynchronous \<open>Channel\<close> and the callback-based
  \<open>CallbackSession\<close> of \<open>rodbus/src/client/channel.rs\<close>, and the non-blocking
  \<open>FfiChannel\<close> of \<open>rodbus/src/client/ffi_channel.rs\<close>. Each call builds a request
  and hands it to the command channel of the client task. Whether the channel is open, full or
  closed is the environment's choice; a command that cannot be sent is dropped.
\<close>

section \<open>The command channel\<close>

datatype send_outcome = Sent | Full | Closed

record port =
  po_queue :: "Command list"
  po_log :: completions

fun Command_drop :: "Command \<Rightarrow> completions \<Rightarrow> completions" where
  "Command_drop (Cmd_Request request) log = Request_drop (cr_details request) log"
| "Command_drop (Cmd_Setting _) log = log"

datatype SendError = SendError

definition sender_send :: "bool \<Rightarrow> Command \<Rightarrow> (port, unit, SendError) se" where
  "sender_send is_open command s =
     (if is_open then (Ok (), s\<lparr>po_queue := po_queue s @ [command]\<rparr>)
      else (Err SendError, s\<lparr>po_log := Command_drop command (po_log s)\<rparr>))"

definition RequestError_from_SendError :: "SendError \<Rightarrow> RequestError" where
  [conv_defs]: "RequestError_from_SendError x = RequestShutdown"

definition Shutdown_from_SendError :: "SendError \<Rightarrow> Shutdown" where
  [conv_defs]: "Shutdown_from_SendError x = Shutdown"

record RequestParam =
  rp_id :: UnitId
  rp_response_timeout :: nat

definition RequestParam_new :: "UnitId \<Rightarrow> nat \<Rightarrow> RequestParam" where
  "RequestParam_new i response_timeout = \<lparr>rp_id = i, rp_response_timeout = response_timeout\<rparr>"

definition wrap :: "RequestParam \<Rightarrow> RequestDetails \<Rightarrow> Command" where
  "wrap param details = Cmd_Request (Request_new (rp_id param) (rp_response_timeout param) details)"

section \<open>The asynchronous channel\<close>

text \<open>
  A one-shot channel is named by the callback that sends into it. Each method is given up to
  the point where it awaits the result, which is then looked up among the completions.
\<close>

definition ReadBits_channel :: "ReadBitsRange \<Rightarrow> callback \<Rightarrow> ReadBits" where
  "ReadBits_channel request tx = ReadBits_new request (BitsPromise_new tx)"

definition ReadRegisters_channel :: "ReadRegistersRange \<Rightarrow> callback \<Rightarrow> ReadRegisters" where
  "ReadRegisters_channel request tx = ReadRegisters_new request (RegistersPromise_new tx)"

definition Promise_channel :: "callback \<Rightarrow> Promise" where
  "Promise_channel tx = Promise_new tx"

definition Channel_send :: "bool \<Rightarrow> Command \<Rightarrow> (port, unit, RequestError) se" where
  "Channel_send is_open request = conv_err RequestError_from_SendError (sender_send is_open request)"

definition Channel_enable :: "bool \<Rightarrow> (port, unit, Shutdown) se" where
  "Channel_enable is_open = bnd (conv_err Shutdown_from_SendError (sender_send is_open (Cmd_Setting Enable))) (\<lambda>_. ret ())"

definition Channel_disable :: "bool \<Rightarrow> (port, unit, Shutdown) se" where
  "Channel_disable is_open = bnd (conv_err Shutdown_from_SendError (sender_send is_open (Cmd_Setting Disable))) (\<lambda>_. ret ())"

definition Channel_set_decode_level :: "bool \<Rightarrow> DecodeLevel \<Rightarrow> (port, unit, Shutdown) se" where
  "Channel_set_decode_level is_open level =
     bnd (conv_err Shutdown_from_SendError (sender_send is_open (Cmd_Setting (Set_DecodeLevel level)))) (\<lambda>_. ret ())"

definition Channel_read_coils :: "bool \<Rightarrow> RequestParam \<Rightarrow> AddressRange \<Rightarrow> callback \<Rightarrow> (port, unit, RequestError) se" where
  "Channel_read_coils is_open param rng tx =
     bnd (lift_result (map_err RequestError_from_InvalidRange (AddressRange_of_read_bits rng))) (\<lambda>r.
       Channel_send is_open (wrap param (Det_ReadCoils (ReadBits_channel r tx))))"

definition Channel_read_discrete_inputs ::
    "bool \<Rightarrow> RequestParam \<Rightarrow> AddressRange \<Rightarrow> callback \<Rightarrow> (port, unit, RequestError) se" where
  "Channel_read_discrete_inputs is_open param rng tx =
     bnd (lift_result (map_err RequestError_from_InvalidRange (AddressRange_of_read_bits rng))) (\<lambda>r.
       Channel_send is_open (wrap param (Det_ReadDiscreteInputs (ReadBits_channel r tx))))"

definition Channel_read_holding_registers ::
    "bool \<Rightarrow> RequestParam \<Rightarrow> AddressRange \<Rightarrow> callback \<Rightarrow> (port, unit, RequestError) se" where
  "Channel_read_holding_registers is_open param rng tx =
     bnd (lift_result (map_err RequestError_from_InvalidRange (AddressRange_of_read_registers rng))) (\<lambda>r.
       Channel_send is_open (wrap param (Det_ReadHoldingRegisters (ReadRegisters_channel r tx))))"

definition Channel_read_input_registers ::
    "bool \<Rightarrow> RequestParam \<Rightarrow> AddressRange \<Rightarrow> callback \<Rightarrow> (port, unit, RequestError) se" where
  "Channel_read_input_registers is_open param rng tx =
     bnd (lift_result (map_err RequestError_from_InvalidRange (AddressRange_of_read_registers rng))) (\<lambda>r.
       Channel_send is_open (wrap param (Det_ReadInputRegisters (ReadRegisters_channel r tx))))"

definition Channel_write_single_coil ::
    "bool \<Rightarrow> RequestParam \<Rightarrow> bool Indexed \<Rightarrow> callback \<Rightarrow> (port, unit, RequestError) se" where
  "Channel_write_single_coil is_open param request tx =
     Channel_send is_open (wrap param (Det_WriteSingleCoil (SingleWrite_new request (Promise_channel tx))))"

definition Channel_write_single_register ::
    "bool \<Rightarrow> RequestParam \<Rightarrow> u16 Indexed \<Rightarrow> callback \<Rightarrow> (port, unit, RequestError) se" where
  "Channel_write_single_register is_open param request tx =
     Channel_send is_open (wrap param (Det_WriteSingleRegister (SingleWrite_new request (Promise_channel tx))))"

definition Channel_write_multiple_coils ::
    "bool \<Rightarrow> RequestParam \<Rightarrow> bool WriteMultiple \<Rightarrow> callback \<Rightarrow> (port, unit, RequestError) se" where
  "Channel_write_multiple_coils is_open param request tx =
     Channel_send is_open (wrap param (Det_WriteMultipleCoils (MultipleWriteRequest_new request (Promise_channel tx))))"

definition Channel_write_multiple_registers ::
    "bool \<Rightarrow> RequestParam \<Rightarrow> u16 WriteMultiple \<Rightarrow> callback \<Rightarrow> (port, unit, RequestError) se" where
  "Channel_write_multiple_registers is_open param request tx =
     Channel_send is_open (wrap param (Det_WriteMultipleRegisters (MultipleWriteRequest_new request (Promise_channel tx))))"

text \<open>
  What the await returns: the values of a read are collected before they are sent. A value of
  another kind cannot be sent into the channel of a read.
\<close>

definition Channel_receive_bits ::
    "('r, 'w, 'd, 'io) platform \<Rightarrow> callback \<Rightarrow> completions \<Rightarrow> (bool Indexed list, RequestError) result poll" where
  "Channel_receive_bits P tx log = (case map_of log tx of
      None \<Rightarrow> Pending
    | Some (Ok (Reply_Bits x)) \<Rightarrow> Ready (BitIterator_collect P x)
    | Some (Err e) \<Rightarrow> Ready (Err e)
    | Some _ \<Rightarrow> Ready Panic)"

definition Channel_receive_registers ::
    "('r, 'w, 'd, 'io) platform \<Rightarrow> callback \<Rightarrow> completions \<Rightarrow> (u16 Indexed list, RequestError) result poll" where
  "Channel_receive_registers P tx log = (case map_of log tx of
      None \<Rightarrow> Pending
    | Some (Ok (Reply_Registers x)) \<Rightarrow> Ready (RegisterIterator_collect P x)
    | Some (Err e) \<Rightarrow> Ready (Err e)
    | Some _ \<Rightarrow> Ready Panic)"

section \<open>The callback session\<close>

record CallbackSession =
  cs_param :: RequestParam

definition CallbackSession_new :: "RequestParam \<Rightarrow> CallbackSession" where
  "CallbackSession_new param = \<lparr>cs_param = param\<rparr>"

definition CallbackSession_send :: "bool \<Rightarrow> Command \<Rightarrow> port \<Rightarrow> port" where
  "CallbackSession_send is_open command s = snd (sender_send is_open command s)"

definition CallbackSession_read_bits ::
    "bool \<Rightarrow> CallbackSession \<Rightarrow> AddressRange \<Rightarrow> callback \<Rightarrow> (ReadBits \<Rightarrow> RequestDetails) \<Rightarrow> port \<Rightarrow> port" where
  "CallbackSession_read_bits is_open c rng callback wrap_req s =
     (let promise = BitsPromise_new callback in
      case AddressRange_of_read_bits rng of
        Ok r \<Rightarrow> CallbackSession_send is_open (wrap (cs_param c) (wrap_req (ReadBits_new r promise))) s
      | Err err \<Rightarrow>
          (case BitsPromise_failure (RequestError_from_InvalidRange err) promise (po_log s) of
             (p, log) \<Rightarrow> s\<lparr>po_log := BitsPromise_drop p log\<rparr>)
      | Panic \<Rightarrow> s)"

definition CallbackSession_read_registers ::
    "bool \<Rightarrow> CallbackSession \<Rightarrow> AddressRange \<Rightarrow> callback \<Rightarrow> (ReadRegisters \<Rightarrow> RequestDetails) \<Rightarrow> port \<Rightarrow> port" where
  "CallbackSession_read_registers is_open c rng callback wrap_req s =
     (let promise = RegistersPromise_new callback in
      case AddressRange_of_read_registers rng of
        Ok r \<Rightarrow> CallbackSession_send is_open (wrap (cs_param c) (wrap_req (ReadRegisters_new r promise))) s
      | Err err \<Rightarrow>
          (case RegistersPromise_failure (RequestError_from_InvalidRange err) promise (po_log s) of
             (p, log) \<Rightarrow> s\<lparr>po_log := RegistersPromise_drop p log\<rparr>)
      | Panic \<Rightarrow> s)"

definition CallbackSession_read_coils ::
    "bool \<Rightarrow> CallbackSession \<Rightarrow> AddressRange \<Rightarrow> callback \<Rightarrow> port \<Rightarrow> port" where
  "CallbackSession_read_coils is_open c rng callback =
     CallbackSession_read_bits is_open c rng callback Det_ReadCoils"

definition CallbackSession_read_discrete_inputs ::
    "bool \<Rightarrow> CallbackSession \<Rightarrow> AddressRange \<Rightarrow> callback \<Rightarrow> port \<Rightarrow> port" where
  "CallbackSession_read_discrete_inputs is_open c rng callback =
     CallbackSession_read_bits is_open c rng callback Det_ReadDiscreteInputs"

definition CallbackSession_read_holding_registers ::
    "bool \<Rightarrow> CallbackSession \<Rightarrow> AddressRange \<Rightarrow> callback \<Rightarrow> port \<Rightarrow> port" where
  "CallbackSession_read_holding_registers is_open c rng callback =
     CallbackSession_read_registers is_open c rng callback Det_ReadHoldingRegisters"

definition CallbackSession_read_input_registers ::
    "bool \<Rightarrow> CallbackSession \<Rightarrow> AddressRange \<Rightarrow> callback \<Rightarrow> port \<Rightarrow> port" where
  "CallbackSession_read_input_registers is_open c rng callback =
     CallbackSession_read_registers is_open c rng callback Det_ReadInputRegisters"

definition CallbackSession_write_single_coil ::
    "bool \<Rightarrow> CallbackSession \<Rightarrow> bool Indexed \<Rightarrow> callback \<Rightarrow> port \<Rightarrow> port" where
  "CallbackSession_write_single_coil is_open c value callback =
     CallbackSession_send is_open (wrap (cs_param c) (Det_WriteSingleCoil (SingleWrite_new value (Promise_new callback))))"

definition CallbackSession_write_single_register ::
    "bool \<Rightarrow> CallbackSession \<Rightarrow> u16 Indexed \<Rightarrow> callback \<Rightarrow> port \<Rightarrow> port" where
  "CallbackSession_write_single_register is_open c value callback =
     CallbackSession_send is_open (wrap (cs_param c) (Det_WriteSingleRegister (SingleWrite_new value (Promise_new callback))))"

definition CallbackSession_write_multiple_registers ::
    "bool \<Rightarrow> CallbackSession \<Rightarrow> u16 WriteMultiple \<Rightarrow> callback \<Rightarrow> port \<Rightarrow> port" where
  "CallbackSession_write_multiple_registers is_open c value callback =
     CallbackSession_send is_open (wrap (cs_param c) (Det_WriteMultipleRegisters (MultipleWriteRequest_new value (Promise_new callback))))"

definition CallbackSession_write_multiple_coils ::
    "bool \<Rightarrow> CallbackSession \<Rightarrow> bool WriteMultiple \<Rightarrow> callback \<Rightarrow> port \<Rightarrow> port" where
  "CallbackSession_write_multiple_coils is_open c value callback =
     CallbackSession_send is_open (wrap (cs_param c) (Det_WriteMultipleCoils (MultipleWriteRequest_new value (Promise_new callback))))"

section \<open>The channel of the bindings\<close>

datatype FfiChannelError = ChannelFull | ChannelClosed | FfiBadRange InvalidRange

definition FfiChannelError_from_InvalidRange :: "InvalidRange \<Rightarrow> FfiChannelError" where
  [conv_defs]: "FfiChannelError_from_InvalidRange err = FfiBadRange err"

datatype TrySendError = TrySend_Full | TrySend_Closed

fun FfiChannelError_from_TrySendError :: "TrySendError \<Rightarrow> FfiChannelError" where
  "FfiChannelError_from_TrySendError TrySend_Full = ChannelFull"
| "FfiChannelError_from_TrySendError TrySend_Closed = ChannelClosed"

fun sender_try_send :: "send_outcome \<Rightarrow> Command \<Rightarrow> (port, unit, TrySendError) se" where
  "sender_try_send Sent command s = (Ok (), s\<lparr>po_queue := po_queue s @ [command]\<rparr>)"
| "sender_try_send Full command s = (Err TrySend_Full, s\<lparr>po_log := Command_drop command (po_log s)\<rparr>)"
| "sender_try_send Closed command s = (Err TrySend_Closed, s\<lparr>po_log := Command_drop command (po_log s)\<rparr>)"

definition FfiChannel_send :: "send_outcome \<Rightarrow> Command \<Rightarrow> (port, unit, FfiChannelError) se" where
  "FfiChannel_send out command =
     bnd (conv_err FfiChannelError_from_TrySendError (sender_try_send out command)) (\<lambda>_. ret ())"

definition FfiChannel_enable :: "send_outcome \<Rightarrow> (port, unit, FfiChannelError) se" where
  "FfiChannel_enable out = FfiChannel_send out (Cmd_Setting Enable)"

definition FfiChannel_disable :: "send_outcome \<Rightarrow> (port, unit, FfiChannelError) se" where
  "FfiChannel_disable out = FfiChannel_send out (Cmd_Setting Disable)"

definition FfiChannel_set_decode_level :: "send_outcome \<Rightarrow> DecodeLevel \<Rightarrow> (port, unit, FfiChannelError) se" where
  "FfiChannel_set_decode_level out level = FfiChannel_send out (Cmd_Setting (Set_DecodeLevel level))"

text \<open>
  \<open>read_bits\<close> checks the range before it makes the promise; \<open>read_registers\<close> makes the
  promise first, and drops it when the range is refused.
\<close>

definition FfiChannel_read_bits ::
    "send_outcome \<Rightarrow> RequestParam \<Rightarrow> AddressRange \<Rightarrow> callback \<Rightarrow> (ReadBits \<Rightarrow> RequestDetails) \<Rightarrow>
     (port, unit, FfiChannelError) se" where
  "FfiChannel_read_bits out param rng callback wrap_req =
     bnd (lift_result (map_err FfiChannelError_from_InvalidRange (AddressRange_of_read_bits rng))) (\<lambda>r.
       let promise = BitsPromise_new callback in
       FfiChannel_send out (wrap param (wrap_req (ReadBits_new r promise))))"

definition FfiChannel_read_registers ::
    "send_outcome \<Rightarrow> RequestParam \<Rightarrow> AddressRange \<Rightarrow> callback \<Rightarrow> (ReadRegisters \<Rightarrow> RequestDetails) \<Rightarrow>
     (port, unit, FfiChannelError) se" where
  "FfiChannel_read_registers out param rng callback wrap_req s =
     (let promise = RegistersPromise_new callback in
      case AddressRange_of_read_registers rng of
        Ok r \<Rightarrow> FfiChannel_send out (wrap param (wrap_req (ReadRegisters_new r promise))) s
      | Err e \<Rightarrow> (Err (FfiChannelError_from_InvalidRange e),
          s\<lparr>po_log := RegistersPromise_drop promise (po_log s)\<rparr>)
      | Panic \<Rightarrow> (Panic, s\<lparr>po_log := RegistersPromise_drop promise (po_log s)\<rparr>))"

definition FfiChannel_read_coils ::
    "send_outcome \<Rightarrow> RequestParam \<Rightarrow> AddressRange \<Rightarrow> callback \<Rightarrow> (port, unit, FfiChannelError) se" where
  "FfiChannel_read_coils out param rng callback =
     FfiChannel_read_bits out param rng callback Det_ReadCoils"

definition FfiChannel_read_discrete_inputs ::
    "send_outcome \<Rightarrow> RequestParam \<Rightarrow> AddressRange \<Rightarrow> callback \<Rightarrow> (port, unit, FfiChannelError) se" where
  "FfiChannel_read_discrete_inputs out param rng callback =
     FfiChannel_read_bits out param rng callback Det_ReadDiscreteInputs"

definition FfiChannel_read_holding_registers ::
    "send_outcome \<Rightarrow> RequestParam \<Rightarrow> AddressRange \<Rightarrow> callback \<Rightarrow> (port, unit, FfiChannelError) se" where
  "FfiChannel_read_holding_registers out param rng callback =
     FfiChannel_read_registers out param rng callback Det_ReadHoldingRegisters"

definition FfiChannel_read_input_registers ::
    "send_outcome \<Rightarrow> RequestParam \<Rightarrow> AddressRange \<Rightarrow> callback \<Rightarrow> (port, unit, FfiChannelError) se" where
  "FfiChannel_read_input_registers out param rng callback =
     FfiChannel_read_registers out param rng callback Det_ReadInputRegisters"

definition FfiChannel_write_single_coil ::
    "send_outcome \<Rightarrow> RequestParam \<Rightarrow> bool Indexed \<Rightarrow> callback \<Rightarrow> (port, unit, FfiChannelError) se" where
  "FfiChannel_write_single_coil out param value callback =
     FfiChannel_send out (wrap param (Det_WriteSingleCoil (SingleWrite_new value (Promise_new callback))))"

definition FfiChannel_write_single_register ::
    "send_outcome \<Rightarrow> RequestParam \<Rightarrow> u16 Indexed \<Rightarrow> callback \<Rightarrow> (port, unit, FfiChannelError) se" where
  "FfiChannel_write_single_register out param value callback =
     FfiChannel_send out (wrap param (Det_WriteSingleRegister (SingleWrite_new value (Promise_new callback))))"

definition FfiChannel_write_multiple_registers ::
    "send_outcome \<Rightarrow> RequestParam \<Rightarrow> u16 WriteMultiple \<Rightarrow> callback \<Rightarrow> (port, unit, FfiChannelError) se" where
  "FfiChannel_write_multiple_registers out param value callback =
     FfiChannel_send out (wrap param (Det_WriteMultipleRegisters (MultipleWriteRequest_new value (Promise_new callback))))"

definition FfiChannel_write_multiple_coils ::
    "send_outcome \<Rightarrow> RequestParam \<Rightarrow> bool WriteMultiple \<Rightarrow> callback \<Rightarrow> (port, unit, FfiChannelError) se" where
  "FfiChannel_write_multiple_coils out param value callback =
     FfiChannel_send out (wrap param (Det_WriteMultipleCoils (MultipleWriteRequest_new value (Promise_new callback))))"

section \<open>What a call does with its callback\<close>

text \<open>
  \<open>accepts d cb s s'\<close>: one request, with the callback in it, is added to the channel.
  \<open>refuses cb e s s'\<close>: nothing is added and the callback has run, once, with an error.
\<close>

definition accepts :: "(RequestDetails \<Rightarrow> bool) \<Rightarrow> callback \<Rightarrow> port \<Rightarrow> port \<Rightarrow> bool" where
  "accepts ok cb s s' \<longleftrightarrow> (\<exists>req. po_queue s' = po_queue s @ [Cmd_Request req] \<and> po_log s' = po_log s \<and>
     request_callback req = Some cb \<and> ok (cr_details req))"

definition refuses :: "callback \<Rightarrow> RequestError \<Rightarrow> port \<Rightarrow> port \<Rightarrow> bool" where
  "refuses cb e s s' \<longleftrightarrow> po_queue s' = po_queue s \<and> po_log s' = po_log s @ [(cb, Err e)]"

lemma sender_send_request:
  assumes "pr_callback (details_promise d) = Some cb" and "ok d"
  shows "is_open \<Longrightarrow> \<exists>s'. sender_send is_open (wrap p d) s = (Ok (), s') \<and> accepts ok cb s s'"
    and "\<not> is_open \<Longrightarrow> \<exists>s'. sender_send is_open (wrap p d) s = (Err SendError, s') \<and> refuses cb RequestShutdown s s'"
  using assms
  by (simp_all add: sender_send_def wrap_def Request_new_def accepts_def refuses_def request_ops(1))

lemma try_send_request:
  assumes "pr_callback (details_promise d) = Some cb" and "ok d"
  shows "\<exists>s'. sender_try_send Sent (wrap p d) s = (Ok (), s') \<and> accepts ok cb s s'"
    and "\<exists>s'. sender_try_send Full (wrap p d) s = (Err TrySend_Full, s') \<and> refuses cb RequestShutdown s s'"
    and "\<exists>s'. sender_try_send Closed (wrap p d) s = (Err TrySend_Closed, s') \<and> refuses cb RequestShutdown s s'"
  using assms by (simp_all add: wrap_def Request_new_def accepts_def refuses_def request_ops(1))

lemmas request_new_defs = ReadBits_new_def ReadRegisters_new_def SingleWrite_new_def MultipleWriteRequest_new_def
  ReadBits_channel_def ReadRegisters_channel_def Promise_channel_def read_promises Promise_new_def

text \<open>The eight calls of an interface, and the request the server should see for each.\<close>

datatype api_call =
    Call_ReadCoils AddressRange
  | Call_ReadDiscreteInputs AddressRange
  | Call_ReadHoldingRegisters AddressRange
  | Call_ReadInputRegisters AddressRange
  | Call_WriteSingleCoil "bool Indexed"
  | Call_WriteSingleRegister "u16 Indexed"
  | Call_WriteMultipleCoils "bool WriteMultiple"
  | Call_WriteMultipleRegisters "u16 WriteMultiple"

fun Channel_call :: "bool \<Rightarrow> RequestParam \<Rightarrow> api_call \<Rightarrow> callback \<Rightarrow> (port, unit, RequestError) se" where
  "Channel_call b p (Call_ReadCoils x) cb = Channel_read_coils b p x cb"
| "Channel_call b p (Call_ReadDiscreteInputs x) cb = Channel_read_discrete_inputs b p x cb"
| "Channel_call b p (Call_ReadHoldingRegisters x) cb = Channel_read_holding_registers b p x cb"
| "Channel_call b p (Call_ReadInputRegisters x) cb = Channel_read_input_registers b p x cb"
| "Channel_call b p (Call_WriteSingleCoil x) cb = Channel_write_single_coil b p x cb"
| "Channel_call b p (Call_WriteSingleRegister x) cb = Channel_write_single_register b p x cb"
| "Channel_call b p (Call_WriteMultipleCoils x) cb = Channel_write_multiple_coils b p x cb"
| "Channel_call b p (Call_WriteMultipleRegisters x) cb = Channel_write_multiple_registers b p x cb"

fun CallbackSession_call :: "bool \<Rightarrow> CallbackSession \<Rightarrow> api_call \<Rightarrow> callback \<Rightarrow> port \<Rightarrow> port" where
  "CallbackSession_call b c (Call_ReadCoils x) cb = CallbackSession_read_coils b c x cb"
| "CallbackSession_call b c (Call_ReadDiscreteInputs x) cb = CallbackSession_read_discrete_inputs b c x cb"
| "CallbackSession_call b c (Call_ReadHoldingRegisters x) cb = CallbackSession_read_holding_registers b c x cb"
| "CallbackSession_call b c (Call_ReadInputRegisters x) cb = CallbackSession_read_input_registers b c x cb"
| "CallbackSession_call b c (Call_WriteSingleCoil x) cb = CallbackSession_write_single_coil b c x cb"
| "CallbackSession_call b c (Call_WriteSingleRegister x) cb = CallbackSession_write_single_register b c x cb"
| "CallbackSession_call b c (Call_WriteMultipleCoils x) cb = CallbackSession_write_multiple_coils b c x cb"
| "CallbackSession_call b c (Call_WriteMultipleRegisters x) cb = CallbackSession_write_multiple_registers b c x cb"

fun FfiChannel_call :: "send_outcome \<Rightarrow> RequestParam \<Rightarrow> api_call \<Rightarrow> callback \<Rightarrow> (port, unit, FfiChannelError) se" where
  "FfiChannel_call out p (Call_ReadCoils x) cb = FfiChannel_read_coils out p x cb"
| "FfiChannel_call out p (Call_ReadDiscreteInputs x) cb = FfiChannel_read_discrete_inputs out p x cb"
| "FfiChannel_call out p (Call_ReadHoldingRegisters x) cb = FfiChannel_read_holding_registers out p x cb"
| "FfiChannel_call out p (Call_ReadInputRegisters x) cb = FfiChannel_read_input_registers out p x cb"
| "FfiChannel_call out p (Call_WriteSingleCoil x) cb = FfiChannel_write_single_coil out p x cb"
| "FfiChannel_call out p (Call_WriteSingleRegister x) cb = FfiChannel_write_single_register out p x cb"
| "FfiChannel_call out p (Call_WriteMultipleCoils x) cb = FfiChannel_write_multiple_coils out p x cb"
| "FfiChannel_call out p (Call_WriteMultipleRegisters x) cb = FfiChannel_write_multiple_registers out p x cb"

fun call_range :: "api_call \<Rightarrow> (unit, InvalidRange) result" where
  "call_range (Call_ReadCoils r) = bind_result (AddressRange_of_read_bits r) (\<lambda>_. Ok ())"
| "call_range (Call_ReadDiscreteInputs r) = bind_result (AddressRange_of_read_bits r) (\<lambda>_. Ok ())"
| "call_range (Call_ReadHoldingRegisters r) = bind_result (AddressRange_of_read_registers r) (\<lambda>_. Ok ())"
| "call_range (Call_ReadInputRegisters r) = bind_result (AddressRange_of_read_registers r) (\<lambda>_. Ok ())"
| "call_range _ = Ok ()"

fun call_request :: "api_call \<Rightarrow> Request" where
  "call_request (Call_ReadCoils r) = Req_ReadCoils (ReadBitsRange r)"
| "call_request (Call_ReadDiscreteInputs r) = Req_ReadDiscreteInputs (ReadBitsRange r)"
| "call_request (Call_ReadHoldingRegisters r) = Req_ReadHoldingRegisters (ReadRegistersRange r)"
| "call_request (Call_ReadInputRegisters r) = Req_ReadInputRegisters (ReadRegistersRange r)"
| "call_request (Call_WriteSingleCoil x) = Req_WriteSingleCoil x"
| "call_request (Call_WriteSingleRegister x) = Req_WriteSingleRegister x"
| "call_request (Call_WriteMultipleCoils x) = coils_request (wm_range x) (packed_bits (wm_values x))"
| "call_request (Call_WriteMultipleRegisters x) = registers_request (wm_range x) (register_bytes (wm_values x))"

text \<open>
  What the types guarantee for the arguments: a read range comes from \<open>try_from\<close>, a
  collection from \<open>WriteMultiple::from\<close>.
\<close>

fun call_args_ok :: "api_call \<Rightarrow> bool" where
  "call_args_ok (Call_WriteMultipleCoils x) = multiple_ok x"
| "call_args_ok (Call_WriteMultipleRegisters x) = multiple_ok x"
| "call_args_ok (Call_ReadCoils r) = valid_range r"
| "call_args_ok (Call_ReadDiscreteInputs r) = valid_range r"
| "call_args_ok (Call_ReadHoldingRegisters r) = valid_range r"
| "call_args_ok (Call_ReadInputRegisters r) = valid_range r"
| "call_args_ok _ = True"

definition call_details :: "api_call \<Rightarrow> RequestDetails \<Rightarrow> bool" where
  "call_details call d \<longleftrightarrow> details_ok d \<and> server_request d = call_request call"

lemma WriteMultiple_from_ok:
  assumes "WriteMultiple_from start values = Ok wm"
  shows "multiple_ok wm"
proof -
  have "length values \<le> 65535" "AddressRange_try_from start (of_nat (length values)) = Ok (wm_range wm)"
    "wm_values wm = values"
    using assms by (auto simp: WriteMultiple_from_def u16_try_from_def bind_result_eq_Ok split: if_splits)
  then show ?thesis by (auto simp: multiple_ok_def AddressRange_try_from_Ok_iff unat_of_nat_u16)
qed

lemma of_read_Ok:
  "AddressRange_of_read_bits r = Ok x \<Longrightarrow> x = ReadBitsRange r \<and> unat (ar_count r) \<le> 2000"
  "AddressRange_of_read_registers r = Ok y \<Longrightarrow> y = ReadRegistersRange r \<and> unat (ar_count r) \<le> 125"
  "AddressRange_of_read_bits r \<noteq> Panic" "AddressRange_of_read_registers r \<noteq> Panic"
  by (simp_all add: AddressRange_of_read_Ok_iff)
    (simp_all add: AddressRange_of_read_bits_def AddressRange_of_read_registers_def AddressRange_limited_count_def)

text \<open>The request that all three interfaces build for a call.\<close>

fun built :: "api_call \<Rightarrow> callback \<Rightarrow> RequestDetails" where
  "built (Call_ReadCoils r) cb = Det_ReadCoils \<lparr>rdb_request = ReadBitsRange r, rdb_promise = \<lparr>pr_callback = Some cb\<rparr>\<rparr>"
| "built (Call_ReadDiscreteInputs r) cb =
     Det_ReadDiscreteInputs \<lparr>rdb_request = ReadBitsRange r, rdb_promise = \<lparr>pr_callback = Some cb\<rparr>\<rparr>"
| "built (Call_ReadHoldingRegisters r) cb =
     Det_ReadHoldingRegisters \<lparr>rdr_request = ReadRegistersRange r, rdr_promise = \<lparr>pr_callback = Some cb\<rparr>\<rparr>"
| "built (Call_ReadInputRegisters r) cb =
     Det_ReadInputRegisters \<lparr>rdr_request = ReadRegistersRange r, rdr_promise = \<lparr>pr_callback = Some cb\<rparr>\<rparr>"
| "built (Call_WriteSingleCoil x) cb = Det_WriteSingleCoil \<lparr>sw_request = x, sw_promise = \<lparr>pr_callback = Some cb\<rparr>\<rparr>"
| "built (Call_WriteSingleRegister x) cb =
     Det_WriteSingleRegister \<lparr>sw_request = x, sw_promise = \<lparr>pr_callback = Some cb\<rparr>\<rparr>"
| "built (Call_WriteMultipleCoils x) cb =
     Det_WriteMultipleCoils \<lparr>mw_request = x, mw_promise = \<lparr>pr_callback = Some cb\<rparr>\<rparr>"
| "built (Call_WriteMultipleRegisters x) cb =
     Det_WriteMultipleRegisters \<lparr>mw_request = x, mw_promise = \<lparr>pr_callback = Some cb\<rparr>\<rparr>"

lemmas call_defs = Channel_read_coils_def Channel_read_discrete_inputs_def Channel_read_holding_registers_def
  Channel_read_input_registers_def Channel_write_single_coil_def Channel_write_single_register_def
  Channel_write_multiple_coils_def Channel_write_multiple_registers_def
  CallbackSession_read_coils_def CallbackSession_read_discrete_inputs_def CallbackSession_read_holding_registers_def
  CallbackSession_read_input_registers_def CallbackSession_write_single_coil_def
  CallbackSession_write_single_register_def CallbackSession_write_multiple_coils_def
  CallbackSession_write_multiple_registers_def CallbackSession_read_bits_def CallbackSession_read_registers_def
  FfiChannel_read_coils_def FfiChannel_read_discrete_inputs_def FfiChannel_read_holding_registers_def
  FfiChannel_read_input_registers_def FfiChannel_write_single_coil_def FfiChannel_write_single_register_def
  FfiChannel_write_multiple_coils_def FfiChannel_write_multiple_registers_def FfiChannel_read_bits_def
  FfiChannel_read_registers_def

lemma call_built:
  assumes "call_range call = Ok ()"
  shows "Channel_call b p call cb s = Channel_send b (wrap p (built call cb)) s"
    and "CallbackSession_call b c call cb s = CallbackSession_send b (wrap (cs_param c) (built call cb)) s"
    and "FfiChannel_call out p call cb s = FfiChannel_send out (wrap p (built call cb)) s"
proof -
  have bits: "AddressRange_of_read_bits r = Ok (ReadBitsRange r)"
    if "bind_result (AddressRange_of_read_bits r) (\<lambda>_. Ok ()) = Ok ()" for r
    using that by (auto simp: bind_result_eq_Ok dest: of_read_Ok(1,2))
  have regs: "AddressRange_of_read_registers r = Ok (ReadRegistersRange r)"
    if "bind_result (AddressRange_of_read_registers r) (\<lambda>_. Ok ()) = Ok ()" for r
    using that by (auto simp: bind_result_eq_Ok dest: of_read_Ok(1,2))
  show "Channel_call b p call cb s = Channel_send b (wrap p (built call cb)) s"
    using assms by (cases call) (simp_all add: call_defs bits regs request_new_defs lift_result_Ok)
  show "CallbackSession_call b c call cb s = CallbackSession_send b (wrap (cs_param c) (built call cb)) s"
    using assms by (cases call) (simp_all add: call_defs bits regs request_new_defs lift_result_Ok)
  show "FfiChannel_call out p call cb s = FfiChannel_send out (wrap p (built call cb)) s"
    using assms by (cases call) (simp_all add: call_defs bits regs request_new_defs lift_result_Ok)
qed

lemma built_ok:
  assumes "call_args_ok call" and "call_range call = Ok ()"
  shows "pr_callback (details_promise (built call cb)) = Some cb" and "call_details call (built call cb)"
proof -
  show "pr_callback (details_promise (built call cb)) = Some cb" by (cases call) simp_all
  show "call_details call (built call cb)"
    using assms by (cases call) (auto simp: call_details_def bits_range_ok_def registers_range_ok_def
        bind_result_eq_Ok dest: of_read_Ok(1,2))
qed

fun reads_registers :: "api_call \<Rightarrow> bool" where
  "reads_registers (Call_ReadHoldingRegisters _) = True"
| "reads_registers (Call_ReadInputRegisters _) = True"
| "reads_registers _ = False"

text \<open>A range that is too large is refused by all three, each in its own way.\<close>

lemma call_refused:
  assumes "call_range call = Err e"
  shows "Channel_call b p call cb s = (Err (RequestError_from_InvalidRange e), s)"
    and "refuses cb (RequestError_from_InvalidRange e) s (CallbackSession_call b c call cb s)"
    and "FfiChannel_call out p call cb s = (Err (FfiBadRange e),
      if reads_registers call then s\<lparr>po_log := po_log s @ [(cb, Err RequestShutdown)]\<rparr> else s)"
proof -
  have bits: "AddressRange_of_read_bits r = Err e"
    if "bind_result (AddressRange_of_read_bits r) (\<lambda>_. Ok ()) = Err e" for r
    using that by (cases "AddressRange_of_read_bits r") simp_all
  have regs: "AddressRange_of_read_registers r = Err e"
    if "bind_result (AddressRange_of_read_registers r) (\<lambda>_. Ok ()) = Err e" for r
    using that by (cases "AddressRange_of_read_registers r") simp_all
  note simps = call_defs bits regs read_promises lift_result_def bnd_def Promise_failure_def Promise_complete_eq
    Promise_drop_eq refuses_def FfiChannelError_from_InvalidRange_def
  show "Channel_call b p call cb s = (Err (RequestError_from_InvalidRange e), s)"
    using assms by (cases call) (simp_all add: simps)
  show "refuses cb (RequestError_from_InvalidRange e) s (CallbackSession_call b c call cb s)"
    using assms by (cases call) (simp_all add: simps)
  show "FfiChannel_call out p call cb s = (Err (FfiBadRange e),
      if reads_registers call then s\<lparr>po_log := po_log s @ [(cb, Err RequestShutdown)]\<rparr> else s)"
    using assms by (cases call) (simp_all add: simps)
qed

text \<open>
  A call on a \<open>CallbackSession\<close> whose range is within the limit, on an open channel, queues
  one request, which holds the callback. Otherwise nothing is queued and the callback has run with the reason.
\<close>

lemma callback_session_queues:
  assumes "call_args_ok call"
  shows "case call_range call of
      Ok _ \<Rightarrow> if is_open then accepts (call_details call) cb s (CallbackSession_call is_open c call cb s)
        else refuses cb RequestShutdown s (CallbackSession_call is_open c call cb s)
    | Err e \<Rightarrow> refuses cb (BadRequest (BadRange e)) s (CallbackSession_call is_open c call cb s)
    | Panic \<Rightarrow> False"
proof (cases "call_range call")
  case (Ok u)
  then have ok: "call_range call = result.Ok ()" by simp
  note b = built_ok [OF assms ok]
  show ?thesis
    using ok sender_send_request [of "built call cb", where ok = "call_details call", OF b, of is_open "cs_param c" s] call_built(2) [OF ok, of is_open c cb s]
    by (auto simp: CallbackSession_send_def)
next
  case (Err e)
  then show ?thesis
    using call_refused(2) [OF Err]
    by (simp add: RequestError_from_InvalidRange_def InvalidRequest_from_InvalidRange_def)
next
  case Panic
  then show ?thesis using of_read_Ok(3,4) by (cases call) (auto simp: bind_result_case split: result.splits)
qed

lemma FfiChannel_call_result:
  assumes "call_args_ok call" and "FfiChannel_call out p call cb s = (r, s')"
  shows "case call_range call of
      Ok _ \<Rightarrow> (case out of
          Sent \<Rightarrow> r = Ok () \<and> accepts (call_details call) cb s s'
        | Full \<Rightarrow> r = Err ChannelFull \<and> refuses cb RequestShutdown s s'
        | Closed \<Rightarrow> r = Err ChannelClosed \<and> refuses cb RequestShutdown s s')
    | Err e \<Rightarrow> r = Err (FfiBadRange e) \<and>
        (if reads_registers call then refuses cb RequestShutdown s s' else s' = s)
    | Panic \<Rightarrow> False"
proof (cases "call_range call")
  case (Ok u)
  then have ok: "call_range call = result.Ok ()" by simp
  note b = built_ok [OF assms(1) ok]
  have "FfiChannel_send out (wrap p (built call cb)) s = (r, s')"
    using assms(2) call_built(3) [OF ok] by simp
  then show ?thesis
    using ok try_send_request [of "built call cb", where ok = "call_details call", OF b, of p s]
    by (cases out) (auto simp: FfiChannel_send_def conv_err_def)
next
  case (Err e)
  then show ?thesis using assms(2) call_refused(3) [OF Err, of out p cb s] by (auto simp: refuses_def)
next
  case Panic
  then show ?thesis using of_read_Ok(3,4) by (cases call) (auto simp: bind_result_case split: result.splits)
qed

text \<open>
  C24: The outcome of a call on the channel of the bindings, on every branch. A good range on a
  channel with room is queued and reported as success. A full or closed channel is
  reported, and the callback has run with \<open>Shutdown\<close>. A range that is too large is
  reported and nothing is queued; the callback of a register read has then run as well, the
  one of a bit read never runs.
\<close>

theorem ffi_channel_outcome:
  assumes "call_args_ok call" and "FfiChannel_call out p call cb s = (r, s')"
  shows "case call_range call of
      Ok _ \<Rightarrow> (case out of
          Sent \<Rightarrow> r = Ok () \<and> accepts (call_details call) cb s s'
        | Full \<Rightarrow> r = Err ChannelFull \<and> refuses cb RequestShutdown s s'
        | Closed \<Rightarrow> r = Err ChannelClosed \<and> refuses cb RequestShutdown s s')
    | Err e \<Rightarrow> r = Err (FfiBadRange e) \<and>
        (if reads_registers call then refuses cb RequestShutdown s s' else s' = s)
    | Panic \<Rightarrow> False"
  by (rule FfiChannel_call_result [OF assms])

theorem ffi_channel_outcome_witness:
  "\<exists>s'. FfiChannel_call Full (RequestParam_new (UnitId 1) 500) (Call_WriteSingleCoil (Indexed_new 3 True)) 7
      \<lparr>po_queue = [], po_log = []\<rparr> = (Err ChannelFull, s') \<and>
    refuses 7 RequestShutdown \<lparr>po_queue = [], po_log = []\<rparr> s'"
proof -
  obtain r s' where "FfiChannel_call Full (RequestParam_new (UnitId 1) 500)
      (Call_WriteSingleCoil (Indexed_new 3 True)) 7 \<lparr>po_queue = [], po_log = []\<rparr> = (r, s')" by (meson surj_pair)
  from this ffi_channel_outcome [OF _ this] show ?thesis by auto
qed

end
