(* ===== verification/Retry.thy ===== *)
theory Retry
  imports Prelude
begin

text \<open>
  Delays between connection attempts, \<open>rodbus/src/retry.rs\<close>. A duration is a number of
  nanoseconds; \<open>std::time::Duration\<close> holds up to \<open>u64::MAX\<close> seconds and
  999999999 nanoseconds, and multiplying one beyond that panics. The trait object is a record of
  functions on the state of the strategy.
\<close>

type_synonym Duration = nat

definition DURATION_MAX :: Duration where
  "DURATION_MAX = (2 ^ 64 - 1) * 1000000000 + 999999999"

definition Duration_mul :: "nat \<Rightarrow> Duration \<Rightarrow> (Duration, 'e) result" where
  "Duration_mul k d = (if k * d \<le> DURATION_MAX then Ok (k * d) else Panic)"

record 'r RetryStrategy =
  rs_reset :: "'r \<Rightarrow> 'r"
  rs_after_failed_connect :: "('r, Duration, unit) se"
  rs_after_disconnect :: "('r, Duration, unit) se"

record Doubling =
  db_min :: Duration
  db_max :: Duration
  db_current :: Duration

definition Doubling_create :: "Duration \<Rightarrow> Duration \<Rightarrow> Doubling" where
  "Doubling_create lo hi = \<lparr>db_min = lo, db_max = hi, db_current = lo\<rparr>"

definition Doubling_reset :: "Doubling \<Rightarrow> Doubling" where
  "Doubling_reset d = d\<lparr>db_current := db_min d\<rparr>"

definition Doubling_after_failed_connect :: "(Doubling, Duration, unit) se" where
  "Doubling_after_failed_connect d =
     (let ret = db_current d in
      case Duration_mul 2 (db_current d) of
        Ok twice \<Rightarrow> (Ok ret, d\<lparr>db_current := min twice (db_max d)\<rparr>)
      | Err e \<Rightarrow> (Err e, d)
      | Panic \<Rightarrow> (Panic, d))"

definition Doubling_after_disconnect :: "(Doubling, Duration, unit) se" where
  "Doubling_after_disconnect d = (Ok (db_min d), d)"

definition doubling_retry_strategy :: "Doubling RetryStrategy" where
  "doubling_retry_strategy = \<lparr>rs_reset = Doubling_reset,
     rs_after_failed_connect = Doubling_after_failed_connect,
     rs_after_disconnect = Doubling_after_disconnect\<rparr>"

definition default_retry_strategy :: Doubling where
  "default_retry_strategy = Doubling_create (1000 * 1000000) (60000 * 1000000000)"

section \<open>The contract of a strategy\<close>

text \<open>
  What the tasks rely on: the operations keep an invariant and return a delay between two bounds;
  they never panic.
\<close>

locale retry_strategy =
  fixes R :: "'r RetryStrategy"
    and inv :: "'r \<Rightarrow> bool"
    and lo hi :: "'r \<Rightarrow> Duration"
  assumes reset_inv: "inv r \<Longrightarrow> inv (rs_reset R r) \<and> lo (rs_reset R r) = lo r \<and> hi (rs_reset R r) = hi r"
    and failed_connect: "inv r \<Longrightarrow> \<exists>d r'. rs_after_failed_connect R r = (Ok d, r') \<and> inv r' \<and>
      lo r \<le> d \<and> d \<le> hi r \<and> lo r' = lo r \<and> hi r' = hi r"
    and disconnect: "inv r \<Longrightarrow> \<exists>d r'. rs_after_disconnect R r = (Ok d, r') \<and> inv r' \<and>
      lo r \<le> d \<and> d \<le> hi r \<and> lo r' = lo r \<and> hi r' = hi r"

definition doubling_inv :: "Doubling \<Rightarrow> bool" where
  "doubling_inv d \<longleftrightarrow> db_min d \<le> db_current d \<and> db_current d \<le> db_max d \<and> 2 * db_max d \<le> DURATION_MAX"

lemma doubling_create_inv:
  "lo \<le> hi \<Longrightarrow> 2 * hi \<le> DURATION_MAX \<Longrightarrow> doubling_inv (Doubling_create lo hi)"
  by (simp add: doubling_inv_def Doubling_create_def)

lemma doubling_step:
  "doubling_inv d \<Longrightarrow>
     Doubling_after_failed_connect d = (Ok (db_current d), d\<lparr>db_current := min (2 * db_current d) (db_max d)\<rparr>)"
  by (simp add: Doubling_after_failed_connect_def Duration_mul_def doubling_inv_def)

interpretation dbl: retry_strategy doubling_retry_strategy doubling_inv db_min db_max
proof unfold_locales
  fix r
  assume inv: "doubling_inv r"
  then show "doubling_inv (rs_reset doubling_retry_strategy r) \<and>
      db_min (rs_reset doubling_retry_strategy r) = db_min r \<and> db_max (rs_reset doubling_retry_strategy r) = db_max r"
    by (auto simp: doubling_retry_strategy_def Doubling_reset_def doubling_inv_def)
  show "\<exists>d r'. rs_after_failed_connect doubling_retry_strategy r = (Ok d, r') \<and> doubling_inv r' \<and>
      db_min r \<le> d \<and> d \<le> db_max r \<and> db_min r' = db_min r \<and> db_max r' = db_max r"
    using inv by (auto simp: doubling_retry_strategy_def doubling_step doubling_inv_def)
  show "\<exists>d r'. rs_after_disconnect doubling_retry_strategy r = (Ok d, r') \<and> doubling_inv r' \<and>
      db_min r \<le> d \<and> d \<le> db_max r \<and> db_min r' = db_min r \<and> db_max r' = db_max r"
    using inv by (auto simp: doubling_retry_strategy_def Doubling_after_disconnect_def doubling_inv_def)
qed

section \<open>The delays in closed form\<close>

text \<open>\<open>failures n d\<close>: the delay handed out by the \<open>n\<close>-th failure in a row.\<close>

fun failures :: "nat \<Rightarrow> Doubling \<Rightarrow> (Duration, unit) result \<times> Doubling" where
  "failures 0 d = Doubling_after_failed_connect d"
| "failures (Suc n) d = failures n (snd (Doubling_after_failed_connect d))"

lemma failures_eq:
  assumes "doubling_inv d"
  shows "fst (failures n d) = Ok (min (2 ^ n * db_current d) (db_max d))"
  using assms
proof (induction n arbitrary: d)
  case 0
  then show ?case by (simp add: doubling_step doubling_inv_def)
next
  case (Suc n)
  let ?d = "d\<lparr>db_current := min (2 * db_current d) (db_max d)\<rparr>"
  have "doubling_inv ?d" using Suc.prems by (simp add: doubling_inv_def)
  from Suc.IH [OF this] have "fst (failures (Suc n) d) = Ok (min (2 ^ n * min (2 * db_current d) (db_max d)) (db_max d))"
    using Suc.prems by (simp add: doubling_step)
  also have "min (2 ^ n * min (2 * db_current d) (db_max d)) (db_max d) = min (2 ^ Suc n * db_current d) (db_max d)"
  proof (cases "2 * db_current d \<le> db_max d")
    case False
    have "db_max d \<le> 2 ^ n * db_max d" by simp
    moreover have "db_max d \<le> 2 ^ Suc n * db_current d"
    proof -
      have "db_max d \<le> 2 * db_current d" using False by simp
      also have "\<dots> \<le> 2 ^ n * (2 * db_current d)" by simp
      finally show ?thesis by (simp add: mult.assoc mult.left_commute)
    qed
    moreover have "min (2 * db_current d) (db_max d) = db_max d" using False by simp
    ultimately show ?thesis by (simp only: min_absorb2)
  qed (simp add: mult.assoc mult.left_commute)
  finally show ?case .
qed

text \<open>
  C30: The delays of the doubling strategy in closed form: after a success, or at the start, the
  \<open>n\<close>-th failed attempt in a row waits the smallest delay times \<open>2 ^ n\<close>, capped at
  the largest one. No delay is computed by an overflowing multiplication.
\<close>

theorem doubling_delay:
  assumes "lo \<le> hi" and "2 * hi \<le> DURATION_MAX"
  shows "fst (failures n (Doubling_create lo hi)) = Ok (min (2 ^ n * lo) hi)"
  using failures_eq [OF doubling_create_inv [OF assms]] by (simp add: Doubling_create_def)

theorem doubling_delay_witness:
  "fst (failures 3 (Doubling_create 1000 60000)) = Ok 8000 \<and> fst (failures 9 (Doubling_create 1000 60000)) = Ok 60000"
  using doubling_delay [of 1000 60000 3] doubling_delay [of 1000 60000 9] by (simp add: DURATION_MAX_def)

end
