(* ===== verification/ChannelTask.thy ===== *)
theory ChannelTask
  imports ClientTask Retry
begin

text \<open>
  The tasks that keep a connection: \<open>TcpChannelTask\<close> of \<open>rodbus/src/tcp/client.rs\<close>,
  \<open>SerialChannelTask\<close> of \<open>rodbus/src/serial/client.rs\<close> and \<open>RtuServerTask\<close> of
  \<open>rodbus/src/serial/server.rs\<close>, with the states they report to a listener
  (\<open>rodbus/src/client/listener.rs\<close>). One attempt is described by what the environment
  decides in it: the commands that arrive while the task connects, the result of the connection
  and of the handshake, the turns of the session, and the commands that arrive before the
  retry delay is over.
\<close>

section \<open>Reported states\<close>

datatype ClientState =
    CS_Disabled
  | CS_Connecting
  | CS_Connected
  | CS_WaitAfterFailedConnect Duration
  | CS_WaitAfterDisconnect Duration
  | CS_Shutdown

datatype PortState = PS_Disabled | PS_Wait Duration | PS_Open | PS_Shutdown

section \<open>The TCP channel\<close>

record 'r TcpChannelTask =
  tc_retry :: 'r
  tc_loop :: ClientLoop
  tc_listener :: "ClientState list"
  tc_log :: completions
  tc_current :: "(ClientRequest \<times> TxId) option"

definition TcpChannelTask_new :: "'r \<Rightarrow> DecodeLevel \<Rightarrow> 'r TcpChannelTask" where
  "TcpChannelTask_new connect_retry decode =
     \<lparr>tc_retry = connect_retry, tc_loop = ClientLoop_new FrameWriter_tcp FramedReader_tcp decode,
      tc_listener = [], tc_log = [], tc_current = None\<rparr>"

record 'io attempt =
  at_connecting :: "Command option list"
  at_connect :: "(unit, ErrorKind) result"
  at_handshake :: "('io, unit) result"
  at_turns :: "turn list"
  at_waiting :: "Command option list"

definition TcpChannelTask_update :: "ClientState \<Rightarrow> 'r TcpChannelTask \<Rightarrow> 'r TcpChannelTask" where
  "TcpChannelTask_update st t = t\<lparr>tc_listener := tc_listener t @ [st]\<rparr>"

definition TcpChannelTask_connect ::
    "'io attempt \<Rightarrow> ('r TcpChannelTask, (unit, ErrorKind) result, StateChange) se" where
  "TcpChannelTask_connect a t = (case ClientLoop_fail_requests (at_connecting a) (tc_loop t, tc_log t) of
      (Pending, (c, log), _) \<Rightarrow> (Ok (at_connect a), t\<lparr>tc_loop := c, tc_log := log\<rparr>)
    | (Ready res, (c, log), _) \<Rightarrow> (Err res, t\<lparr>tc_loop := c, tc_log := log\<rparr>))"

text \<open>Report the wait, then fail the requests that arrive until it is over.\<close>

definition TcpChannelTask_wait ::
    "(Duration, unit) result \<times> 'r \<Rightarrow> (Duration \<Rightarrow> ClientState) \<Rightarrow> Command option list \<Rightarrow>
     ('r TcpChannelTask, unit, StateChange) se" where
  "TcpChannelTask_wait x st rs t = (case x of
      (Ok delay, r) \<Rightarrow>
        let t1 = TcpChannelTask_update (st delay) (t\<lparr>tc_retry := r\<rparr>) in
        (case ClientLoop_fail_requests_for rs (tc_loop t1, tc_log t1) of
           (res, (c, log), _) \<Rightarrow> (res, t1\<lparr>tc_loop := c, tc_log := log\<rparr>))
    | (_, r) \<Rightarrow> (Panic, t\<lparr>tc_retry := r\<rparr>))"

text \<open>With a connection: run the session, then wait unless the task has been shut down.\<close>

definition TcpChannelTask_run_connected ::
    "('r, 'w, 'd, 'io) platform \<Rightarrow> 's RetryStrategy \<Rightarrow> 'io attempt \<Rightarrow> 'io \<Rightarrow> 's TcpChannelTask \<Rightarrow>
     ((unit, StateChange) result poll \<times> 's TcpChannelTask) option" where
  "TcpChannelTask_run_connected P R a phys t =
     (let t1 = TcpChannelTask_update CS_Connected t;
          t2 = t1\<lparr>tc_retry := rs_reset R (tc_retry t1)\<rparr>
      in case ClientLoop_run P (at_turns a)
             \<lparr>cw_loop = tc_loop t2, cw_io = phys, cw_log = tc_log t2, cw_current = None\<rparr> of
           None \<Rightarrow> None
         | Some (x, w) \<Rightarrow>
             let t3 = t2\<lparr>tc_loop := cw_loop w, tc_log := cw_log w, tc_current := cw_current w\<rparr> in
             Some (case x of
                 Pending \<Rightarrow> (Pending, t3)
               | Ready (Ok Session_Shutdown) \<Rightarrow> (Ready (Err Change_Shutdown), t3)
               | Ready (Ok _) \<Rightarrow>
                   (case TcpChannelTask_wait (rs_after_disconnect R (tc_retry t3))
                           CS_WaitAfterDisconnect (at_waiting a) t3 of
                      (res, t4) \<Rightarrow> (Ready res, t4))
               | Ready _ \<Rightarrow> (Ready Panic, t3)))"

definition TcpChannelTask_try_connect_and_run ::
    "('r, 'w, 'd, 'io) platform \<Rightarrow> 's RetryStrategy \<Rightarrow> 'io attempt \<Rightarrow> 's TcpChannelTask \<Rightarrow>
     ((unit, StateChange) result poll \<times> 's TcpChannelTask) option" where
  "TcpChannelTask_try_connect_and_run P R a t0 =
     (case TcpChannelTask_connect a (TcpChannelTask_update CS_Connecting t0) of
        (Err sc, t) \<Rightarrow> Some (Ready (Err sc), t)
      | (Panic, t) \<Rightarrow> Some (Ready Panic, t)
      | (Ok connected, t) \<Rightarrow>
          (case bind_result (map_err (\<lambda>_. ()) connected) (\<lambda>_. at_handshake a) of
             Ok phys \<Rightarrow> TcpChannelTask_run_connected P R a phys t
           | Err _ \<Rightarrow>
               (case TcpChannelTask_wait (rs_after_failed_connect R (tc_retry t))
                       CS_WaitAfterFailedConnect (at_waiting a) t of
                  (res, t') \<Rightarrow> Some (Ready res, t'))
           | Panic \<Rightarrow> Some (Ready Panic, t)))"

text \<open>One round: what arrives while the channel is disabled, then an attempt.\<close>

fun TcpChannelTask_run_inner ::
    "('r, 'w, 'd, 'io) platform \<Rightarrow> 's RetryStrategy \<Rightarrow> (Command option list \<times> 'io attempt) list \<Rightarrow>
     's TcpChannelTask \<Rightarrow> ((Shutdown, unit) result poll \<times> 's TcpChannelTask) option" where
  "TcpChannelTask_run_inner P R [] t = Some (Pending, t)"
| "TcpChannelTask_run_inner P R ((rs, a) # rounds) t =
     (case ClientLoop_wait_for_enabled rs (tc_loop t, tc_log t) of
        (x, (c, log), _) \<Rightarrow>
          let t1 = t\<lparr>tc_loop := c, tc_log := log\<rparr> in
          (case x of
             Pending \<Rightarrow> Some (Pending, t1)
           | Ready (Err Shutdown) \<Rightarrow> Some (Ready (Ok Shutdown), t1)
           | Ready Panic \<Rightarrow> Some (Ready Panic, t1)
           | Ready (Ok _) \<Rightarrow>
               (case TcpChannelTask_try_connect_and_run P R a t1 of
                  None \<Rightarrow> None
                | Some (Pending, t2) \<Rightarrow> Some (Pending, t2)
                | Some (Ready Panic, t2) \<Rightarrow> Some (Ready Panic, t2)
                | Some (Ready (Err Change_Shutdown), t2) \<Rightarrow> Some (Ready (Ok Shutdown), t2)
                | Some (_, t2) \<Rightarrow>
                    TcpChannelTask_run_inner P R rounds
                      (if \<not> ClientLoop_is_enabled (tc_loop t2) then TcpChannelTask_update CS_Disabled t2 else t2))))"

definition TcpChannelTask_run ::
    "('r, 'w, 'd, 'io) platform \<Rightarrow> 's RetryStrategy \<Rightarrow> (Command option list \<times> 'io attempt) list \<Rightarrow>
     's TcpChannelTask \<Rightarrow> ((Shutdown, unit) result poll \<times> 's TcpChannelTask) option" where
  "TcpChannelTask_run P R rounds t =
     (case TcpChannelTask_run_inner P R rounds (TcpChannelTask_update CS_Disabled t) of
        Some (Ready (Ok r), t') \<Rightarrow> Some (Ready (Ok r), TcpChannelTask_update CS_Shutdown t')
      | x \<Rightarrow> x)"

section \<open>The serial channel\<close>

record 'r SerialChannelTask =
  sc_retry :: 'r
  sc_loop :: ClientLoop
  sc_listener :: "PortState list"
  sc_log :: completions
  sc_current :: "(ClientRequest \<times> TxId) option"

definition SerialChannelTask_new :: "'r \<Rightarrow> DecodeLevel \<Rightarrow> 'r SerialChannelTask" where
  "SerialChannelTask_new retry decode =
     \<lparr>sc_retry = retry, sc_loop = ClientLoop_new FrameWriter_rtu FramedReader_rtu_response decode,
      sc_listener = [], sc_log = [], sc_current = None\<rparr>"

record 'io open_attempt =
  oa_open :: "('io, unit) result"
  oa_turns :: "turn list"
  oa_waiting :: "Command option list"

definition SerialChannelTask_update :: "PortState \<Rightarrow> 'r SerialChannelTask \<Rightarrow> 'r SerialChannelTask" where
  "SerialChannelTask_update st t = t\<lparr>sc_listener := sc_listener t @ [st]\<rparr>"

definition SerialChannelTask_wait ::
    "(Duration, unit) result \<times> 'r \<Rightarrow> Command option list \<Rightarrow> ('r SerialChannelTask, unit, StateChange) se" where
  "SerialChannelTask_wait x rs t = (case x of
      (Ok delay, r) \<Rightarrow>
        let t1 = SerialChannelTask_update (PS_Wait delay) (t\<lparr>sc_retry := r\<rparr>) in
        (case ClientLoop_fail_requests_for rs (sc_loop t1, sc_log t1) of
           (res, (c, log), _) \<Rightarrow> (res, t1\<lparr>sc_loop := c, sc_log := log\<rparr>))
    | (_, r) \<Rightarrow> (Panic, t\<lparr>sc_retry := r\<rparr>))"

definition SerialChannelTask_try_open_and_run ::
    "('r, 'w, 'd, 'io) platform \<Rightarrow> 's RetryStrategy \<Rightarrow> 'io open_attempt \<Rightarrow> 's SerialChannelTask \<Rightarrow>
     ((unit, StateChange) result poll \<times> 's SerialChannelTask) option" where
  "SerialChannelTask_try_open_and_run P R a t = (case oa_open a of
      Err _ \<Rightarrow>
        (case SerialChannelTask_wait (rs_after_failed_connect R (sc_retry t)) (oa_waiting a) t of
           (res, t') \<Rightarrow> Some (Ready res, t'))
    | Panic \<Rightarrow> Some (Ready Panic, t)
    | Ok phys \<Rightarrow>
        let t1 = t\<lparr>sc_retry := rs_reset R (sc_retry t)\<rparr>;
            t2 = SerialChannelTask_update PS_Open t1;
            w = \<lparr>cw_loop = sc_loop t2, cw_io = phys, cw_log = sc_log t2, cw_current = None\<rparr>
        in (case ClientLoop_run P (oa_turns a) w of
              None \<Rightarrow> None
            | Some (x, w') \<Rightarrow>
                let t3 = t2\<lparr>sc_loop := cw_loop w', sc_log := cw_log w', sc_current := cw_current w'\<rparr> in
                Some (case x of
                    Pending \<Rightarrow> (Pending, t3)
                  | Ready (Ok Session_Shutdown) \<Rightarrow> (Ready (Err Change_Shutdown), t3)
                  | Ready (Ok Session_Disabled) \<Rightarrow> (Ready (Ok ()), t3)
                  | Ready (Ok _) \<Rightarrow>
                      (case SerialChannelTask_wait (rs_after_disconnect R (sc_retry t3)) (oa_waiting a) t3 of
                         (res, t4) \<Rightarrow> (Ready res, t4))
                  | Ready _ \<Rightarrow> (Ready Panic, t3))))"

fun SerialChannelTask_run_inner ::
    "('r, 'w, 'd, 'io) platform \<Rightarrow> 's RetryStrategy \<Rightarrow> (Command option list \<times> 'io open_attempt) list \<Rightarrow>
     's SerialChannelTask \<Rightarrow> ((Shutdown, unit) result poll \<times> 's SerialChannelTask) option" where
  "SerialChannelTask_run_inner P R [] t = Some (Pending, t)"
| "SerialChannelTask_run_inner P R ((rs, a) # rounds) t =
     (case ClientLoop_wait_for_enabled rs (sc_loop t, sc_log t) of
        (x, (c, log), _) \<Rightarrow>
          let t1 = t\<lparr>sc_loop := c, sc_log := log\<rparr> in
          (case x of
             Pending \<Rightarrow> Some (Pending, t1)
           | Ready (Err Shutdown) \<Rightarrow> Some (Ready (Ok Shutdown), t1)
           | Ready Panic \<Rightarrow> Some (Ready Panic, t1)
           | Ready (Ok _) \<Rightarrow>
               (case SerialChannelTask_try_open_and_run P R a t1 of
                  None \<Rightarrow> None
                | Some (Pending, t2) \<Rightarrow> Some (Pending, t2)
                | Some (Ready Panic, t2) \<Rightarrow> Some (Ready Panic, t2)
                | Some (Ready (Err Change_Shutdown), t2) \<Rightarrow> Some (Ready (Ok Shutdown), t2)
                | Some (_, t2) \<Rightarrow>
                    SerialChannelTask_run_inner P R rounds
                      (if \<not> ClientLoop_is_enabled (sc_loop t2) then SerialChannelTask_update PS_Disabled t2 else t2))))"

definition SerialChannelTask_run ::
    "('r, 'w, 'd, 'io) platform \<Rightarrow> 's RetryStrategy \<Rightarrow> (Command option list \<times> 'io open_attempt) list \<Rightarrow>
     's SerialChannelTask \<Rightarrow> ((Shutdown, unit) result poll \<times> 's SerialChannelTask) option" where
  "SerialChannelTask_run P R rounds t =
     (case SerialChannelTask_run_inner P R rounds (SerialChannelTask_update PS_Disabled t) of
        Some (Ready (Ok r), t') \<Rightarrow> Some (Ready (Ok r), SerialChannelTask_update PS_Shutdown t')
      | x \<Rightarrow> x)"

section \<open>The RTU server\<close>

text \<open>
  The port is opened, served and, after a delay, opened again. A session keeps its handlers,
  settings and parser from one opening to the next.
\<close>

record ('r, 'h) RtuServerTask =
  ru_retry :: 'r
  ru_session :: SessionTask
  ru_store :: "'h handler_store"

record 'io port_attempt =
  pa_open :: "('io, unit) result"
  pa_turns :: "(bool \<times> ServerSetting option poll) list"
  pa_sleeping :: "ServerSetting option list"

text \<open>\<open>spawn_rtu_server_task\<close> of \<open>rodbus/src/server/mod.rs\<close>, up to the start of the task.\<close>

definition spawn_rtu_server_task ::
    "'r \<Rightarrow> ServerHandlerMap \<Rightarrow> DecodeLevel \<Rightarrow> 'h handler_store \<Rightarrow> (('r, 'h) RtuServerTask, ErrorKind) result" where
  "spawn_rtu_server_task retry handlers decode st =
     (let session = SessionTask_new handlers Auth_None FrameWriter_rtu FramedReader_rtu_request decode in
      Ok \<lparr>ru_retry = retry, ru_session = session, ru_store = st\<rparr>)"

definition RtuServerTask_sleep ::
    "(Duration, unit) result \<times> 'r \<Rightarrow> ServerSetting option list \<Rightarrow> (('r, 'h) RtuServerTask, unit, Shutdown) se" where
  "RtuServerTask_sleep x rs t = (case x of
      (Ok delay, r) \<Rightarrow> (case SessionTask_sleep_for rs (ru_session t) of
          (res, s) \<Rightarrow> (res, t\<lparr>ru_retry := r, ru_session := s\<rparr>))
    | (_, r) \<Rightarrow> (Panic, t\<lparr>ru_retry := r\<rparr>))"

fun RtuServerTask_run ::
    "('r, 'w, 'd, 'io) platform \<Rightarrow> 'h RequestHandler \<Rightarrow> 's RetryStrategy \<Rightarrow> 'io port_attempt list \<Rightarrow>
     ('s, 'h) RtuServerTask \<Rightarrow> ((Shutdown, unit) result poll \<times> ('s, 'h) RtuServerTask) option" where
  "RtuServerTask_run P H R [] t = Some (Pending, t)"
| "RtuServerTask_run P H R (a # as) t = (case pa_open a of
      Ok serial \<Rightarrow>
        let t1 = t\<lparr>ru_retry := rs_reset R (ru_retry t)\<rparr> in
        (case SessionTask_run P H (pa_turns a) \<lparr>ss_task = ru_session t1, ss_store = ru_store t1, ss_io = serial\<rparr> of
           None \<Rightarrow> None
         | Some (x, s) \<Rightarrow>
             let t2 = t1\<lparr>ru_session := ss_task s, ru_store := ss_store s\<rparr> in
             (case x of
                Ready (Err RequestShutdown) \<Rightarrow> Some (Ready (Ok Shutdown), t2)
              | Ready (Err _) \<Rightarrow>
                  (case RtuServerTask_sleep (rs_after_disconnect R (ru_retry t2)) (pa_sleeping a) t2 of
                     (Err Shutdown, t3) \<Rightarrow> Some (Ready (Ok Shutdown), t3)
                   | (Panic, t3) \<Rightarrow> Some (Ready Panic, t3)
                   | (Ok _, t3) \<Rightarrow> RtuServerTask_run P H R as t3)
              | Ready Panic \<Rightarrow> Some (Ready Panic, t2)
              | _ \<Rightarrow> Some (Pending, t2)))
    | Err _ \<Rightarrow>
        (case RtuServerTask_sleep (rs_after_failed_connect R (ru_retry t)) (pa_sleeping a) t of
           (Err Shutdown, t3) \<Rightarrow> Some (Ready (Ok Shutdown), t3)
         | (Panic, t3) \<Rightarrow> Some (Ready Panic, t3)
         | (Ok _, t3) \<Rightarrow> RtuServerTask_run P H R as t3)
    | Panic \<Rightarrow> Some (Ready Panic, t))"

section \<open>The states a listener sees\<close>

inductive client_next :: "ClientState \<Rightarrow> ClientState \<Rightarrow> bool" where
  "client_next CS_Disabled CS_Connecting"
| "client_next CS_Connecting CS_Connected"
| "client_next CS_Connecting (CS_WaitAfterFailedConnect d)"
| "client_next CS_Connecting CS_Disabled"
| "client_next CS_Connected (CS_WaitAfterDisconnect d)"
| "client_next (CS_WaitAfterFailedConnect d) CS_Connecting"
| "client_next (CS_WaitAfterFailedConnect d) CS_Disabled"
| "client_next (CS_WaitAfterDisconnect d) CS_Connecting"
| "client_next (CS_WaitAfterDisconnect d) CS_Disabled"
| "st \<noteq> CS_Shutdown \<Longrightarrow> client_next st CS_Shutdown"

inductive_simps client_next_simps [simp]:
  "client_next CS_Disabled st" "client_next CS_Connecting st" "client_next CS_Connected st"
  "client_next (CS_WaitAfterFailedConnect d) st" "client_next (CS_WaitAfterDisconnect d) st"
  "client_next CS_Shutdown st" "client_next st CS_Shutdown"

inductive port_next :: "PortState \<Rightarrow> PortState \<Rightarrow> bool" where
  "port_next PS_Disabled PS_Open"
| "port_next PS_Disabled (PS_Wait d)"
| "port_next PS_Open (PS_Wait d)"
| "port_next PS_Open PS_Disabled"
| "port_next (PS_Wait d) PS_Open"
| "port_next (PS_Wait d) (PS_Wait d')"
| "port_next (PS_Wait d) PS_Disabled"
| "st \<noteq> PS_Shutdown \<Longrightarrow> port_next st PS_Shutdown"

inductive_simps port_next_simps [simp]:
  "port_next PS_Disabled st" "port_next PS_Open st" "port_next (PS_Wait d) st"
  "port_next PS_Shutdown st" "port_next st PS_Shutdown"

text \<open>The states in which the task rests between two attempts.\<close>

fun waiting :: "ClientState \<Rightarrow> bool" where
  "waiting (CS_WaitAfterFailedConnect d) = True"
| "waiting (CS_WaitAfterDisconnect d) = True"
| "waiting _ = False"

fun delay_within :: "Duration \<Rightarrow> Duration \<Rightarrow> ClientState \<Rightarrow> bool" where
  "delay_within l h (CS_WaitAfterFailedConnect d) = (l \<le> d \<and> d \<le> h)"
| "delay_within l h (CS_WaitAfterDisconnect d) = (l \<le> d \<and> d \<le> h)"
| "delay_within l h _ = True"

fun port_delay_within :: "Duration \<Rightarrow> Duration \<Rightarrow> PortState \<Rightarrow> bool" where
  "port_delay_within l h (PS_Wait d) = (l \<le> d \<and> d \<le> h)"
| "port_delay_within l h _ = True"

definition history :: "Duration \<Rightarrow> Duration \<Rightarrow> ClientState list \<Rightarrow> bool" where
  "history l h xs \<longleftrightarrow> xs \<noteq> [] \<and> hd xs = CS_Disabled \<and> successively client_next xs \<and> (\<forall>st \<in> set xs. delay_within l h st)"

lemma history_snoc:
  "history l h xs \<Longrightarrow> client_next (last xs) st \<Longrightarrow> delay_within l h st \<Longrightarrow> history l h (xs @ [st])"
  by (simp add: history_def successively_append_iff)

lemma fail_requests_result:
  assumes "ClientLoop_fail_requests rs s = (Ready sc, s', rest)"
  shows "sc = Change_Disable \<Longrightarrow> \<not> cl_enabled (fst s')"
  using assms
proof (induction rs s arbitrary: rule: ClientLoop_fail_requests.induct)
  case (2 r rs s)
  obtain y s1 where y: "ClientLoop_fail_next_request r s = (y, s1)" by (meson surj_pair)
  show ?case
  proof (cases y)
    case (Ok u)
    then show ?thesis using "2.IH"(1) [OF y [symmetric]] "2.prems" y by simp
  next
    case (Err e)
    then show ?thesis using "2.prems" y fail_next_request_cases [OF y] by auto
  next
    case Panic
    then show ?thesis using fail_next_request_cases [OF y] by simp
  qed
qed simp

text \<open>\<open>keeps_bounds\<close>: the strategy is in order and has the same bounds.\<close>

definition keeps_bounds :: "('r \<Rightarrow> bool) \<Rightarrow> ('r \<Rightarrow> Duration) \<Rightarrow> ('r \<Rightarrow> Duration) \<Rightarrow> 'r \<Rightarrow> 'r \<Rightarrow> bool" where
  "keeps_bounds ok lo hi r r' \<longleftrightarrow> ok r' \<and> lo r' = lo r \<and> hi r' = hi r"

definition task_ok ::
    "('r \<Rightarrow> bool) \<Rightarrow> ('r \<Rightarrow> Duration) \<Rightarrow> ('r \<Rightarrow> Duration) \<Rightarrow> 'r \<Rightarrow> 'r TcpChannelTask \<Rightarrow> bool" where
  "task_ok ok lo hi r t \<longleftrightarrow>
     keeps_bounds ok lo hi r (tc_retry t) \<and> history (lo r) (hi r) (tc_listener t)"

context retry_strategy
begin

lemma wait_ok:
  assumes "task_ok inv lo hi r t" and "\<exists>d r'. x = (Ok d, r') \<and> keeps_bounds inv lo hi r r' \<and> lo r \<le> d \<and> d \<le> hi r"
    and "\<And>d. client_next (last (tc_listener t)) (st d)" and "st = CS_WaitAfterFailedConnect \<or> st = CS_WaitAfterDisconnect"
    and "TcpChannelTask_wait x st rs t = (res, t')"
  shows "task_ok inv lo hi r t' \<and> waiting (last (tc_listener t')) \<and> (res = Err Change_Disable \<longrightarrow> \<not> cl_enabled (tc_loop t')) \<and>
    res \<noteq> Panic"
proof -
  from assms(2) obtain d r' where x: "x = (Ok d, r')" "keeps_bounds inv lo hi r r'" "lo r \<le> d" "d \<le> hi r" by blast
  obtain c log q where w: "ClientLoop_fail_requests_for rs (tc_loop t, tc_log t) = (res, (c, log), q)"
    and t': "t' = t\<lparr>tc_retry := r', tc_listener := tc_listener t @ [st d], tc_loop := c, tc_log := log\<rparr>"
    using assms(5) x by (auto simp: TcpChannelTask_wait_def TcpChannelTask_update_def Let_def split: prod.splits)
  have "delay_within (lo r) (hi r) (st d)" using assms(4) x(3,4) by auto
  then have "task_ok inv lo hi r t'"
    using assms(1,3) x(2) history_snoc by (auto simp: task_ok_def t')
  moreover have "res = Err Change_Disable \<longrightarrow> \<not> cl_enabled c" "res \<noteq> Panic"
    using w fail_requests_result [of rs "(tc_loop t, tc_log t)"]
    by (auto simp: ClientLoop_fail_requests_for_def split: prod.splits poll.splits)
  ultimately show ?thesis using assms(4) by (auto simp: t')
qed

lemma reset_bounds: "keeps_bounds inv lo hi r r' \<Longrightarrow> keeps_bounds inv lo hi r (rs_reset R r')"
  using reset_inv by (simp add: keeps_bounds_def)

lemma delay_bounds:
  assumes "keeps_bounds inv lo hi r r'"
  shows "\<exists>d r''. rs_after_failed_connect R r' = (Ok d, r'') \<and> keeps_bounds inv lo hi r r'' \<and> lo r \<le> d \<and> d \<le> hi r"
    and "\<exists>d r''. rs_after_disconnect R r' = (Ok d, r'') \<and> keeps_bounds inv lo hi r r'' \<and> lo r \<le> d \<and> d \<le> hi r"
  using assms failed_connect [of r'] disconnect [of r'] by (auto simp: keeps_bounds_def)

text \<open>What one attempt adds to the history, for each way it can end.\<close>

lemma run_connected_ok:
  assumes ok: "task_ok inv lo hi r t" and last: "last (tc_listener t) = CS_Connecting"
    and run: "TcpChannelTask_run_connected P R a phys t = Some (x, t')"
  shows "task_ok inv lo hi r t' \<and> last (tc_listener t') \<noteq> CS_Shutdown \<and>
    (\<forall>u. x = Ready (Ok u) \<longrightarrow> waiting (last (tc_listener t'))) \<and>
    (x = Ready (Err Change_Disable) \<longrightarrow> \<not> cl_enabled (tc_loop t') \<and> waiting (last (tc_listener t')))"
proof -
  let ?t1 = "TcpChannelTask_update CS_Connected t"
  define t2 where "t2 = ?t1\<lparr>tc_retry := rs_reset R (tc_retry ?t1)\<rparr>"
  have t2: "task_ok inv lo hi r t2" "last (tc_listener t2) = CS_Connected"
    using ok last history_snoc [of _ _ "tc_listener t" CS_Connected] reset_bounds
    by (auto simp: task_ok_def t2_def TcpChannelTask_update_def)
  note run2 = run [unfolded TcpChannelTask_run_connected_def Let_def, folded t2_def]
  obtain z w where z: "ClientLoop_run P (at_turns a)
      \<lparr>cw_loop = tc_loop t2, cw_io = phys, cw_log = tc_log t2, cw_current = None\<rparr> = Some (z, w)"
    using run2 by (auto split: option.splits)
  define t3 where "t3 = t2\<lparr>tc_loop := cw_loop w, tc_log := cw_log w, tc_current := cw_current w\<rparr>"
  have t3: "task_ok inv lo hi r t3" "last (tc_listener t3) = CS_Connected" using t2 by (auto simp: task_ok_def t3_def)
  obtain res t4 where w: "TcpChannelTask_wait (rs_after_disconnect R (tc_retry t3))
      CS_WaitAfterDisconnect (at_waiting a) t3 = (res, t4)" by (meson surj_pair)
  have t4: "task_ok inv lo hi r t4 \<and> waiting (last (tc_listener t4)) \<and>
      (res = Err Change_Disable \<longrightarrow> \<not> cl_enabled (tc_loop t4)) \<and> res \<noteq> Panic"
    by (rule wait_ok [OF t3(1) delay_bounds(2) _ _ w]) (use t3 in \<open>auto simp: task_ok_def\<close>)
  note run3 = run2 [unfolded z option.case prod.case, folded t3_def, unfolded w prod.case]
  have "(x, t') \<in> {(Pending, t3), (Ready (Err Change_Shutdown), t3), (Ready res, t4), (Ready Panic, t3)}"
    using run3 by (auto split: poll.splits result.splits SessionError.splits)
  then show ?thesis using t3 t4 by auto
qed

lemma try_connect_ok:
  assumes ok: "task_ok inv lo hi r t" and last: "last (tc_listener t) = CS_Disabled \<or> waiting (last (tc_listener t))"
    and run: "TcpChannelTask_try_connect_and_run P R a t = Some (x, t')"
  shows "task_ok inv lo hi r t' \<and> last (tc_listener t') \<noteq> CS_Shutdown \<and>
    (\<forall>u. x = Ready (Ok u) \<longrightarrow> waiting (last (tc_listener t'))) \<and>
    (x = Ready (Err Change_Disable) \<longrightarrow> \<not> cl_enabled (tc_loop t') \<and>
      (last (tc_listener t') = CS_Connecting \<or> waiting (last (tc_listener t'))))"
proof -
  define t0 where "t0 = TcpChannelTask_update CS_Connecting t"
  have t0: "task_ok inv lo hi r t0" "last (tc_listener t0) = CS_Connecting"
    using ok last history_snoc [of _ _ "tc_listener t" CS_Connecting]
    by (cases "last (tc_listener t)"; simp add: task_ok_def t0_def TcpChannelTask_update_def)+
  obtain y t1 where y: "TcpChannelTask_connect a t0 = (y, t1)" by (meson surj_pair)
  have t1: "task_ok inv lo hi r t1" "last (tc_listener t1) = CS_Connecting" "y \<noteq> Panic"
    "y = Err Change_Disable \<Longrightarrow> \<not> cl_enabled (tc_loop t1)"
    using y t0 fail_requests_result [of "at_connecting a" "(tc_loop t0, tc_log t0)"]
    by (auto simp: TcpChannelTask_connect_def task_ok_def split: prod.splits poll.splits)
  note start = run [unfolded TcpChannelTask_try_connect_and_run_def, folded t0_def, simplified y]
  show ?thesis
  proof (cases y)
    case (Err sc)
    then show ?thesis using start t1 by auto
  next
    case Panic
    then show ?thesis using t1(3) by simp
  next
    case (Ok connected)
    show ?thesis
    proof (cases "bind_result (map_err (\<lambda>_. ()) connected) (\<lambda>_. at_handshake a)")
      case Panic
      then show ?thesis using start Ok t1 by auto
    next
      case (Err e)
      obtain res t2 where w: "TcpChannelTask_wait (rs_after_failed_connect R (tc_retry t1))
          CS_WaitAfterFailedConnect (at_waiting a) t1 = (res, t2)" by (meson surj_pair)
      have "task_ok inv lo hi r t2 \<and> waiting (last (tc_listener t2)) \<and>
          (res = result.Err Change_Disable \<longrightarrow> \<not> cl_enabled (tc_loop t2)) \<and> res \<noteq> Panic"
        by (rule wait_ok [OF t1(1) delay_bounds(1) _ _ w]) (use t1 in \<open>auto simp: task_ok_def\<close>)
      then show ?thesis using start Ok Err w by auto
    next
      case phys: (Ok phys)
      then have "TcpChannelTask_run_connected P R a phys t1 = Some (x, t')" using start Ok by simp
      from run_connected_ok [OF t1(1,2) this] show ?thesis by blast
    qed
  qed
qed

lemma run_inner_ok:
  assumes "task_ok inv lo hi r t" and "last (tc_listener t) = CS_Disabled \<or> waiting (last (tc_listener t))"
    and "TcpChannelTask_run_inner P R rounds t = Some (x, t')"
  shows "task_ok inv lo hi r t' \<and> last (tc_listener t') \<noteq> CS_Shutdown"
  using assms
proof (induction rounds arbitrary: t)
  case Nil
  then show ?case by auto
next
  case (Cons y rounds)
  obtain rs a where y: "y = (rs, a)" by (cases y)
  obtain e c log q where e: "ClientLoop_wait_for_enabled rs (tc_loop t, tc_log t) = (e, (c, log), q)"
    by (metis prod.collapse)
  define t1 where "t1 = t\<lparr>tc_loop := c, tc_log := log\<rparr>"
  have t1: "task_ok inv lo hi r t1" "last (tc_listener t1) = CS_Disabled \<or> waiting (last (tc_listener t1))"
    using Cons.prems by (auto simp: task_ok_def t1_def)
  note start = Cons.prems(3) [unfolded y TcpChannelTask_run_inner.simps e, simplified, folded t1_def]
  show ?case
  proof (cases "\<exists>u. e = Ready (Ok u)")
    case False
    then have "t' = t1" using start by (auto split: poll.splits result.splits Shutdown.splits)
    then show ?thesis using t1 by auto
  next
    case True
    then obtain z t2 where z: "TcpChannelTask_try_connect_and_run P R a t1 = Some (z, t2)"
      using start by (auto split: option.splits)
    note ok = try_connect_ok [OF t1 z]
    show ?thesis
    proof (cases "(\<exists>u. z = Ready (Ok u)) \<or> z = Ready (Err Change_Disable)")
      case go: True
      let ?t = "if \<not> ClientLoop_is_enabled (tc_loop t2) then TcpChannelTask_update CS_Disabled t2 else t2"
      have "TcpChannelTask_run_inner P R rounds ?t = Some (x, t')" using start True z go by auto
      moreover have "task_ok inv lo hi r ?t"
        using ok go history_snoc [of _ _ "tc_listener t2" CS_Disabled]
        by (cases "last (tc_listener t2)") (auto simp: task_ok_def TcpChannelTask_update_def)
      moreover have "last (tc_listener ?t) = CS_Disabled \<or> waiting (last (tc_listener ?t))"
        using ok go by (auto simp: TcpChannelTask_update_def ClientLoop_is_enabled_def)
      ultimately show ?thesis using Cons.IH by blast
    next
      case False
      then have "t' = t2" using start True z by (auto split: poll.splits result.splits StateChange.splits)
      then show ?thesis using ok by simp
    qed
  qed
qed

text \<open>The whole run of a task.\<close>

lemma run_ok:
  assumes "inv (tc_retry t)" and "tc_listener t = []" and "TcpChannelTask_run P R rounds t = Some (x, t')"
  shows "history (lo (tc_retry t)) (hi (tc_retry t)) (tc_listener t') \<and>
    (last (tc_listener t') = CS_Shutdown \<longleftrightarrow> x = Ready (Ok Shutdown))"
proof -
  define t0 where "t0 = TcpChannelTask_update CS_Disabled t"
  have t0: "task_ok inv lo hi (tc_retry t) t0" "last (tc_listener t0) = CS_Disabled"
    using assms(1,2) by (simp_all add: task_ok_def keeps_bounds_def history_def t0_def TcpChannelTask_update_def)
  obtain y t1 where y: "TcpChannelTask_run_inner P R rounds t0 = Some (y, t1)"
    using assms(3) by (auto simp: TcpChannelTask_run_def t0_def split: option.splits)
  have t1: "history (lo (tc_retry t)) (hi (tc_retry t)) (tc_listener t1)" "last (tc_listener t1) \<noteq> CS_Shutdown"
    using run_inner_ok [OF t0(1) _ y] t0(2) by (simp_all add: task_ok_def)
  show ?thesis
  proof (cases "\<exists>u. y = Ready (Ok u)")
    case True
    then have "x = Ready (Ok Shutdown)" "t' = TcpChannelTask_update CS_Shutdown t1"
      using assms(3) y by (auto simp: TcpChannelTask_run_def t0_def [symmetric] intro: Shutdown.exhaust)
    moreover have "client_next (last (tc_listener t1)) CS_Shutdown" using t1(2) by simp
    ultimately show ?thesis using history_snoc [OF t1(1)] by (auto simp: TcpChannelTask_update_def)
  next
    case False
    then have "x = y" "t' = t1"
      using assms(3) y by (auto simp: TcpChannelTask_run_def t0_def [symmetric] split: poll.splits result.splits)
    then show ?thesis using t1 False by auto
  qed
qed

end

section \<open>The states of a serial port\<close>

definition port_history :: "Duration \<Rightarrow> Duration \<Rightarrow> PortState list \<Rightarrow> bool" where
  "port_history l h xs \<longleftrightarrow> xs \<noteq> [] \<and> hd xs = PS_Disabled \<and> successively port_next xs \<and>
     (\<forall>st \<in> set xs. port_delay_within l h st)"

lemma port_history_snoc:
  "port_history l h xs \<Longrightarrow> port_next (last xs) st \<Longrightarrow> port_delay_within l h st \<Longrightarrow> port_history l h (xs @ [st])"
  by (simp add: port_history_def successively_append_iff)

definition port_ok ::
    "('r \<Rightarrow> bool) \<Rightarrow> ('r \<Rightarrow> Duration) \<Rightarrow> ('r \<Rightarrow> Duration) \<Rightarrow> 'r \<Rightarrow> 'r SerialChannelTask \<Rightarrow> bool" where
  "port_ok ok lo hi r t \<longleftrightarrow>
     keeps_bounds ok lo hi r (sc_retry t) \<and> port_history (lo r) (hi r) (sc_listener t)"

context retry_strategy
begin

lemma port_wait_ok:
  assumes "port_ok inv lo hi r t" and "last (sc_listener t) \<noteq> PS_Shutdown"
    and "\<exists>d r'. x = (Ok d, r') \<and> keeps_bounds inv lo hi r r' \<and> lo r \<le> d \<and> d \<le> hi r"
    and "SerialChannelTask_wait x rs t = (res, t')"
  shows "port_ok inv lo hi r t' \<and> (\<exists>d. last (sc_listener t') = PS_Wait d)"
proof -
  from assms(3) obtain d r' where x: "x = (Ok d, r')" "keeps_bounds inv lo hi r r'" "lo r \<le> d" "d \<le> hi r" by blast
  obtain c log where t': "t' = t\<lparr>sc_retry := r', sc_listener := sc_listener t @ [PS_Wait d], sc_loop := c, sc_log := log\<rparr>"
    using assms(4) x by (auto simp: SerialChannelTask_wait_def SerialChannelTask_update_def Let_def split: prod.splits)
  have "port_next (last (sc_listener t)) (PS_Wait d)" using assms(2) by (cases "last (sc_listener t)") auto
  then show ?thesis
    using assms(1) x port_history_snoc [of _ _ "sc_listener t" "PS_Wait d"] by (auto simp: port_ok_def t')
qed

text \<open>
  After an attempt the port is reported open or waiting; an open port is followed by a wait
  unless the channel has been disabled.
\<close>

lemma try_open_ok:
  assumes ok: "port_ok inv lo hi r t" and last: "last (sc_listener t) = PS_Disabled \<or> (\<exists>d. last (sc_listener t) = PS_Wait d)"
    and run: "SerialChannelTask_try_open_and_run P R a t = Some (x, t')"
  shows "port_ok inv lo hi r t' \<and> last (sc_listener t') \<noteq> PS_Shutdown \<and>
    (x = Ready Panic \<or> last (sc_listener t') = PS_Open \<or> (\<exists>d. last (sc_listener t') = PS_Wait d)) \<and>
    (x = Ready (Err Change_Disable) \<longrightarrow> (\<exists>d. last (sc_listener t') = PS_Wait d)) \<and>
    (\<forall>u. x = Ready (Ok u) \<longrightarrow> last (sc_listener t') = PS_Open \<longrightarrow> \<not> cl_enabled (sc_loop t'))"
proof (cases "oa_open a")
  case (Err e)
  obtain res t2 where w: "SerialChannelTask_wait (rs_after_failed_connect R (sc_retry t)) (oa_waiting a) t = (res, t2)"
    by (meson surj_pair)
  have "port_ok inv lo hi r t2 \<and> (\<exists>d. last (sc_listener t2) = PS_Wait d)"
    by (rule port_wait_ok [OF ok _ delay_bounds(1) w]) (use ok last in \<open>auto simp: port_ok_def\<close>)
  then show ?thesis using run Err w by (auto simp: SerialChannelTask_try_open_and_run_def)
next
  case (Ok phys)
  let ?t1 = "t\<lparr>sc_retry := rs_reset R (sc_retry t)\<rparr>"
  define t2 where "t2 = SerialChannelTask_update PS_Open ?t1"
  have t2: "port_ok inv lo hi r t2" "last (sc_listener t2) = PS_Open"
    using ok last port_history_snoc [of _ _ "sc_listener t" PS_Open] reset_bounds
    by (auto simp: port_ok_def t2_def SerialChannelTask_update_def)
  note run2 = run [unfolded SerialChannelTask_try_open_and_run_def Ok result.case Let_def, folded t2_def]
  obtain z w where z: "ClientLoop_run P (oa_turns a)
      \<lparr>cw_loop = sc_loop t2, cw_io = phys, cw_log = sc_log t2, cw_current = None\<rparr> = Some (z, w)"
    using run2 by (auto split: option.splits)
  define t3 where "t3 = t2\<lparr>sc_loop := cw_loop w, sc_log := cw_log w, sc_current := cw_current w\<rparr>"
  have t3: "port_ok inv lo hi r t3" "last (sc_listener t3) = PS_Open" using t2 by (auto simp: port_ok_def t3_def)
  have off: "z = Ready (result.Ok Session_Disabled) \<Longrightarrow> \<not> cl_enabled (sc_loop t3)"
    using z run_disabled by (auto simp: t3_def)
  obtain res t4 where w: "SerialChannelTask_wait (rs_after_disconnect R (sc_retry t3)) (oa_waiting a) t3 = (res, t4)"
    by (meson surj_pair)
  have t4: "port_ok inv lo hi r t4 \<and> (\<exists>d. last (sc_listener t4) = PS_Wait d)"
    by (rule port_wait_ok [OF t3(1) _ delay_bounds(2) w]) (use t3 in \<open>auto simp: port_ok_def\<close>)
  note run3 = run2 [unfolded z option.case prod.case, folded t3_def, unfolded w prod.case]
  have "(x, t') \<in> {(Pending, t3), (Ready (Err Change_Shutdown), t3), (Ready res, t4), (Ready Panic, t3)} \<or>
      z = Ready (result.Ok Session_Disabled) \<and> (x, t') = (Ready (result.Ok ()), t3)"
    using run3 by (auto split: poll.splits result.splits SessionError.splits)
  then show ?thesis using t3 t4 off by auto
qed (use assms in \<open>auto simp: SerialChannelTask_try_open_and_run_def\<close>)

lemma port_run_inner_ok:
  assumes "port_ok inv lo hi r t" and "last (sc_listener t) = PS_Disabled \<or> (\<exists>d. last (sc_listener t) = PS_Wait d)"
    and "SerialChannelTask_run_inner P R rounds t = Some (x, t')"
  shows "port_ok inv lo hi r t' \<and> last (sc_listener t') \<noteq> PS_Shutdown"
  using assms
proof (induction rounds arbitrary: t)
  case Nil
  then show ?case by auto
next
  case (Cons y rounds)
  obtain rs a where y: "y = (rs, a)" by (cases y)
  obtain e c log q where e: "ClientLoop_wait_for_enabled rs (sc_loop t, sc_log t) = (e, (c, log), q)"
    by (metis prod.collapse)
  define t1 where "t1 = t\<lparr>sc_loop := c, sc_log := log\<rparr>"
  have t1: "port_ok inv lo hi r t1" "last (sc_listener t1) = PS_Disabled \<or> (\<exists>d. last (sc_listener t1) = PS_Wait d)"
    using Cons.prems by (auto simp: port_ok_def t1_def)
  note start = Cons.prems(3) [unfolded y SerialChannelTask_run_inner.simps e, simplified, folded t1_def]
  show ?case
  proof (cases "\<exists>u. e = Ready (Ok u)")
    case False
    then have "t' = t1" using start by (auto split: poll.splits result.splits Shutdown.splits)
    then show ?thesis using t1 by auto
  next
    case True
    then obtain z t2 where z: "SerialChannelTask_try_open_and_run P R a t1 = Some (z, t2)"
      using start by (auto split: option.splits)
    note ok = try_open_ok [OF t1 z]
    show ?thesis
    proof (cases "(\<exists>u. z = Ready (Ok u)) \<or> z = Ready (Err Change_Disable)")
      case go: True
      let ?t = "if \<not> ClientLoop_is_enabled (sc_loop t2) then SerialChannelTask_update PS_Disabled t2 else t2"
      have "SerialChannelTask_run_inner P R rounds ?t = Some (x, t')" using start True z go by auto
      moreover have "port_ok inv lo hi r ?t"
        using ok go port_history_snoc [of _ _ "sc_listener t2" PS_Disabled]
        by (auto simp: port_ok_def SerialChannelTask_update_def)
      moreover have "last (sc_listener ?t) = PS_Disabled \<or> (\<exists>d. last (sc_listener ?t) = PS_Wait d)"
        using ok go by (auto simp: SerialChannelTask_update_def ClientLoop_is_enabled_def)
      ultimately show ?thesis using Cons.IH by blast
    next
      case False
      then have "t' = t2" using start True z by (auto split: poll.splits result.splits StateChange.splits)
      then show ?thesis using ok by simp
    qed
  qed
qed

lemma port_run_ok:
  assumes "inv (sc_retry t)" and "sc_listener t = []" and "SerialChannelTask_run P R rounds t = Some (x, t')"
  shows "port_history (lo (sc_retry t)) (hi (sc_retry t)) (sc_listener t') \<and>
    (last (sc_listener t') = PS_Shutdown \<longleftrightarrow> x = Ready (Ok Shutdown))"
proof -
  define t0 where "t0 = SerialChannelTask_update PS_Disabled t"
  have t0: "port_ok inv lo hi (sc_retry t) t0" "last (sc_listener t0) = PS_Disabled"
    using assms(1,2) by (simp_all add: port_ok_def keeps_bounds_def port_history_def t0_def SerialChannelTask_update_def)
  obtain y t1 where y: "SerialChannelTask_run_inner P R rounds t0 = Some (y, t1)"
    using assms(3) by (auto simp: SerialChannelTask_run_def t0_def split: option.splits)
  have t1: "port_history (lo (sc_retry t)) (hi (sc_retry t)) (sc_listener t1)" "last (sc_listener t1) \<noteq> PS_Shutdown"
    using port_run_inner_ok [OF t0(1) _ y] t0(2) by (simp_all add: port_ok_def)
  show ?thesis
  proof (cases "\<exists>u. y = Ready (Ok u)")
    case True
    then have "x = Ready (Ok Shutdown)" "t' = SerialChannelTask_update PS_Shutdown t1"
      using assms(3) y by (auto simp: SerialChannelTask_run_def t0_def [symmetric] intro: Shutdown.exhaust)
    moreover have "port_next (last (sc_listener t1)) PS_Shutdown" using t1(2) by simp
    ultimately show ?thesis using port_history_snoc [OF t1(1)] by (auto simp: SerialChannelTask_update_def)
  next
    case False
    then have "x = y" "t' = t1"
      using assms(3) y by (auto simp: SerialChannelTask_run_def t0_def [symmetric] split: poll.splits result.splits)
    then show ?thesis using t1 False by auto
  qed
qed

end

end
