(* ===== verification/StdText.thy ===== *)
theory StdText
  imports Prelude
begin

text \<open>
  What the program uses of the standard library to read and print text: splitting a string at a
  character, \<open>from_str\<close> of numbers (an optional plus sign, then digits, with overflow checked
  at each digit) and of \<open>bool\<close>, and their decimal form, with the round trips.
\<close>

section \<open>Splitting\<close>

fun split_at_char :: "char \<Rightarrow> string \<Rightarrow> string list" where
  "split_at_char sep [] = [[]]"
| "split_at_char sep (c # cs) =
     (if c = sep then [] # split_at_char sep cs
      else case split_at_char sep cs of p # ps \<Rightarrow> (c # p) # ps | [] \<Rightarrow> [[c]])"

lemma split_no_sep: "sep \<notin> set xs \<Longrightarrow> split_at_char sep xs = [xs]"
  by (induction xs) auto

lemma split_sep: "sep \<notin> set xs \<Longrightarrow> split_at_char sep (xs @ sep # ys) = xs # split_at_char sep ys"
  by (induction xs) auto

section \<open>Reading and printing\<close>

definition digit_value :: "char \<Rightarrow> nat option" where
  "digit_value c = (let n = of_char c in if 48 \<le> n \<and> n \<le> 57 then Some (n - 48) else None)"

datatype IntErrorKind = Int_Empty | InvalidDigit | PosOverflow

fun digits_from_str :: "nat \<Rightarrow> nat \<Rightarrow> string \<Rightarrow> (nat, IntErrorKind) result" where
  "digits_from_str bound acc [] = Ok acc"
| "digits_from_str bound acc (c # cs) = (case digit_value c of
      None \<Rightarrow> Err InvalidDigit
    | Some d \<Rightarrow> if 10 * acc + d > bound then Err PosOverflow else digits_from_str bound (10 * acc + d) cs)"

text \<open>\<open>from_str\<close> of an unsigned type: a plus sign is accepted before a digit string.\<close>

definition uint_from_str :: "nat \<Rightarrow> string \<Rightarrow> (nat, IntErrorKind) result" where
  "uint_from_str bound s = (case s of
      [] \<Rightarrow> Err Int_Empty
    | c # cs \<Rightarrow> digits_from_str bound 0 (if c = CHR ''+'' \<and> cs \<noteq> [] then cs else s))"

definition u16_from_str :: "string \<Rightarrow> (u16, IntErrorKind) result" where
  "u16_from_str s = bind_result (uint_from_str 65535 s) (\<lambda>n. Ok (of_nat n))"

definition u8_from_str :: "string \<Rightarrow> (u8, IntErrorKind) result" where
  "u8_from_str s = bind_result (uint_from_str 255 s) (\<lambda>n. Ok (of_nat n))"

definition usize_from_str :: "string \<Rightarrow> (nat, IntErrorKind) result" where
  "usize_from_str s = uint_from_str (2 ^ 64 - 1) s"

definition bool_from_str :: "string \<Rightarrow> (bool, unit) result" where
  "bool_from_str s = (if s = ''true'' then Ok True else if s = ''false'' then Ok False else Err ())"

definition digit :: "nat \<Rightarrow> char" where
  "digit d = char_of (48 + d)"

fun show_uint :: "nat \<Rightarrow> string" where
  "show_uint n = (if n < 10 then [digit n] else show_uint (n div 10) @ [digit (n mod 10)])"

declare show_uint.simps [simp del]

definition show_bool :: "bool \<Rightarrow> string" where
  "show_bool b = (if b then ''true'' else ''false'')"

section \<open>Round trips\<close>

lemma digit_value_digit: "d < 10 \<Longrightarrow> digit_value (digit d) = Some d"
  by (simp add: digit_value_def digit_def)

lemma digit_ne: "d < 10 \<Longrightarrow> digit d \<noteq> CHR ''.''" "d < 10 \<Longrightarrow> digit d \<noteq> CHR ''*''" "d < 10 \<Longrightarrow> digit d \<noteq> CHR ''+''"
  using digit_value_digit [of d] by (auto simp: digit_value_def)

lemma digits_append:
  "digits_from_str bound acc (s @ t) = bind_result (digits_from_str bound acc s) (\<lambda>n. digits_from_str bound n t)"
  by (induction bound acc s rule: digits_from_str.induct) (auto split: option.split)

lemma digits_show: "n \<le> bound \<Longrightarrow> digits_from_str bound 0 (show_uint n) = Ok n"
proof (induction n rule: show_uint.induct)
  case (1 n)
  show ?case
  proof (cases "n < 10")
    case True
    then show ?thesis using 1 by (simp add: show_uint.simps [of n] digit_value_digit)
  next
    case False
    have "10 * (n div 10) + n mod 10 = n" by simp
    then show ?thesis
      using False 1 by (simp add: show_uint.simps [of n] digits_append digit_value_digit del: mult_div_mod_eq)
  qed
qed

lemma show_uint_chars: "c \<in> set (show_uint n) \<Longrightarrow> \<exists>d < 10. c = digit d"
proof (induction n rule: show_uint.induct)
  case (1 n)
  have "\<exists>d < 10. digit (n mod 10) = digit d" by (rule exI [of _ "n mod 10"]) simp
  then show ?case using 1 by (cases "n < 10") (auto simp: show_uint.simps [of n])
qed

lemma show_uint_ne: "show_uint n \<noteq> []"
  by (simp add: show_uint.simps [of n])

lemma uint_round_trip: "n \<le> bound \<Longrightarrow> uint_from_str bound (show_uint n) = Ok n"
proof -
  assume "n \<le> bound"
  moreover obtain c cs where c: "show_uint n = c # cs" using show_uint_ne by (meson list.exhaust)
  moreover have "c \<noteq> CHR ''+''" using show_uint_chars [of c n] c digit_ne(3) by auto
  ultimately show ?thesis using digits_show [of n bound] by (simp add: uint_from_str_def)
qed

lemma u16_round_trip [simp]: "u16_from_str (show_uint (unat (v :: u16))) = Ok v"
  using uint_round_trip [of "unat v" 65535] unsigned_less [where 'a = nat, of v] by (simp add: u16_from_str_def)

lemma bool_round_trip [simp]: "bool_from_str (show_bool b) = Ok b"
  by (simp add: bool_from_str_def show_bool_def)

lemma u8_round_trip [simp]: "u8_from_str (show_uint (unat (v :: u8))) = Ok v"
  using uint_round_trip [of "unat v" 255] unsigned_less [where 'a = nat, of v] by (simp add: u8_from_str_def)

end
