(* ===== verification/AddressFilter.thy ===== *)
theory AddressFilter
  imports StdText
begin

text \<open>
  The filter for the addresses of connecting clients, \<open>rodbus/src/server/address_filter.rs\<close>.
\<close>

section \<open>Addresses\<close>

datatype IpAddr = V4 u8 u8 u8 u8 | V6 "128 word"

section \<open>Wildcards\<close>

record WildcardIPv4 =
  wc_b3 :: "u8 option"
  wc_b2 :: "u8 option"
  wc_b1 :: "u8 option"
  wc_b0 :: "u8 option"

datatype BadIpv4Wildcard = BadIpv4Wildcard

definition get_byte :: "string \<Rightarrow> (u8 option, BadIpv4Wildcard) result" where
  "get_byte value =
     (if value = ''*'' then Ok None
      else case u8_from_str value of Ok x \<Rightarrow> Ok (Some x) | Err _ \<Rightarrow> Err BadIpv4Wildcard | Panic \<Rightarrow> Panic)"

text \<open>\<open>get_byte(iter.next().ok_or(BadIpv4Wildcard)?)\<close>\<close>

definition next_byte :: "(string list, u8 option, BadIpv4Wildcard) se" where
  "next_byte iter = (case iter of [] \<Rightarrow> (Err BadIpv4Wildcard, []) | part # rest \<Rightarrow> (get_byte part, rest))"

definition WildcardIPv4_from_str :: "string \<Rightarrow> (WildcardIPv4, BadIpv4Wildcard) result" where
  "WildcardIPv4_from_str s = fst (
     bnd next_byte (\<lambda>b3. bnd next_byte (\<lambda>b2. bnd next_byte (\<lambda>b1. bnd next_byte (\<lambda>b0. \<lambda>iter.
       if iter \<noteq> [] then (Err BadIpv4Wildcard, iter)
       else (Ok \<lparr>wc_b3 = b3, wc_b2 = b2, wc_b1 = b1, wc_b0 = b0\<rparr>, iter))))) (split_at_char CHR ''.'' s))"

definition byte_matches :: "u8 \<Rightarrow> u8 option \<Rightarrow> bool" where
  "byte_matches b other = (case other of Some x \<Rightarrow> b = x | None \<Rightarrow> True)"

fun WildcardIPv4_matches :: "IpAddr \<Rightarrow> WildcardIPv4 \<Rightarrow> bool" where
  "WildcardIPv4_matches (V4 b3 b2 b1 b0) w =
     (byte_matches b3 (wc_b3 w) \<and> byte_matches b2 (wc_b2 w) \<and> byte_matches b1 (wc_b1 w) \<and> byte_matches b0 (wc_b0 w))"
| "WildcardIPv4_matches (V6 _) w = False"

section \<open>Filters\<close>

datatype AddressFilter =
    Filter_Any
  | Exact IpAddr
  | AnyOf "IpAddr set"
  | Filter_WildcardIpv4 WildcardIPv4

fun AddressFilter_matches :: "IpAddr \<Rightarrow> AddressFilter \<Rightarrow> bool" where
  "AddressFilter_matches addr Filter_Any = True"
| "AddressFilter_matches addr (Exact x) = (x = addr)"
| "AddressFilter_matches addr (AnyOf addrs) = (addr \<in> addrs)"
| "AddressFilter_matches addr (Filter_WildcardIpv4 wc) = WildcardIPv4_matches addr wc"

section \<open>Printing and reading back\<close>

definition show_byte :: "u8 option \<Rightarrow> string" where
  "show_byte b = (case b of None \<Rightarrow> ''*'' | Some x \<Rightarrow> show_uint (unat x))"

definition show_wildcard :: "WildcardIPv4 \<Rightarrow> string" where
  "show_wildcard w = show_byte (wc_b3 w) @ ''.'' @ show_byte (wc_b2 w) @ ''.'' @ show_byte (wc_b1 w) @ ''.'' @
     show_byte (wc_b0 w)"

lemma get_byte_show: "get_byte (show_byte b) = Ok b"
proof (cases b)
  case None
  then show ?thesis by (simp add: show_byte_def get_byte_def)
next
  case (Some x)
  obtain c cs where c: "show_uint (unat x) = c # cs" using show_uint_ne by (meson list.exhaust)
  then have "c \<noteq> CHR ''*''" using show_uint_chars [of c "unat x"] digit_ne by auto
  then show ?thesis using Some c u8_round_trip [of x] by (simp add: show_byte_def get_byte_def)
qed

lemma show_byte_no_dot: "CHR ''.'' \<notin> set (show_byte b)"
  using show_uint_chars [of "CHR ''.''"] digit_ne(1) by (cases b) (force simp: show_byte_def)+

text \<open>
  Every IPv4 pattern can be written down and read back: four parts, each a star or a
  decimal number from 0 to 255, separated by dots, are read as exactly the pattern they were
  printed from.
\<close>

lemma wildcard_round_trip: "WildcardIPv4_from_str (show_wildcard w) = Ok w"
proof -
  have "split_at_char CHR ''.'' (show_wildcard w) =
      [show_byte (wc_b3 w), show_byte (wc_b2 w), show_byte (wc_b1 w), show_byte (wc_b0 w)]"
    by (simp add: show_wildcard_def split_sep split_no_sep show_byte_no_dot)
  then show ?thesis
    by (simp add: WildcardIPv4_from_str_def next_byte_def get_byte_show bnd_def)
qed

text \<open>
  C38: Only strings with exactly four parts are accepted, and an accepted pattern matches an
  IPv4 address exactly when every part is a star or reads as the byte of the address at
  that place; it never matches an IPv6 address.
\<close>

theorem wildcard_meaning:
  assumes "WildcardIPv4_from_str s = Ok w"
  shows "\<exists>p3 p2 p1 p0. split_at_char CHR ''.'' s = [p3, p2, p1, p0] \<and>
    (\<forall>a b c d. WildcardIPv4_matches (V4 a b c d) w \<longleftrightarrow>
      (p3 = ''*'' \<or> u8_from_str p3 = Ok a) \<and> (p2 = ''*'' \<or> u8_from_str p2 = Ok b) \<and>
      (p1 = ''*'' \<or> u8_from_str p1 = Ok c) \<and> (p0 = ''*'' \<or> u8_from_str p0 = Ok d)) \<and>
    (\<forall>x. \<not> WildcardIPv4_matches (V6 x) w)"
proof -
  have byte: "get_byte p = Ok x \<Longrightarrow> byte_matches a x \<longleftrightarrow> p = ''*'' \<or> u8_from_str p = Ok a" for p x a
    by (cases x; cases "u8_from_str p") (auto simp: get_byte_def byte_matches_def split: if_splits)
  obtain p3 p2 p1 p0 where parts: "split_at_char CHR ''.'' s = [p3, p2, p1, p0]"
    "get_byte p3 = Ok (wc_b3 w)" "get_byte p2 = Ok (wc_b2 w)" "get_byte p1 = Ok (wc_b1 w)" "get_byte p0 = Ok (wc_b0 w)"
    using assms
    by (auto simp: WildcardIPv4_from_str_def next_byte_def bnd_def split: list.splits result.splits if_splits)
  then show ?thesis using byte by auto
qed

theorem wildcard_meaning_witness:
  "\<exists>w. WildcardIPv4_from_str ''192.168.0.*'' = Ok w \<and> WildcardIPv4_matches (V4 192 168 0 77) w \<and>
    \<not> WildcardIPv4_matches (V4 192 168 1 77) w"
proof -
  let ?w = "\<lparr>wc_b3 = Some 192, wc_b2 = Some 168, wc_b1 = Some 0, wc_b0 = None\<rparr>"
  have "WildcardIPv4_from_str ''192.168.0.*'' = Ok ?w" by code_simp
  from this wildcard_meaning [OF this] show ?thesis by (auto simp: byte_matches_def)
qed

end
