(* ===== verification/FfiTypes.thy ===== *)
theory FfiTypes
  imports Handler
begin

text \<open>
  The types that the C bindings expose and their conversions to and from those of the library:
  the enumerations declared in \<open>ffi/rodbus-schema/src/common.rs\<close>, \<open>decoding.rs\<close>
  and \<open>server.rs\<close>, and the conversions of \<open>ffi/rodbus-ffi/src/helpers\<close> and
  \<open>ffi/rodbus-ffi/src/error.rs\<close>. A raw pointer argument is an option, \<open>None\<close> for a
  null pointer.
\<close>

section \<open>Errors\<close>

datatype ParamError =
    NoSupport
  | NullParameter
  | LoggingAlreadyConfigured
  | RuntimeCreationFailure
  | RuntimeDestroyed
  | RuntimeCannotBlockWithinAsync
  | InvalidIpAddress
  | Param_InvalidRange
  | Param_InvalidRequest
  | InvalidIndex
  | ServerBindError
  | InvalidUnitId
  | InvalidPeerCertificate
  | InvalidLocalCertificate
  | InvalidPrivateKey
  | InvalidDnsName
  | BadTlsConfig
  | Param_Shutdown
  | InvalidUtf8
  | TooManyRequests

datatype ModbusException =
    Ex_IllegalFunction
  | Ex_IllegalDataAddress
  | Ex_IllegalDataValue
  | Ex_ServerDeviceFailure
  | Ex_Acknowledge
  | Ex_ServerDeviceBusy
  | Ex_MemoryParityError
  | Ex_GatewayPathUnavailable
  | Ex_GatewayTargetDeviceFailedToRespond
  | Ex_Unknown

text \<open>The numeric values of the table \<open>MODBUS_EXCEPTION\<close>.\<close>

fun MODBUS_EXCEPTION :: "ModbusException \<Rightarrow> u8" where
  "MODBUS_EXCEPTION Ex_IllegalFunction = 0x01"
| "MODBUS_EXCEPTION Ex_IllegalDataAddress = 0x02"
| "MODBUS_EXCEPTION Ex_IllegalDataValue = 0x03"
| "MODBUS_EXCEPTION Ex_ServerDeviceFailure = 0x04"
| "MODBUS_EXCEPTION Ex_Acknowledge = 0x05"
| "MODBUS_EXCEPTION Ex_ServerDeviceBusy = 0x06"
| "MODBUS_EXCEPTION Ex_MemoryParityError = 0x08"
| "MODBUS_EXCEPTION Ex_GatewayPathUnavailable = 0x0A"
| "MODBUS_EXCEPTION Ex_GatewayTargetDeviceFailedToRespond = 0x0B"
| "MODBUS_EXCEPTION Ex_Unknown = 0xFF"

datatype FfiRequestError =
    Ffi_Shutdown
  | Ffi_NoConnection
  | Ffi_ResponseTimeout
  | Ffi_BadRequest
  | Ffi_BadResponse
  | Ffi_IoError
  | Ffi_BadFraming
  | Ffi_InternalError
  | Ffi_BadArgument
  | Ffi_ModbusException ModbusException

fun FfiRequestError_from_ExceptionCode :: "ExceptionCode \<Rightarrow> FfiRequestError" where
  "FfiRequestError_from_ExceptionCode Acknowledge = Ffi_ModbusException Ex_Acknowledge"
| "FfiRequestError_from_ExceptionCode GatewayPathUnavailable = Ffi_ModbusException Ex_GatewayPathUnavailable"
| "FfiRequestError_from_ExceptionCode GatewayTargetDeviceFailedToRespond =
     Ffi_ModbusException Ex_GatewayTargetDeviceFailedToRespond"
| "FfiRequestError_from_ExceptionCode IllegalDataAddress = Ffi_ModbusException Ex_IllegalDataAddress"
| "FfiRequestError_from_ExceptionCode IllegalDataValue = Ffi_ModbusException Ex_IllegalDataValue"
| "FfiRequestError_from_ExceptionCode IllegalFunction = Ffi_ModbusException Ex_IllegalFunction"
| "FfiRequestError_from_ExceptionCode MemoryParityError = Ffi_ModbusException Ex_MemoryParityError"
| "FfiRequestError_from_ExceptionCode ServerDeviceBusy = Ffi_ModbusException Ex_ServerDeviceBusy"
| "FfiRequestError_from_ExceptionCode ServerDeviceFailure = Ffi_ModbusException Ex_ServerDeviceFailure"
| "FfiRequestError_from_ExceptionCode (UnknownException _) = Ffi_ModbusException Ex_Unknown"

fun FfiRequestError_from_RequestError :: "RequestError \<Rightarrow> FfiRequestError" where
  "FfiRequestError_from_RequestError (Internal _) = Ffi_InternalError"
| "FfiRequestError_from_RequestError NoConnection = Ffi_NoConnection"
| "FfiRequestError_from_RequestError (BadFrame _) = Ffi_BadFraming"
| "FfiRequestError_from_RequestError RequestShutdown = Ffi_Shutdown"
| "FfiRequestError_from_RequestError ResponseTimeout = Ffi_ResponseTimeout"
| "FfiRequestError_from_RequestError (BadRequest _) = Ffi_BadRequest"
| "FfiRequestError_from_RequestError (Exception ex) = FfiRequestError_from_ExceptionCode ex"
| "FfiRequestError_from_RequestError (Io _) = Ffi_IoError"
| "FfiRequestError_from_RequestError (BadResponse _) = Ffi_BadResponse"

definition ParamError_from_InvalidRange :: "InvalidRange \<Rightarrow> ParamError" where
  [conv_defs]: "ParamError_from_InvalidRange x = Param_InvalidRange"

definition ParamError_from_InvalidRequest :: "InvalidRequest \<Rightarrow> ParamError" where
  [conv_defs]: "ParamError_from_InvalidRequest x = Param_InvalidRequest"

definition ParamError_from_AddrParseError :: "unit \<Rightarrow> ParamError" where
  [conv_defs]: "ParamError_from_AddrParseError x = InvalidIpAddress"

text \<open>\<open>as_ref().ok_or(NullParameter)?\<close>\<close>

definition not_null :: "'a option \<Rightarrow> ('a, ParamError) result" where
  "not_null p = (case p of Some x \<Rightarrow> Ok x | None \<Rightarrow> Err NullParameter)"

section \<open>The result of a write\<close>

record WriteResult =
  wr_success :: bool
  wr_exception :: ModbusException
  wr_raw_exception :: u8

definition WriteResult_success_init :: WriteResult where
  "WriteResult_success_init = \<lparr>wr_success = True, wr_exception = Ex_Unknown, wr_raw_exception = 0\<rparr>"

definition WriteResult_exception_init :: "ModbusException \<Rightarrow> WriteResult" where
  "WriteResult_exception_init ex = \<lparr>wr_success = False, wr_exception = ex, wr_raw_exception = 0\<rparr>"

definition WriteResult_raw_exception_init :: "u8 \<Rightarrow> WriteResult" where
  "WriteResult_raw_exception_init raw = \<lparr>wr_success = False, wr_exception = Ex_Unknown, wr_raw_exception = raw\<rparr>"

definition WriteResult_convert_to_result :: "WriteResult \<Rightarrow> (unit, ExceptionCode) result" where
  "WriteResult_convert_to_result r =
     (if wr_success r then Ok ()
      else Err (case wr_exception r of
          Ex_Acknowledge \<Rightarrow> Acknowledge
        | Ex_GatewayPathUnavailable \<Rightarrow> GatewayPathUnavailable
        | Ex_GatewayTargetDeviceFailedToRespond \<Rightarrow> GatewayTargetDeviceFailedToRespond
        | Ex_IllegalDataAddress \<Rightarrow> IllegalDataAddress
        | Ex_IllegalDataValue \<Rightarrow> IllegalDataValue
        | Ex_IllegalFunction \<Rightarrow> IllegalFunction
        | Ex_MemoryParityError \<Rightarrow> MemoryParityError
        | Ex_ServerDeviceBusy \<Rightarrow> ServerDeviceBusy
        | Ex_ServerDeviceFailure \<Rightarrow> ServerDeviceFailure
        | Ex_Unknown \<Rightarrow> UnknownException (wr_raw_exception r)))"

section \<open>Decode levels\<close>

datatype FfiAppDecodeLevel = FfiApp_Nothing | FfiApp_FunctionCode | FfiApp_DataHeaders | FfiApp_DataValues
datatype FfiFrameDecodeLevel = FfiFrame_Nothing | FfiFrame_Header | FfiFrame_Payload
datatype FfiPhysDecodeLevel = FfiPhys_Nothing | FfiPhys_Length | FfiPhys_Data

record FfiDecodeLevel =
  fdl_app :: FfiAppDecodeLevel
  fdl_frame :: FfiFrameDecodeLevel
  fdl_physical :: FfiPhysDecodeLevel

definition DecodeLevel_from_ffi :: "FfiDecodeLevel \<Rightarrow> DecodeLevel" where
  "DecodeLevel_from_ffi level = \<lparr>
     dl_app = (case fdl_app level of
         FfiApp_Nothing \<Rightarrow> AppNothing | FfiApp_FunctionCode \<Rightarrow> AppFunctionCode
       | FfiApp_DataHeaders \<Rightarrow> AppDataHeaders | FfiApp_DataValues \<Rightarrow> AppDataValues),
     dl_frame = (case fdl_frame level of
         FfiFrame_Nothing \<Rightarrow> FrameNothing | FfiFrame_Header \<Rightarrow> FrameHeaderLevel | FfiFrame_Payload \<Rightarrow> FramePayload),
     dl_physical = (case fdl_physical level of
         FfiPhys_Nothing \<Rightarrow> PhysNothing | FfiPhys_Length \<Rightarrow> PhysLength | FfiPhys_Data \<Rightarrow> PhysData) \<rparr>"

section \<open>Exceptions across the bindings\<close>

text \<open>
  An exception that a C write handler returns reaches the C client on the other side
  unchanged. It is sent as its byte of the table (as the raw byte when it is the unknown
  exception), and a standard exception is reported to the client as itself. In general the client
  is told the standard exception with the received byte, and the unknown exception exactly when no
  standard exception has that byte.
\<close>

lemma exception_across_bindings:
  assumes "WriteResult_convert_to_result r = Err ex"
  shows "ExceptionCode_to_u8 ex =
      (if wr_exception r = Ex_Unknown then wr_raw_exception r else MODBUS_EXCEPTION (wr_exception r)) \<and>
    (\<exists>e. FfiRequestError_from_RequestError (Exception (ExceptionCode_from_u8 (ExceptionCode_to_u8 ex))) =
        Ffi_ModbusException e \<and>
      (wr_exception r \<noteq> Ex_Unknown \<longrightarrow> e = wr_exception r) \<and>
      (e \<noteq> Ex_Unknown \<longrightarrow> MODBUS_EXCEPTION e = ExceptionCode_to_u8 ex) \<and>
      (e = Ex_Unknown \<longrightarrow> (\<forall>e'. e' \<noteq> Ex_Unknown \<longrightarrow> MODBUS_EXCEPTION e' \<noteq> ExceptionCode_to_u8 ex)))"
proof (cases "wr_exception r = Ex_Unknown")
  case True
  have none: "MODBUS_EXCEPTION e' \<in> {1, 2, 3, 4, 5, 6, 8, 0x0A, 0x0B}" if "e' \<noteq> Ex_Unknown" for e'
    using that by (cases e') simp_all
  have "ex = UnknownException (wr_raw_exception r)"
    using assms True by (simp add: WriteResult_convert_to_result_def split: if_splits)
  then show ?thesis using True by (auto simp: ExceptionCode_from_u8_def dest: none)
next
  case False
  then show ?thesis
    using assms
    by (cases "wr_exception r") (auto simp: WriteResult_convert_to_result_def ExceptionCode_from_u8_def split: if_splits)
qed

lemma exception_across_bindings_witness:
  "\<exists>e. FfiRequestError_from_RequestError (Exception (ExceptionCode_from_u8 (ExceptionCode_to_u8 ServerDeviceBusy))) =
     Ffi_ModbusException e \<and> e = Ex_ServerDeviceBusy"
proof -
  have "WriteResult_convert_to_result (WriteResult_exception_init Ex_ServerDeviceBusy) = Err ServerDeviceBusy"
    by (simp add: WriteResult_convert_to_result_def WriteResult_exception_init_def)
  from exception_across_bindings [OF this] show ?thesis by (simp add: WriteResult_exception_init_def)
qed

end
