(* ===== verification/SerialPort.thy ===== *)
theory SerialPort
  imports FfiTypes
begin

text \<open>
  The settings of a serial port, \<open>rodbus/src/serial/mod.rs\<close>, their form in the bindings
  (\<open>ffi/rodbus-schema/src/common.rs\<close>) and the conversion. The builder of the crate
  \<open>tokio_serial\<close>, to which the settings are handed when a port is opened, is a parameter.
\<close>

section \<open>Port settings\<close>

type_synonym u32 = "32 word"

datatype DataBits = DataBits_Five | DataBits_Six | DataBits_Seven | DataBits_Eight
datatype FlowControl = FlowControl_None | FlowControl_Software | FlowControl_Hardware
datatype Parity = Parity_None | Parity_Odd | Parity_Even
datatype StopBits = StopBits_One | StopBits_Two

record SerialSettings =
  se_baud_rate :: u32
  se_data_bits :: DataBits
  se_flow_control :: FlowControl
  se_stop_bits :: StopBits
  se_parity :: Parity

definition SerialSettings_default :: SerialSettings where
  "SerialSettings_default = \<lparr>se_baud_rate = 9600, se_data_bits = DataBits_Eight, se_flow_control = FlowControl_None,
     se_stop_bits = StopBits_One, se_parity = Parity_None\<rparr>"

text \<open>The builder of a port.\<close>

record ('b, 'p) tokio_serial =
  sb_new :: "string \<Rightarrow> u32 \<Rightarrow> 'b"
  sb_baud_rate :: "u32 \<Rightarrow> 'b \<Rightarrow> 'b"
  sb_data_bits :: "DataBits \<Rightarrow> 'b \<Rightarrow> 'b"
  sb_flow_control :: "FlowControl \<Rightarrow> 'b \<Rightarrow> 'b"
  sb_stop_bits :: "StopBits \<Rightarrow> 'b \<Rightarrow> 'b"
  sb_parity :: "Parity \<Rightarrow> 'b \<Rightarrow> 'b"
  sb_open :: "'b \<Rightarrow> ('p, unit) result"

definition SerialSettings_apply :: "('b, 'p) tokio_serial \<Rightarrow> SerialSettings \<Rightarrow> 'b \<Rightarrow> 'b" where
  "SerialSettings_apply T s builder =
     sb_parity T (se_parity s) (sb_stop_bits T (se_stop_bits s) (sb_flow_control T (se_flow_control s)
       (sb_data_bits T (se_data_bits s) (sb_baud_rate T (se_baud_rate s) builder))))"

definition serial_open :: "('b, 'p) tokio_serial \<Rightarrow> string \<Rightarrow> SerialSettings \<Rightarrow> ('p, unit) result" where
  "serial_open T path settings =
     (let builder = SerialSettings_apply T settings (sb_new T path (se_baud_rate settings)) in sb_open T builder)"

text \<open>The settings in the bindings.\<close>

datatype FfiDataBits = FfiDataBits_Five | FfiDataBits_Six | FfiDataBits_Seven | FfiDataBits_Eight
datatype FfiFlowControl = FfiFlowControl_None | FfiFlowControl_Software | FfiFlowControl_Hardware
datatype FfiParity = FfiParity_None | FfiParity_Odd | FfiParity_Even
datatype FfiStopBits = FfiStopBits_One | FfiStopBits_Two

record SerialPortSettings =
  sp_baud_rate :: u32
  sp_data_bits :: FfiDataBits
  sp_flow_control :: FfiFlowControl
  sp_parity :: FfiParity
  sp_stop_bits :: FfiStopBits

definition SerialPortSettings_init :: SerialPortSettings where
  "SerialPortSettings_init = \<lparr>sp_baud_rate = 9600, sp_data_bits = FfiDataBits_Eight,
     sp_flow_control = FfiFlowControl_None, sp_parity = FfiParity_None, sp_stop_bits = FfiStopBits_One\<rparr>"

definition SerialSettings_from_ffi :: "SerialPortSettings \<Rightarrow> SerialSettings" where
  "SerialSettings_from_ffi x = \<lparr>se_baud_rate = sp_baud_rate x,
     se_data_bits = (case sp_data_bits x of
        FfiDataBits_Five \<Rightarrow> DataBits_Five | FfiDataBits_Six \<Rightarrow> DataBits_Six
      | FfiDataBits_Seven \<Rightarrow> DataBits_Seven | FfiDataBits_Eight \<Rightarrow> DataBits_Eight),
     se_flow_control = (case sp_flow_control x of
        FfiFlowControl_None \<Rightarrow> FlowControl_None | FfiFlowControl_Software \<Rightarrow> FlowControl_Software
      | FfiFlowControl_Hardware \<Rightarrow> FlowControl_Hardware),
     se_stop_bits = (case sp_stop_bits x of FfiStopBits_One \<Rightarrow> StopBits_One | FfiStopBits_Two \<Rightarrow> StopBits_Two),
     se_parity = (case sp_parity x of
        FfiParity_None \<Rightarrow> Parity_None | FfiParity_Odd \<Rightarrow> Parity_Odd | FfiParity_Even \<Rightarrow> Parity_Even)\<rparr>"

text \<open>The defaults of the bindings are those of the library, and the conversion loses nothing.\<close>

lemma serial_defaults_agree: "SerialSettings_from_ffi SerialPortSettings_init = SerialSettings_default"
  by (simp add: SerialSettings_from_ffi_def SerialPortSettings_init_def SerialSettings_default_def)

lemma SerialSettings_from_ffi_inj: "SerialSettings_from_ffi x = SerialSettings_from_ffi y \<Longrightarrow> x = y"
  by (cases x; cases y)
    (auto simp: SerialSettings_from_ffi_def split: FfiDataBits.splits FfiFlowControl.splits FfiParity.splits FfiStopBits.splits)

end
