(* ===== verification/FfiClient.thy ===== *)
theory FfiClient
  imports ClientChannel ChannelTask AddressFilter SerialPort
begin

text \<open>
  The client of the C bindings, \<open>ffi/rodbus-ffi/src/client.rs\<close>, with the lists of
  \<open>list.rs\<close> and the callbacks of \<open>helpers/ext.rs\<close>. A C callback is wrapped in a
  promise of the \<open>sfio_promise\<close> crate, which runs the callback with the value of
  \<open>on_drop\<close> when it is dropped without having been completed. What dropping does to the
  log of callbacks is the argument \<open>dropped\<close>; the crate's promise about it is
  \<open>completes_on_drop\<close>.
\<close>

section \<open>Lists of values\<close>

record 'v FfiList =
  fl_inner :: "'v list"

type_synonym BitList = "bool FfiList"
type_synonym RegisterList = "u16 FfiList"

text \<open>The size hint only reserves memory.\<close>

definition bit_list_create :: "32 word \<Rightarrow> BitList" where
  "bit_list_create size_hint = \<lparr>fl_inner = []\<rparr>"

definition register_list_create :: "32 word \<Rightarrow> RegisterList" where
  "register_list_create size_hint = \<lparr>fl_inner = []\<rparr>"

definition bit_list_add :: "BitList option \<Rightarrow> bool \<Rightarrow> BitList option" where
  "bit_list_add xs item = (case xs of None \<Rightarrow> None | Some l \<Rightarrow> Some (l\<lparr>fl_inner := fl_inner l @ [item]\<rparr>))"

definition register_list_add :: "RegisterList option \<Rightarrow> u16 \<Rightarrow> RegisterList option" where
  "register_list_add xs item = (case xs of None \<Rightarrow> None | Some l \<Rightarrow> Some (l\<lparr>fl_inner := fl_inner l @ [item]\<rparr>))"

section \<open>Parameters and errors\<close>

record FfiRequestParam =
  frp_unit_id :: u8
  frp_timeout :: nat

definition RequestParam_from_ffi :: "FfiRequestParam \<Rightarrow> RequestParam" where
  "RequestParam_from_ffi value = \<lparr>rp_id = UnitId (frp_unit_id value), rp_response_timeout = frp_timeout value\<rparr>"

fun ParamError_from_FfiChannelError :: "FfiChannelError \<Rightarrow> ParamError" where
  "ParamError_from_FfiChannelError ChannelFull = TooManyRequests"
| "ParamError_from_FfiChannelError ChannelClosed = Param_Shutdown"
| "ParamError_from_FfiChannelError (FfiBadRange err) = ParamError_from_InvalidRange err"

text \<open>
  What a C callback is called with: a read gets an iterator over the values, a write the single
  value of the type \<open>Nothing\<close>.
\<close>

datatype ffi_callback_event = On_Complete reply_value | On_Written | On_Failure FfiRequestError | On_Panic

fun ReadCallback_complete :: "(reply_value, RequestError) result \<Rightarrow> ffi_callback_event" where
  "ReadCallback_complete (Ok x) = On_Complete x"
| "ReadCallback_complete (Err err) = On_Failure (FfiRequestError_from_RequestError err)"
| "ReadCallback_complete Panic = On_Panic"

fun WriteCallback_complete :: "(reply_value, RequestError) result \<Rightarrow> ffi_callback_event" where
  "WriteCallback_complete (Ok _) = On_Written"
| "WriteCallback_complete (Err err) = On_Failure (FfiRequestError_from_RequestError err)"
| "WriteCallback_complete Panic = On_Panic"

definition ReadCallback_on_drop :: "(reply_value, RequestError) result" where
  "ReadCallback_on_drop = Err RequestShutdown"

section \<open>Calls\<close>

type_synonym drop_promise = "(reply_value, RequestError) result \<Rightarrow> callback \<Rightarrow> completions \<Rightarrow> completions"

definition completes_on_drop :: "drop_promise \<Rightarrow> bool" where
  "completes_on_drop dropped \<longleftrightarrow> (\<forall>r cb log. dropped r cb log = log @ [(cb, r)])"

text \<open>
  When \<open>read_bits\<close> refuses the range, the closure that holds the wrapped callback is
  dropped without having been called; \<open>read_registers\<close> has put it into a promise by then, whose
  own drop calls it.
\<close>

definition drop_unused ::
    "drop_promise \<Rightarrow> callback \<Rightarrow> (port, unit, FfiChannelError) se \<Rightarrow> (port, unit, FfiChannelError) se" where
  "drop_unused dropped callback m s = (case m s of
      (Err (FfiBadRange e), s') \<Rightarrow>
        (Err (FfiBadRange e), s'\<lparr>po_log := dropped ReadCallback_on_drop callback (po_log s')\<rparr>)
    | x \<Rightarrow> x)"

definition client_channel_read_coils ::
    "drop_promise \<Rightarrow> send_outcome \<Rightarrow> unit option \<Rightarrow> FfiRequestParam \<Rightarrow> AddressRange \<Rightarrow> callback \<Rightarrow> (port, unit, ParamError) se" where
  "client_channel_read_coils dropped out channel param rng callback =
     bnd (lift_result (not_null channel)) (\<lambda>_.
     bnd (lift_result (map_err ParamError_from_InvalidRange (AddressRange_try_from (ar_start rng) (ar_count rng)))) (\<lambda>rng'.
       conv_err ParamError_from_FfiChannelError
         (drop_unused dropped callback (FfiChannel_read_coils out (RequestParam_from_ffi param) rng' callback))))"

definition client_channel_read_discrete_inputs ::
    "drop_promise \<Rightarrow> send_outcome \<Rightarrow> unit option \<Rightarrow> FfiRequestParam \<Rightarrow> AddressRange \<Rightarrow> callback \<Rightarrow> (port, unit, ParamError) se" where
  "client_channel_read_discrete_inputs dropped out channel param rng callback =
     bnd (lift_result (not_null channel)) (\<lambda>_.
     bnd (lift_result (map_err ParamError_from_InvalidRange (AddressRange_try_from (ar_start rng) (ar_count rng)))) (\<lambda>rng'.
       conv_err ParamError_from_FfiChannelError
         (drop_unused dropped callback (FfiChannel_read_discrete_inputs out (RequestParam_from_ffi param) rng' callback))))"

definition client_channel_read_holding_registers ::
    "send_outcome \<Rightarrow> unit option \<Rightarrow> FfiRequestParam \<Rightarrow> AddressRange \<Rightarrow> callback \<Rightarrow> (port, unit, ParamError) se" where
  "client_channel_read_holding_registers out channel param rng callback =
     bnd (lift_result (not_null channel)) (\<lambda>_.
     bnd (lift_result (map_err ParamError_from_InvalidRange (AddressRange_try_from (ar_start rng) (ar_count rng)))) (\<lambda>rng'.
       conv_err ParamError_from_FfiChannelError
         (FfiChannel_read_holding_registers out (RequestParam_from_ffi param) rng' callback)))"

definition client_channel_read_input_registers ::
    "send_outcome \<Rightarrow> unit option \<Rightarrow> FfiRequestParam \<Rightarrow> AddressRange \<Rightarrow> callback \<Rightarrow> (port, unit, ParamError) se" where
  "client_channel_read_input_registers out channel param rng callback =
     bnd (lift_result (not_null channel)) (\<lambda>_.
     bnd (lift_result (map_err ParamError_from_InvalidRange (AddressRange_try_from (ar_start rng) (ar_count rng)))) (\<lambda>rng'.
       conv_err ParamError_from_FfiChannelError
         (FfiChannel_read_input_registers out (RequestParam_from_ffi param) rng' callback)))"

definition client_channel_write_single_coil ::
    "send_outcome \<Rightarrow> unit option \<Rightarrow> FfiRequestParam \<Rightarrow> bool Indexed \<Rightarrow> callback \<Rightarrow> (port, unit, ParamError) se" where
  "client_channel_write_single_coil out channel param bt callback =
     bnd (lift_result (not_null channel)) (\<lambda>_.
       conv_err ParamError_from_FfiChannelError (FfiChannel_write_single_coil out (RequestParam_from_ffi param) bt callback))"

definition client_channel_write_single_register ::
    "send_outcome \<Rightarrow> unit option \<Rightarrow> FfiRequestParam \<Rightarrow> u16 Indexed \<Rightarrow> callback \<Rightarrow> (port, unit, ParamError) se" where
  "client_channel_write_single_register out channel param register callback =
     bnd (lift_result (not_null channel)) (\<lambda>_.
       conv_err ParamError_from_FfiChannelError
         (FfiChannel_write_single_register out (RequestParam_from_ffi param) register callback))"

definition client_channel_write_multiple_coils ::
    "send_outcome \<Rightarrow> unit option \<Rightarrow> FfiRequestParam \<Rightarrow> u16 \<Rightarrow> BitList option \<Rightarrow> callback \<Rightarrow> (port, unit, ParamError) se" where
  "client_channel_write_multiple_coils out channel param start items callback =
     bnd (lift_result (not_null channel)) (\<lambda>_. bnd (lift_result (not_null items)) (\<lambda>l.
     bnd (lift_result (map_err ParamError_from_InvalidRequest (WriteMultiple_from start (fl_inner l)))) (\<lambda>args.
       conv_err ParamError_from_FfiChannelError
         (FfiChannel_write_multiple_coils out (RequestParam_from_ffi param) args callback))))"

definition client_channel_write_multiple_registers ::
    "send_outcome \<Rightarrow> unit option \<Rightarrow> FfiRequestParam \<Rightarrow> u16 \<Rightarrow> RegisterList option \<Rightarrow> callback \<Rightarrow> (port, unit, ParamError) se" where
  "client_channel_write_multiple_registers out channel param start items callback =
     bnd (lift_result (not_null channel)) (\<lambda>_. bnd (lift_result (not_null items)) (\<lambda>l.
     bnd (lift_result (map_err ParamError_from_InvalidRequest (WriteMultiple_from start (fl_inner l)))) (\<lambda>args.
       conv_err ParamError_from_FfiChannelError
         (FfiChannel_write_multiple_registers out (RequestParam_from_ffi param) args callback))))"

definition client_channel_enable :: "send_outcome \<Rightarrow> unit option \<Rightarrow> (port, unit, ParamError) se" where
  "client_channel_enable out channel =
     bnd (lift_result (not_null channel)) (\<lambda>_. conv_err ParamError_from_FfiChannelError (FfiChannel_enable out))"

definition client_channel_disable :: "send_outcome \<Rightarrow> unit option \<Rightarrow> (port, unit, ParamError) se" where
  "client_channel_disable out channel =
     bnd (lift_result (not_null channel)) (\<lambda>_. conv_err ParamError_from_FfiChannelError (FfiChannel_disable out))"

definition client_channel_set_decode_level ::
    "send_outcome \<Rightarrow> unit option \<Rightarrow> FfiDecodeLevel \<Rightarrow> (port, unit, ParamError) se" where
  "client_channel_set_decode_level out channel level =
     bnd (lift_result (not_null channel)) (\<lambda>_.
       conv_err ParamError_from_FfiChannelError (FfiChannel_set_decode_level out (DecodeLevel_from_ffi level)))"

section \<open>Channels and their states\<close>

datatype HostType = Dns string | Host_IpAddr IpAddr

record HostAddr =
  ha_addr :: HostType
  ha_port :: u16

definition HostAddr_ip :: "IpAddr \<Rightarrow> u16 \<Rightarrow> HostAddr" where
  "HostAddr_ip ip port = \<lparr>ha_addr = Host_IpAddr ip, ha_port = port\<rparr>"

definition HostAddr_dns :: "string \<Rightarrow> u16 \<Rightarrow> HostAddr" where
  "HostAddr_dns nm port = \<lparr>ha_addr = Dns nm, ha_port = port\<rparr>"

text \<open>The host as a string, \<open>None\<close> if it is not UTF-8; anything that is not an address is a name.\<close>

definition get_host_addr ::
    "(string \<Rightarrow> IpAddr option) \<Rightarrow> string option \<Rightarrow> u16 \<Rightarrow> (HostAddr, ParamError) result" where
  "get_host_addr parse_ip host port = (case host of
      None \<Rightarrow> Err InvalidIpAddress
    | Some h \<Rightarrow> (case parse_ip h of
          Some x \<Rightarrow> Ok (HostAddr_ip x port)
        | None \<Rightarrow> Ok (HostAddr_dns h port)))"

record FfiRetryStrategy =
  frs_min_delay :: Duration
  frs_max_delay :: Duration

definition RetryStrategy_from_ffi :: "FfiRetryStrategy \<Rightarrow> Doubling" where
  "RetryStrategy_from_ffi x = Doubling_create (frs_min_delay x) (frs_max_delay x)"

text \<open>
  The tasks that are spawned (\<open>rodbus/src/client/mod.rs\<close>, \<open>rodbus/src/tcp/client.rs\<close> and
  \<open>rodbus/src/client/channel.rs\<close>), with the host or the port they connect to. Creating the
  queue of requests is the argument \<open>mpsc\<close>: \<open>tokio\<close> panics for a capacity of 0.
\<close>

definition create_tcp_channel ::
    "(usize \<Rightarrow> (unit, 'e) result) \<Rightarrow> HostAddr \<Rightarrow> usize \<Rightarrow> 'r \<Rightarrow> DecodeLevel \<Rightarrow> (HostAddr \<times> 'r TcpChannelTask, 'e) result" where
  "create_tcp_channel mpsc host max_queued_requests connect_retry decode =
     bind_result (mpsc max_queued_requests) (\<lambda>_. Ok (host, TcpChannelTask_new connect_retry decode))"

definition spawn_tcp_channel ::
    "(usize \<Rightarrow> (unit, 'e) result) \<Rightarrow> HostAddr \<Rightarrow> usize \<Rightarrow> 'r \<Rightarrow> DecodeLevel \<Rightarrow> (HostAddr \<times> 'r TcpChannelTask, 'e) result" where
  "spawn_tcp_channel mpsc host max_queued_requests connect_retry decode =
     create_tcp_channel mpsc host max_queued_requests connect_retry decode"

definition spawn_tcp_client_task ::
    "(usize \<Rightarrow> (unit, 'e) result) \<Rightarrow> HostAddr \<Rightarrow> usize \<Rightarrow> 'r \<Rightarrow> DecodeLevel \<Rightarrow> (HostAddr \<times> 'r TcpChannelTask, 'e) result" where
  "spawn_tcp_client_task mpsc host max_queued_requests retry decode =
     spawn_tcp_channel mpsc host max_queued_requests retry decode"

definition create_rtu_handle_and_task ::
    "(usize \<Rightarrow> (unit, 'e) result) \<Rightarrow> string \<Rightarrow> SerialSettings \<Rightarrow> usize \<Rightarrow> 'r \<Rightarrow> DecodeLevel \<Rightarrow>
     (string \<times> SerialSettings \<times> 'r SerialChannelTask, 'e) result" where
  "create_rtu_handle_and_task mpsc path serial_settings max_queued_requests retry decode =
     bind_result (mpsc max_queued_requests) (\<lambda>_. Ok (path, serial_settings, SerialChannelTask_new retry decode))"

definition Channel_spawn_rtu ::
    "(usize \<Rightarrow> (unit, 'e) result) \<Rightarrow> string \<Rightarrow> SerialSettings \<Rightarrow> usize \<Rightarrow> 'r \<Rightarrow> DecodeLevel \<Rightarrow>
     (string \<times> SerialSettings \<times> 'r SerialChannelTask, 'e) result" where
  "Channel_spawn_rtu mpsc path serial_settings max_queued_requests retry decode =
     create_rtu_handle_and_task mpsc path serial_settings max_queued_requests retry decode"

definition spawn_rtu_client_task ::
    "(usize \<Rightarrow> (unit, 'e) result) \<Rightarrow> string \<Rightarrow> SerialSettings \<Rightarrow> usize \<Rightarrow> 'r \<Rightarrow> DecodeLevel \<Rightarrow>
     (string \<times> SerialSettings \<times> 'r SerialChannelTask, 'e) result" where
  "spawn_rtu_client_task mpsc path serial_settings max_queued_requests retry decode =
     Channel_spawn_rtu mpsc path serial_settings max_queued_requests retry decode"

definition client_channel_create_tcp ::
    "(usize \<Rightarrow> (unit, ParamError) result) \<Rightarrow> (string \<Rightarrow> IpAddr option) \<Rightarrow> unit option \<Rightarrow> string option \<Rightarrow> u16 \<Rightarrow> u16 \<Rightarrow>
     FfiRetryStrategy \<Rightarrow> FfiDecodeLevel \<Rightarrow> (HostAddr \<times> Doubling TcpChannelTask, ParamError) result" where
  "client_channel_create_tcp mpsc parse_ip runtime host port max_queued_requests retry decode_level =
     bind_result (not_null runtime) (\<lambda>_. bind_result (get_host_addr parse_ip host port) (\<lambda>addr.
       spawn_tcp_client_task mpsc addr (unat max_queued_requests) (RetryStrategy_from_ffi retry)
         (DecodeLevel_from_ffi decode_level)))"

definition client_channel_create_rtu ::
    "(usize \<Rightarrow> (unit, ParamError) result) \<Rightarrow> unit option \<Rightarrow> string \<Rightarrow> SerialPortSettings \<Rightarrow> u16 \<Rightarrow> FfiRetryStrategy \<Rightarrow>
     FfiDecodeLevel \<Rightarrow> (string \<times> SerialSettings \<times> Doubling SerialChannelTask, ParamError) result" where
  "client_channel_create_rtu mpsc runtime path serial_params max_queued_requests retry decode_level =
     bind_result (not_null runtime) (\<lambda>_.
       spawn_rtu_client_task mpsc path (SerialSettings_from_ffi serial_params) (unat max_queued_requests)
         (RetryStrategy_from_ffi retry) (DecodeLevel_from_ffi decode_level))"

lemmas spawn_defs = spawn_tcp_client_task_def spawn_tcp_channel_def create_tcp_channel_def
  spawn_rtu_client_task_def Channel_spawn_rtu_def create_rtu_handle_and_task_def

text \<open>
  A queue of no requests: with the documented behaviour of \<open>tokio\<close> the call from C panics, where
  every other bad argument is reported as an error.
\<close>

lemma empty_queue_panics:
  assumes "mpsc 0 = Panic" and "get_host_addr parse_ip host port = Ok addr"
  shows "client_channel_create_tcp mpsc parse_ip (Some ()) host port 0 retry level = Panic"
    and "client_channel_create_rtu mpsc (Some ()) path settings 0 retry level = Panic"
  using assms by (simp_all add: client_channel_create_tcp_def client_channel_create_rtu_def spawn_defs not_null_def)

datatype FfiClientState =
    FfiCS_Disabled | FfiCS_Connecting | FfiCS_Connected | FfiCS_WaitAfterFailedConnect | FfiCS_WaitAfterDisconnect
  | FfiCS_Shutdown

fun FfiClientState_from :: "ClientState \<Rightarrow> FfiClientState" where
  "FfiClientState_from CS_Disabled = FfiCS_Disabled"
| "FfiClientState_from CS_Connecting = FfiCS_Connecting"
| "FfiClientState_from CS_Connected = FfiCS_Connected"
| "FfiClientState_from (CS_WaitAfterFailedConnect _) = FfiCS_WaitAfterFailedConnect"
| "FfiClientState_from (CS_WaitAfterDisconnect _) = FfiCS_WaitAfterDisconnect"
| "FfiClientState_from CS_Shutdown = FfiCS_Shutdown"

datatype FfiPortState = FfiPS_Disabled | FfiPS_Wait | FfiPS_Open | FfiPS_Shutdown

fun FfiPortState_from :: "PortState \<Rightarrow> FfiPortState" where
  "FfiPortState_from PS_Disabled = FfiPS_Disabled"
| "FfiPortState_from (PS_Wait _) = FfiPS_Wait"
| "FfiPortState_from PS_Open = FfiPS_Open"
| "FfiPortState_from PS_Shutdown = FfiPS_Shutdown"

section \<open>What a call does with its callback\<close>

datatype ffi_call =
    Ffi_ReadCoils AddressRange
  | Ffi_ReadDiscreteInputs AddressRange
  | Ffi_ReadHoldingRegisters AddressRange
  | Ffi_ReadInputRegisters AddressRange
  | Ffi_WriteSingleCoil "bool Indexed"
  | Ffi_WriteSingleRegister "u16 Indexed"
  | Ffi_WriteMultipleCoils u16 "BitList option"
  | Ffi_WriteMultipleRegisters u16 "RegisterList option"

fun client_channel_call ::
    "drop_promise \<Rightarrow> send_outcome \<Rightarrow> unit option \<Rightarrow> FfiRequestParam \<Rightarrow> ffi_call \<Rightarrow> callback \<Rightarrow> (port, unit, ParamError) se" where
  "client_channel_call dropped out ch p (Ffi_ReadCoils r) cb = client_channel_read_coils dropped out ch p r cb"
| "client_channel_call dropped out ch p (Ffi_ReadDiscreteInputs r) cb =
     client_channel_read_discrete_inputs dropped out ch p r cb"
| "client_channel_call dropped out ch p (Ffi_ReadHoldingRegisters r) cb = client_channel_read_holding_registers out ch p r cb"
| "client_channel_call dropped out ch p (Ffi_ReadInputRegisters r) cb = client_channel_read_input_registers out ch p r cb"
| "client_channel_call dropped out ch p (Ffi_WriteSingleCoil x) cb = client_channel_write_single_coil out ch p x cb"
| "client_channel_call dropped out ch p (Ffi_WriteSingleRegister x) cb = client_channel_write_single_register out ch p x cb"
| "client_channel_call dropped out ch p (Ffi_WriteMultipleCoils i xs) cb =
     client_channel_write_multiple_coils out ch p i xs cb"
| "client_channel_call dropped out ch p (Ffi_WriteMultipleRegisters i xs) cb =
     client_channel_write_multiple_registers out ch p i xs cb"

text \<open>The checks before the callback is wrapped, and the call that passes them.\<close>

definition checked_range :: "(AddressRange \<Rightarrow> api_call) \<Rightarrow> AddressRange \<Rightarrow> (api_call, ParamError) result" where
  "checked_range c r = (if valid_range r then Ok (c r) else Err Param_InvalidRange)"

definition checked_values :: "('v WriteMultiple \<Rightarrow> api_call) \<Rightarrow> u16 \<Rightarrow> 'v FfiList option \<Rightarrow> (api_call, ParamError) result" where
  "checked_values c start xs = (case xs of
      None \<Rightarrow> Err NullParameter
    | Some l \<Rightarrow> (case WriteMultiple_from start (fl_inner l) of
          Ok wm \<Rightarrow> Ok (c wm) | Err _ \<Rightarrow> Err Param_InvalidRequest | Panic \<Rightarrow> Panic))"

fun checked_call :: "ffi_call \<Rightarrow> (api_call, ParamError) result" where
  "checked_call (Ffi_ReadCoils r) = checked_range Call_ReadCoils r"
| "checked_call (Ffi_ReadDiscreteInputs r) = checked_range Call_ReadDiscreteInputs r"
| "checked_call (Ffi_ReadHoldingRegisters r) = checked_range Call_ReadHoldingRegisters r"
| "checked_call (Ffi_ReadInputRegisters r) = checked_range Call_ReadInputRegisters r"
| "checked_call (Ffi_WriteSingleCoil x) = Ok (Call_WriteSingleCoil x)"
| "checked_call (Ffi_WriteSingleRegister x) = Ok (Call_WriteSingleRegister x)"
| "checked_call (Ffi_WriteMultipleCoils i xs) = checked_values Call_WriteMultipleCoils i xs"
| "checked_call (Ffi_WriteMultipleRegisters i xs) = checked_values Call_WriteMultipleRegisters i xs"

lemma try_from_checked:
  "map_err ParamError_from_InvalidRange (AddressRange_try_from (ar_start r) (ar_count r)) =
     (if valid_range r then Ok r else Err Param_InvalidRange)"
  by (auto simp: AddressRange_try_from_eq valid_range_def unat_gt_0 conv_defs)

lemma checked_call_ok:
  assumes "checked_call c = Ok call"
  shows "call_args_ok call"
  using assms
  by (cases c) (auto simp: checked_range_def checked_values_def split: if_splits option.splits result.splits
      dest: WriteMultiple_from_ok)

lemma WriteMultiple_from_total: "WriteMultiple_from start xs \<noteq> Panic"
  by (auto simp: WriteMultiple_from_def u16_try_from_def AddressRange_try_from_eq bind_result_case split: result.splits)

lemma checked_call_total: "checked_call c \<noteq> Panic"
  by (cases c) (auto simp: checked_range_def checked_values_def WriteMultiple_from_total split: option.splits result.splits)

fun reads_bits :: "api_call \<Rightarrow> bool" where
  "reads_bits (Call_ReadCoils _) = True"
| "reads_bits (Call_ReadDiscreteInputs _) = True"
| "reads_bits _ = False"

lemmas client_channel_defs = client_channel_read_coils_def client_channel_read_discrete_inputs_def
  client_channel_read_holding_registers_def client_channel_read_input_registers_def
  client_channel_write_single_coil_def client_channel_write_single_register_def
  client_channel_write_multiple_coils_def client_channel_write_multiple_registers_def

text \<open>Every call of the bindings is its checks followed by the call of the channel.\<close>

lemma client_channel_call_eq:
  "client_channel_call dropped out (Some x) p c cb s = (case checked_call c of
      Err e \<Rightarrow> (Err e, s)
    | Panic \<Rightarrow> (Panic, s)
    | Ok call \<Rightarrow> conv_err ParamError_from_FfiChannelError
        ((if reads_bits call then drop_unused dropped cb else (\<lambda>m. m))
          (FfiChannel_call out (RequestParam_from_ffi p) call cb)) s)"
  by (cases c) (auto simp: client_channel_defs try_from_checked not_null_def checked_range_def checked_values_def
      lift_result_def bnd_def conv_defs split: option.splits result.splits)

lemma client_channel_call_null: "client_channel_call dropped out None p c cb s = (Err NullParameter, s)"
  by (cases c) (simp_all add: client_channel_defs not_null_def lift_result_def bnd_def)

text \<open>
  C25: The callback of a call through the C bindings is settled on every branch. If an argument
  is refused before the callback is wrapped, the call reports it and the callback never runs. If the
  range is too large, or the channel is full or closed, the call reports that and the callback has
  run exactly once, with \<open>Shutdown\<close>. Otherwise the call succeeds and exactly one request is
  queued, which holds the callback and is the one the server is meant to see.
\<close>

theorem ffi_call_settles_callback:
  assumes "completes_on_drop dropped" and "client_channel_call dropped out (Some x) p c cb s = (r, s')"
  shows "case checked_call c of
      Err e \<Rightarrow> r = Err e \<and> s' = s
    | Panic \<Rightarrow> False
    | Ok call \<Rightarrow>
        if is_Err (call_range call) then r = Err Param_InvalidRange \<and> refuses cb RequestShutdown s s'
        else (case out of
            Sent \<Rightarrow> r = Ok () \<and> accepts (call_details call) cb s s'
          | Full \<Rightarrow> r = Err TooManyRequests \<and> refuses cb RequestShutdown s s'
          | Closed \<Rightarrow> r = Err Param_Shutdown \<and> refuses cb RequestShutdown s s')"
proof (cases "checked_call c")
  case (Ok call)
  obtain r1 s1 where f: "FfiChannel_call out (RequestParam_from_ffi p) call cb s = (r1, s1)" by (meson surj_pair)
  note res = FfiChannel_call_result [OF checked_call_ok [OF Ok] f]
  have not_both: "reads_registers call \<Longrightarrow> \<not> reads_bits call" by (cases call) simp_all
  have range: "is_Err (call_range call) \<Longrightarrow> reads_registers call \<or> reads_bits call" by (cases call) simp_all
  show ?thesis
    using Ok assms(2) f res not_both range assms(1)
    by (cases "call_range call"; cases out)
      (auto simp: client_channel_call_eq conv_err_def drop_unused_def completes_on_drop_def refuses_def
        ReadCallback_on_drop_def conv_defs split: if_splits)
next
  case (Err e)
  then show ?thesis using assms(2) by (simp add: client_channel_call_eq)
qed (simp add: checked_call_total)

theorem ffi_call_settles_callback_witness:
  "\<exists>s'. client_channel_call (\<lambda>r cb log. log @ [(cb, r)]) Sent (Some ()) \<lparr>frp_unit_id = 1, frp_timeout = 1000\<rparr>
      (Ffi_ReadCoils \<lparr>ar_start = 0, ar_count = 2001\<rparr>) 7 \<lparr>po_queue = [], po_log = []\<rparr> = (Err Param_InvalidRange, s') \<and>
    refuses 7 RequestShutdown \<lparr>po_queue = [], po_log = []\<rparr> s'"
proof -
  let ?c = "Ffi_ReadCoils \<lparr>ar_start = 0, ar_count = 2001\<rparr>"
  obtain r s' where run: "client_channel_call (\<lambda>r cb log. log @ [(cb, r)]) Sent (Some ())
      \<lparr>frp_unit_id = 1, frp_timeout = 1000\<rparr> ?c 7 \<lparr>po_queue = [], po_log = []\<rparr> = (r, s')" by (meson surj_pair)
  have d: "completes_on_drop (\<lambda>r cb log. log @ [(cb, r)])" by (simp add: completes_on_drop_def)
  have "checked_call ?c = Ok (Call_ReadCoils \<lparr>ar_start = 0, ar_count = 2001\<rparr>)"
    "is_Err (call_range (Call_ReadCoils \<lparr>ar_start = 0, ar_count = 2001\<rparr>))"
    by (simp_all add: checked_range_def valid_range_def AddressRange_of_read_bits_def AddressRange_limited_count_def
        MAX_READ_COILS_COUNT_def)
  then show ?thesis using ffi_call_settles_callback [OF d run] run by simp
qed

end
