(* ===== verification/FfiDatabase.thy ===== *)
theory FfiDatabase
  imports FfiTypes
begin

text \<open>
  The database of points behind a server of the C bindings, \<open>ffi/rodbus-ffi/src/database.rs\<close>:
  four hash maps from 16-bit indices to values. The interface of one table is the locale
  \<open>point_table\<close>, interpreted for each of the four; its client runs a sequence of calls and
  compares it with the same sequence on a map.
\<close>

section \<open>Entries of a hash map\<close>

definition add_entry :: "(u16 \<rightharpoonup> 'v) \<Rightarrow> u16 \<Rightarrow> 'v \<Rightarrow> bool \<times> (u16 \<rightharpoonup> 'v)" where
  "add_entry m index value = (case m index of
      None \<Rightarrow> (True, m(index \<mapsto> value))
    | Some _ \<Rightarrow> (False, m))"

definition get_entry :: "(u16 \<rightharpoonup> 'v) \<Rightarrow> u16 \<Rightarrow> ('v, ParamError) result" where
  "get_entry m index = (case m index of Some v \<Rightarrow> Ok v | None \<Rightarrow> Err InvalidIndex)"

definition update_entry :: "(u16 \<rightharpoonup> 'v) \<Rightarrow> u16 \<Rightarrow> 'v \<Rightarrow> bool \<times> (u16 \<rightharpoonup> 'v)" where
  "update_entry m index value = (case m index of
      Some _ \<Rightarrow> (True, m(index \<mapsto> value))
    | None \<Rightarrow> (False, m))"

text \<open>\<open>remove(&index).is_some()\<close>\<close>

definition remove_entry :: "(u16 \<rightharpoonup> 'v) \<Rightarrow> u16 \<Rightarrow> bool \<times> (u16 \<rightharpoonup> 'v)" where
  "remove_entry m index = (m index \<noteq> None, m(index := None))"

section \<open>The database\<close>

record Database =
  db_coils :: "u16 \<rightharpoonup> bool"
  db_discrete_input :: "u16 \<rightharpoonup> bool"
  db_holding_registers :: "u16 \<rightharpoonup> u16"
  db_input_registers :: "u16 \<rightharpoonup> u16"

definition Database_new :: Database where
  "Database_new = \<lparr>db_coils = Map.empty, db_discrete_input = Map.empty,
     db_holding_registers = Map.empty, db_input_registers = Map.empty\<rparr>"

definition database_add_coil :: "Database option \<Rightarrow> u16 \<Rightarrow> bool \<Rightarrow> bool \<times> Database option" where
  "database_add_coil database index value =
     (case database of None \<Rightarrow> (False, None)
      | Some d \<Rightarrow> (case add_entry (db_coils d) index value of (ok, m) \<Rightarrow> (ok, Some (d\<lparr>db_coils := m\<rparr>))))"

definition database_add_discrete_input :: "Database option \<Rightarrow> u16 \<Rightarrow> bool \<Rightarrow> bool \<times> Database option" where
  "database_add_discrete_input database index value =
     (case database of None \<Rightarrow> (False, None)
      | Some d \<Rightarrow> (case add_entry (db_discrete_input d) index value of (ok, m) \<Rightarrow> (ok, Some (d\<lparr>db_discrete_input := m\<rparr>))))"

definition database_add_holding_register :: "Database option \<Rightarrow> u16 \<Rightarrow> u16 \<Rightarrow> bool \<times> Database option" where
  "database_add_holding_register database index value =
     (case database of None \<Rightarrow> (False, None)
      | Some d \<Rightarrow> (case add_entry (db_holding_registers d) index value of (ok, m) \<Rightarrow> (ok, Some (d\<lparr>db_holding_registers := m\<rparr>))))"

definition database_add_input_register :: "Database option \<Rightarrow> u16 \<Rightarrow> u16 \<Rightarrow> bool \<times> Database option" where
  "database_add_input_register database index value =
     (case database of None \<Rightarrow> (False, None)
      | Some d \<Rightarrow> (case add_entry (db_input_registers d) index value of (ok, m) \<Rightarrow> (ok, Some (d\<lparr>db_input_registers := m\<rparr>))))"

definition database_get_coil :: "Database option \<Rightarrow> u16 \<Rightarrow> (bool, ParamError) result" where
  "database_get_coil database index =
     (case database of None \<Rightarrow> Err NullParameter | Some d \<Rightarrow> get_entry (db_coils d) index)"

definition database_get_discrete_input :: "Database option \<Rightarrow> u16 \<Rightarrow> (bool, ParamError) result" where
  "database_get_discrete_input database index =
     (case database of None \<Rightarrow> Err NullParameter | Some d \<Rightarrow> get_entry (db_discrete_input d) index)"

definition database_get_holding_register :: "Database option \<Rightarrow> u16 \<Rightarrow> (u16, ParamError) result" where
  "database_get_holding_register database index =
     (case database of None \<Rightarrow> Err NullParameter | Some d \<Rightarrow> get_entry (db_holding_registers d) index)"

definition database_get_input_register :: "Database option \<Rightarrow> u16 \<Rightarrow> (u16, ParamError) result" where
  "database_get_input_register database index =
     (case database of None \<Rightarrow> Err NullParameter | Some d \<Rightarrow> get_entry (db_input_registers d) index)"

definition database_update_coil :: "Database option \<Rightarrow> u16 \<Rightarrow> bool \<Rightarrow> bool \<times> Database option" where
  "database_update_coil database index value =
     (case database of None \<Rightarrow> (False, None)
      | Some d \<Rightarrow> (case update_entry (db_coils d) index value of (ok, m) \<Rightarrow> (ok, Some (d\<lparr>db_coils := m\<rparr>))))"

definition database_update_discrete_input :: "Database option \<Rightarrow> u16 \<Rightarrow> bool \<Rightarrow> bool \<times> Database option" where
  "database_update_discrete_input database index value =
     (case database of None \<Rightarrow> (False, None)
      | Some d \<Rightarrow> (case update_entry (db_discrete_input d) index value of (ok, m) \<Rightarrow> (ok, Some (d\<lparr>db_discrete_input := m\<rparr>))))"

definition database_update_holding_register :: "Database option \<Rightarrow> u16 \<Rightarrow> u16 \<Rightarrow> bool \<times> Database option" where
  "database_update_holding_register database index value =
     (case database of None \<Rightarrow> (False, None)
      | Some d \<Rightarrow> (case update_entry (db_holding_registers d) index value of (ok, m) \<Rightarrow> (ok, Some (d\<lparr>db_holding_registers := m\<rparr>))))"

definition database_update_input_register :: "Database option \<Rightarrow> u16 \<Rightarrow> u16 \<Rightarrow> bool \<times> Database option" where
  "database_update_input_register database index value =
     (case database of None \<Rightarrow> (False, None)
      | Some d \<Rightarrow> (case update_entry (db_input_registers d) index value of (ok, m) \<Rightarrow> (ok, Some (d\<lparr>db_input_registers := m\<rparr>))))"

definition database_delete_coil :: "Database option \<Rightarrow> u16 \<Rightarrow> bool \<times> Database option" where
  "database_delete_coil database index =
     (case database of None \<Rightarrow> (False, None)
      | Some d \<Rightarrow> (case remove_entry (db_coils d) index of (ok, m) \<Rightarrow> (ok, Some (d\<lparr>db_coils := m\<rparr>))))"

definition database_delete_discrete_input :: "Database option \<Rightarrow> u16 \<Rightarrow> bool \<times> Database option" where
  "database_delete_discrete_input database index =
     (case database of None \<Rightarrow> (False, None)
      | Some d \<Rightarrow> (case remove_entry (db_discrete_input d) index of (ok, m) \<Rightarrow> (ok, Some (d\<lparr>db_discrete_input := m\<rparr>))))"

definition database_delete_holding_register :: "Database option \<Rightarrow> u16 \<Rightarrow> bool \<times> Database option" where
  "database_delete_holding_register database index =
     (case database of None \<Rightarrow> (False, None)
      | Some d \<Rightarrow> (case remove_entry (db_holding_registers d) index of (ok, m) \<Rightarrow> (ok, Some (d\<lparr>db_holding_registers := m\<rparr>))))"

definition database_delete_input_register :: "Database option \<Rightarrow> u16 \<Rightarrow> bool \<times> Database option" where
  "database_delete_input_register database index =
     (case database of None \<Rightarrow> (False, None)
      | Some d \<Rightarrow> (case remove_entry (db_input_registers d) index of (ok, m) \<Rightarrow> (ok, Some (d\<lparr>db_input_registers := m\<rparr>))))"

section \<open>Sequences of calls\<close>

datatype 'v db_op = Db_Add u16 'v | Db_Get u16 | Db_Update u16 'v | Db_Delete u16

datatype 'v db_result = Db_Flag bool | Db_Value "('v, ParamError) result"

text \<open>A sequence of calls on one table of a database.\<close>

fun run_ops ::
    "('d option \<Rightarrow> u16 \<Rightarrow> 'v \<Rightarrow> bool \<times> 'd option) \<Rightarrow> ('d option \<Rightarrow> u16 \<Rightarrow> ('v, ParamError) result) \<Rightarrow>
     ('d option \<Rightarrow> u16 \<Rightarrow> 'v \<Rightarrow> bool \<times> 'd option) \<Rightarrow> ('d option \<Rightarrow> u16 \<Rightarrow> bool \<times> 'd option) \<Rightarrow>
     'v db_op list \<Rightarrow> 'd option \<Rightarrow> 'v db_result list \<times> 'd option" where
  "run_ops add get update delete [] d = ([], d)"
| "run_ops add get update delete (x # xs) d =
     (let (r, d') = (case x of
          Db_Add i v \<Rightarrow> (case add d i v of (b, d') \<Rightarrow> (Db_Flag b, d'))
        | Db_Get i \<Rightarrow> (Db_Value (get d i), d)
        | Db_Update i v \<Rightarrow> (case update d i v of (b, d') \<Rightarrow> (Db_Flag b, d'))
        | Db_Delete i \<Rightarrow> (case delete d i of (b, d') \<Rightarrow> (Db_Flag b, d')));
          (rs, d'') = run_ops add get update delete xs d'
      in (r # rs, d''))"

text \<open>
  What the sequence means: adding is refused when the index is present, updating when it is
  absent, and deleting reports whether there was a point.
\<close>

fun map_ops :: "'v db_op list \<Rightarrow> (u16 \<rightharpoonup> 'v) \<Rightarrow> 'v db_result list \<times> (u16 \<rightharpoonup> 'v)" where
  "map_ops [] m = ([], m)"
| "map_ops (Db_Add i v # xs) m = (if i \<in> dom m
     then (case map_ops xs m of (rs, m') \<Rightarrow> (Db_Flag False # rs, m'))
     else (case map_ops xs (m(i \<mapsto> v)) of (rs, m') \<Rightarrow> (Db_Flag True # rs, m')))"
| "map_ops (Db_Get i # xs) m = (case map_ops xs m of (rs, m') \<Rightarrow>
     (Db_Value (if i \<in> dom m then Ok (the (m i)) else Err InvalidIndex) # rs, m'))"
| "map_ops (Db_Update i v # xs) m = (if i \<in> dom m
     then (case map_ops xs (m(i \<mapsto> v)) of (rs, m') \<Rightarrow> (Db_Flag True # rs, m'))
     else (case map_ops xs m of (rs, m') \<Rightarrow> (Db_Flag False # rs, m')))"
| "map_ops (Db_Delete i # xs) m = (case map_ops xs (m |` (- {i})) of (rs, m') \<Rightarrow>
     (Db_Flag (i \<in> dom m) # rs, m'))"

locale point_table =
  fixes table :: "'d \<Rightarrow> u16 \<rightharpoonup> 'v"
    and with_table :: "(u16 \<rightharpoonup> 'v) \<Rightarrow> 'd \<Rightarrow> 'd"
    and add :: "'d option \<Rightarrow> u16 \<Rightarrow> 'v \<Rightarrow> bool \<times> 'd option"
    and get :: "'d option \<Rightarrow> u16 \<Rightarrow> ('v, ParamError) result"
    and update :: "'d option \<Rightarrow> u16 \<Rightarrow> 'v \<Rightarrow> bool \<times> 'd option"
    and delete :: "'d option \<Rightarrow> u16 \<Rightarrow> bool \<times> 'd option"
  assumes table_with: "table (with_table m d) = m"
    and with_with: "with_table m (with_table m' d) = with_table m d"
    and with_same: "with_table (table d) d = d"
    and add_some: "add (Some d) i v =
      (if table d i = None then (True, Some (with_table ((table d)(i \<mapsto> v)) d)) else (False, Some d))"
    and get_some: "get (Some d) i = (case table d i of Some v \<Rightarrow> Ok v | None \<Rightarrow> Err InvalidIndex)"
    and update_some: "update (Some d) i v =
      (if table d i = None then (False, Some d) else (True, Some (with_table ((table d)(i \<mapsto> v)) d)))"
    and delete_some: "delete (Some d) i = (table d i \<noteq> None, Some (with_table ((table d)(i := None)) d))"
    and nulls: "fst (add None i v) = False" "snd (add None i v) = None" "get None i = Err NullParameter"
      "fst (update None i v) = False" "snd (update None i v) = None"
      "fst (delete None i) = False" "snd (delete None i) = None"
begin

lemma run_ops_map:
  "run_ops add get update delete ops (Some d) =
     (case map_ops ops (table d) of (rs, m) \<Rightarrow> (rs, Some (with_table m d)))"
proof (induction ops arbitrary: d)
  case (Cons x xs)
  have restrict: "m |` (- {i}) = m(i := None)" for m :: "u16 \<rightharpoonup> 'v" and i
    by (auto simp: restrict_map_def fun_eq_iff)
  show ?case
  proof (cases x)
    case (Db_Add i v)
    then show ?thesis
      by (cases "table d i") (auto simp: Cons.IH add_some table_with with_with domIff fun_upd_def split: prod.splits)
  next
    case (Db_Get i)
    then show ?thesis by (cases "table d i") (auto simp: Cons.IH get_some domIff split: prod.splits)
  next
    case (Db_Update i v)
    then show ?thesis
      by (cases "table d i") (auto simp: Cons.IH update_some table_with with_with domIff fun_upd_def split: prod.splits)
  next
    case (Db_Delete i)
    then show ?thesis
      by (auto simp: Cons.IH delete_some table_with with_with domIff fun_upd_def restrict split: prod.splits)
  qed
qed (simp add: with_same)

end

interpretation coils: point_table db_coils "\<lambda>m. db_coils_update (\<lambda>_. m)"
  database_add_coil database_get_coil database_update_coil database_delete_coil
  by unfold_locales
    (auto simp: database_add_coil_def database_get_coil_def database_update_coil_def database_delete_coil_def
      add_entry_def get_entry_def update_entry_def remove_entry_def split: option.splits)

interpretation discrete: point_table db_discrete_input "\<lambda>m. db_discrete_input_update (\<lambda>_. m)"
  database_add_discrete_input database_get_discrete_input database_update_discrete_input database_delete_discrete_input
  by unfold_locales
    (auto simp: database_add_discrete_input_def database_get_discrete_input_def database_update_discrete_input_def database_delete_discrete_input_def
      add_entry_def get_entry_def update_entry_def remove_entry_def split: option.splits)

interpretation holding: point_table db_holding_registers "\<lambda>m. db_holding_registers_update (\<lambda>_. m)"
  database_add_holding_register database_get_holding_register database_update_holding_register database_delete_holding_register
  by unfold_locales
    (auto simp: database_add_holding_register_def database_get_holding_register_def database_update_holding_register_def database_delete_holding_register_def
      add_entry_def get_entry_def update_entry_def remove_entry_def split: option.splits)

interpretation inputs: point_table db_input_registers "\<lambda>m. db_input_registers_update (\<lambda>_. m)"
  database_add_input_register database_get_input_register database_update_input_register database_delete_input_register
  by unfold_locales
    (auto simp: database_add_input_register_def database_get_input_register_def database_update_input_register_def database_delete_input_register_def
      add_entry_def get_entry_def update_entry_def remove_entry_def split: option.splits)

text \<open>
  C35: Each of the four tables of a database behaves as a map of its own. Whatever sequence of
  add, get, update and delete calls is made on one table, every call returns what the same
  sequence on a map gives, the table ends with the contents of that map, and the other three tables
  are as they were. Add returns whether the point is new; update and delete return whether it existed, for delete
  against the schema, which documents the result of add.
\<close>

theorem database_tables_are_maps:
  "run_ops database_add_coil database_get_coil database_update_coil database_delete_coil cs (Some d) =
     (case map_ops cs (db_coils d) of (rs, m) \<Rightarrow> (rs, Some (d\<lparr>db_coils := m\<rparr>))) \<and>
   run_ops database_add_discrete_input database_get_discrete_input database_update_discrete_input
       database_delete_discrete_input cs (Some d) =
     (case map_ops cs (db_discrete_input d) of (rs, m) \<Rightarrow> (rs, Some (d\<lparr>db_discrete_input := m\<rparr>))) \<and>
   run_ops database_add_holding_register database_get_holding_register database_update_holding_register
       database_delete_holding_register ws (Some d) =
     (case map_ops ws (db_holding_registers d) of (rs, m) \<Rightarrow> (rs, Some (d\<lparr>db_holding_registers := m\<rparr>))) \<and>
   run_ops database_add_input_register database_get_input_register database_update_input_register
       database_delete_input_register ws (Some d) =
     (case map_ops ws (db_input_registers d) of (rs, m) \<Rightarrow> (rs, Some (d\<lparr>db_input_registers := m\<rparr>)))"
  by (intro conjI coils.run_ops_map discrete.run_ops_map holding.run_ops_map inputs.run_ops_map)

end
