(* ===== verification/TcpServer.thy ===== *)
theory TcpServer
  imports ServerTask AddressFilter
begin

text \<open>
  The TCP server, \<open>rodbus/src/tcp/server.rs\<close>: the tracker of live sessions and the task that
  accepts connections. A channel to a session is named by a number; the settings sent into the
  channels and the sessions spawned are recorded in order. Removing a session's sender closes its
  channel, which ends the session.
\<close>

type_synonym u128 = "128 word"

section \<open>The session tracker\<close>

type_synonym setting_sender = nat

record SessionTracker =
  tk_max_sessions :: usize
  tk_id :: u128
  tk_sessions :: "(u128, setting_sender) btree_map"

definition SessionTracker_new :: "usize \<Rightarrow> SessionTracker" where
  "SessionTracker_new max_sessions =
     (let max_sessions = (if max_sessions = 0 then 1 else max_sessions) in
      \<lparr>tk_max_sessions = max_sessions, tk_id = 0, tk_sessions = []\<rparr>)"

text \<open>\<open>self.id += 1\<close> panics at \<open>u128::MAX\<close> with overflow checks.\<close>

definition SessionTracker_get_next_id ::
    "('r, 'w, 'd, 'io) platform \<Rightarrow> (SessionTracker, u128, unit) se" where
  "SessionTracker_get_next_id P t =
     (let ret = tk_id t in
      if overflow_checks P \<and> tk_id t = - 1 then (Panic, t)
      else (Ok ret, t\<lparr>tk_id := tk_id t + 1\<rparr>))"

definition SessionTracker_add ::
    "('r, 'w, 'd, 'io) platform \<Rightarrow> setting_sender \<Rightarrow> (SessionTracker, u128, unit) se" where
  "SessionTracker_add P sender t =
     (let t1 = (if length (tk_sessions t) \<ge> tk_max_sessions t
                then (case bt_keys (tk_sessions t) of
                        oldest # _ \<Rightarrow> t\<lparr>tk_sessions := snd (bt_remove oldest (tk_sessions t))\<rparr>
                      | [] \<Rightarrow> t)
                else t)
      in bnd (SessionTracker_get_next_id P) (\<lambda>i t2.
           (Ok i, t2\<lparr>tk_sessions := snd (bt_insert i sender (tk_sessions t2))\<rparr>)) t1)"

definition SessionTracker_remove :: "u128 \<Rightarrow> SessionTracker \<Rightarrow> SessionTracker" where
  "SessionTracker_remove i t = t\<lparr>tk_sessions := snd (bt_remove i (tk_sessions t))\<rparr>"

section \<open>Connections\<close>

text \<open>
  A TLS connection after the handshake (\<open>rodbus/src/tcp/tls/server.rs\<close>): the handshake
  itself and the parsing of certificates belong to other libraries, so their results are
  arguments. With an authorization handler, the client's certificate must hold exactly one role.
\<close>

datatype SpecificExtension = ModbusRole string | OtherExtension

record Certificate =
  ct_extensions :: "(SpecificExtension list, string) result option"

fun extension_role :: "SpecificExtension \<Rightarrow> string option" where
  "extension_role (ModbusRole role) = Some role"
| "extension_role _ = None"

definition extract_modbus_role :: "Certificate \<Rightarrow> (string, string) result" where
  "extract_modbus_role cert = (case ct_extensions cert of
      None \<Rightarrow> Err ''certificate doesn't contain Modbus role extension''
    | Some (Err err) \<Rightarrow> Err (''unable to parse cert extensions with rasn: '' @ err)
    | Some Panic \<Rightarrow> Panic
    | Some (Ok extensions) \<Rightarrow> (case List.map_filter extension_role extensions of
          [] \<Rightarrow> Err ''certificate doesn't have Modbus extension''
        | role # rest \<Rightarrow>
            if rest \<noteq> [] then Err ''certificate has more than one Modbus extension'' else Ok role))"

record ('io, 'c) tls_stream =
  ts_layer :: 'io
  ts_peer_certificates :: "'c list option"

definition TlsServerConfig_handle_connection ::
    "('c \<Rightarrow> (Certificate, string) result) \<Rightarrow> (('io, 'c) tls_stream, string) result \<Rightarrow>
     AuthorizationHandler option \<Rightarrow> ('io \<times> AuthorizationType, string) result" where
  "TlsServerConfig_handle_connection parse accepted auth_handler = (case accepted of
      Err err \<Rightarrow> Err (''failed to establish TLS session: '' @ err)
    | Panic \<Rightarrow> Panic
    | Ok stream \<Rightarrow>
        bind_result
          (case auth_handler of
             None \<Rightarrow> Ok Auth_None
           | Some handler \<Rightarrow> (case ts_peer_certificates stream of
                 Some (peer_cert # _) \<Rightarrow>
                   bind_result (map_err (\<lambda>err. ''ASNError: '' @ err) (parse peer_cert)) (\<lambda>parsed.
                     bind_result (extract_modbus_role parsed) (\<lambda>role. Ok (Auth_Handler handler role)))
               | _ \<Rightarrow> Err ''No peer certificate''))
          (\<lambda>auth_type. Ok (ts_layer stream, auth_type)))"

datatype TcpServerConnectionHandler = Handler_Tcp | Handler_Tls "AuthorizationHandler option"

fun TcpServerConnectionHandler_handle ::
    "('c \<Rightarrow> (Certificate, string) result) \<Rightarrow> (('io, 'c) tls_stream, string) result \<Rightarrow> 'io \<Rightarrow>
     TcpServerConnectionHandler \<Rightarrow> ('io \<times> AuthorizationType, string) result" where
  "TcpServerConnectionHandler_handle parse accepted socket Handler_Tcp = Ok (socket, Auth_None)"
| "TcpServerConnectionHandler_handle parse accepted socket (Handler_Tls auth_handler) =
     TlsServerConfig_handle_connection parse accepted auth_handler"

section \<open>The server task\<close>

record spawned =
  sp_id :: u128
  sp_channel :: setting_sender
  sp_connection_handler :: TcpServerConnectionHandler
  sp_handlers :: ServerHandlerMap
  sp_decode :: DecodeLevel
  sp_addr :: IpAddr

record ServerTask =
  sv_handlers :: ServerHandlerMap
  sv_tracker :: SessionTracker
  sv_connection_handler :: TcpServerConnectionHandler
  sv_filter :: AddressFilter
  sv_decode :: DecodeLevel
  sv_channels :: nat
  sv_sent :: "(setting_sender \<times> ServerSetting) list"
  sv_spawned :: "spawned list"

definition ServerTask_new ::
    "usize \<Rightarrow> ServerHandlerMap \<Rightarrow> TcpServerConnectionHandler \<Rightarrow> AddressFilter \<Rightarrow> DecodeLevel \<Rightarrow> ServerTask" where
  "ServerTask_new max_sessions handlers connection_handler flt decode =
     \<lparr>sv_handlers = handlers, sv_tracker = SessionTracker_new max_sessions,
      sv_connection_handler = connection_handler, sv_filter = flt,
      sv_decode = decode, sv_channels = 0, sv_sent = [], sv_spawned = []\<rparr>"

fun ServerTask_change_setting :: "ServerSetting \<Rightarrow> ServerTask \<Rightarrow> ServerTask" where
  "ServerTask_change_setting (ChangeDecoding level) s =
     s\<lparr>sv_decode := level,
       sv_sent := sv_sent s @ map (\<lambda>sender. (sender, ChangeDecoding level)) (bt_values (tk_sessions (sv_tracker s)))\<rparr>"

definition ServerTask_handle ::
    "('r, 'w, 'd, 'io) platform \<Rightarrow> IpAddr \<Rightarrow> (ServerTask, unit, unit) se" where
  "ServerTask_handle P addr s =
     (let tx = sv_channels s; s1 = s\<lparr>sv_channels := tx + 1\<rparr> in
      case SessionTracker_add P tx (sv_tracker s1) of
        (Ok i, tr) \<Rightarrow>
          (Ok (), s1\<lparr>sv_tracker := tr,
             sv_spawned := sv_spawned s1 @
               [\<lparr>sp_id = i, sp_channel = tx, sp_connection_handler = sv_connection_handler s1,
                  sp_handlers = sv_handlers s1, sp_decode = sv_decode s1, sp_addr = addr\<rparr>]\<rparr>)
      | (Err e, tr) \<Rightarrow> (Err e, s1\<lparr>sv_tracker := tr\<rparr>)
      | (Panic, tr) \<Rightarrow> (Panic, s1\<lparr>sv_tracker := tr\<rparr>))"

text \<open>The three branches of the \<open>select!\<close>; \<open>Err ()\<close> is the return from the loop.\<close>

datatype server_event =
    Ev_Setting "ServerSetting option"
  | Ev_SessionClose u128
  | Ev_Accept "(IpAddr, ErrorKind) result"

fun ServerTask_step ::
    "('r, 'w, 'd, 'io) platform \<Rightarrow> server_event \<Rightarrow> (ServerTask, unit, unit) se" where
  "ServerTask_step P (Ev_Setting (Some setting)) s = (Ok (), ServerTask_change_setting setting s)"
| "ServerTask_step P (Ev_Setting None) s = (Err (), s)"
| "ServerTask_step P (Ev_SessionClose i) s =
     (Ok (), s\<lparr>sv_tracker := SessionTracker_remove i (sv_tracker s)\<rparr>)"
| "ServerTask_step P (Ev_Accept (Err err)) s = (Err (), s)"
| "ServerTask_step P (Ev_Accept Panic) s = (Panic, s)"
| "ServerTask_step P (Ev_Accept (Ok addr)) s =
     (if AddressFilter_matches addr (sv_filter s) then ServerTask_handle P addr s else (Ok (), s))"

fun ServerTask_run ::
    "('r, 'w, 'd, 'io) platform \<Rightarrow> server_event list \<Rightarrow> (ServerTask, unit, unit) se" where
  "ServerTask_run P [] s = (Ok (), s)"
| "ServerTask_run P (e # es) s = (case ServerTask_step P e s of
      (Ok _, s') \<Rightarrow> ServerTask_run P es s'
    | r \<Rightarrow> r)"

section \<open>Starting a server\<close>

text \<open>
  \<open>rodbus/src/server/mod.rs\<close>: the listener is bound first, and a failure to bind is all
  that can go wrong. The result of binding is an argument; what comes back is the task that is
  spawned.
\<close>

definition spawn_tcp_server_task ::
    "(unit, ErrorKind) result \<Rightarrow> usize \<Rightarrow> ServerHandlerMap \<Rightarrow> AddressFilter \<Rightarrow> DecodeLevel \<Rightarrow>
     (ServerTask, ErrorKind) result" where
  "spawn_tcp_server_task bound max_sessions handlers flt decode =
     bind_result bound (\<lambda>_. Ok (ServerTask_new max_sessions handlers Handler_Tcp flt decode))"

definition spawn_tls_server_task_impl ::
    "(unit, ErrorKind) result \<Rightarrow> usize \<Rightarrow> ServerHandlerMap \<Rightarrow> AuthorizationHandler option \<Rightarrow> AddressFilter \<Rightarrow>
     DecodeLevel \<Rightarrow> (ServerTask, ErrorKind) result" where
  "spawn_tls_server_task_impl bound max_sessions handlers auth_handler flt decode =
     bind_result bound (\<lambda>_. Ok (ServerTask_new max_sessions handlers (Handler_Tls auth_handler) flt decode))"

definition spawn_tls_server_task ::
    "(unit, ErrorKind) result \<Rightarrow> usize \<Rightarrow> ServerHandlerMap \<Rightarrow> AddressFilter \<Rightarrow> DecodeLevel \<Rightarrow>
     (ServerTask, ErrorKind) result" where
  "spawn_tls_server_task bound max_sessions handlers flt decode =
     spawn_tls_server_task_impl bound max_sessions handlers None flt decode"

definition spawn_tls_server_task_with_authz ::
    "(unit, ErrorKind) result \<Rightarrow> usize \<Rightarrow> ServerHandlerMap \<Rightarrow> AuthorizationHandler \<Rightarrow> AddressFilter \<Rightarrow>
     DecodeLevel \<Rightarrow> (ServerTask, ErrorKind) result" where
  "spawn_tls_server_task_with_authz bound max_sessions handlers auth_handler flt decode =
     spawn_tls_server_task_impl bound max_sessions handlers (Some auth_handler) flt decode"

text \<open>The handle: settings sent through it reach the task as long as that is running.\<close>

definition ServerHandle_set_decode_level ::
    "bool \<Rightarrow> DecodeLevel \<Rightarrow> (ServerSetting list, unit, Shutdown) se" where
  "ServerHandle_set_decode_level running level sent =
     (if running then (Ok (), sent @ [ChangeDecoding level]) else (Err Shutdown, sent))"

section \<open>Sessions\<close>

text \<open>An error of the handshake means that there is no session; otherwise the outcome is that of the session.\<close>

definition run_session ::
    "('r, 'w, 'd, 'io) platform \<Rightarrow> 'h RequestHandler \<Rightarrow> ('c \<Rightarrow> (Certificate, string) result) \<Rightarrow>
     (('io, 'c) tls_stream, string) result \<Rightarrow> 'io \<Rightarrow> TcpServerConnectionHandler \<Rightarrow> DecodeLevel \<Rightarrow> ServerHandlerMap \<Rightarrow>
     (bool \<times> ServerSetting option poll) list \<Rightarrow> 'h handler_store \<Rightarrow>
     (((unit, RequestError) result poll \<times> ('h, 'io) session) option, string) result" where
  "run_session P H parse accepted socket handler decode handlers turns st =
     (case TcpServerConnectionHandler_handle parse accepted socket handler of
        Ok (phys, auth) \<Rightarrow> Ok (SessionTask_run P H turns
          \<lparr>ss_task = SessionTask_new handlers auth FrameWriter_tcp FramedReader_tcp decode, ss_store = st, ss_io = phys\<rparr>)
      | Err err \<Rightarrow> Err err
      | Panic \<Rightarrow> Panic)"

section \<open>The tracker's invariant\<close>

definition tracker_ok :: "SessionTracker \<Rightarrow> bool" where
  "tracker_ok t \<longleftrightarrow> bt_wf (tk_sessions t) \<and> 1 \<le> tk_max_sessions t \<and>
     length (tk_sessions t) \<le> tk_max_sessions t \<and> (\<forall>i \<in> set (bt_keys (tk_sessions t)). i < tk_id t)"

lemma tracker_new_ok: "tracker_ok (SessionTracker_new n)"
  by (simp add: tracker_ok_def SessionTracker_new_def bt_wf_def bt_keys_def Let_def)

lemma bt_keys_map: "set (bt_keys m) = set (map fst m)"
  by (simp add: bt_keys_def)

lemma tracker_remove_ok: "tracker_ok t \<Longrightarrow> tracker_ok (SessionTracker_remove i t)"
  using bt.invar_remove [of "tk_sessions t" i] bt.length_remove [of "tk_sessions t" i] bt.keys_remove [of "tk_sessions t" i]
  by (auto simp: tracker_ok_def SessionTracker_remove_def bt_keys_map simp del: set_map split: if_splits)

text \<open>Before a session is added there is room for it: the oldest one has made way if necessary.\<close>

definition make_room :: "SessionTracker \<Rightarrow> (u128, setting_sender) btree_map" where
  "make_room t = (if length (tk_sessions t) \<ge> tk_max_sessions t then tl (tk_sessions t) else tk_sessions t)"

lemma bt_remove_first: "bt_wf ((k, v) # m) \<Longrightarrow> snd (bt_remove k ((k, v) # m)) = m"
  by (force simp: bt_wf_def bt_keys_def bt_remove_def filter_id_conv)

lemma tracker_add_eq:
  assumes "tracker_ok t" and "tk_id t \<noteq> - 1"
  shows "SessionTracker_add P sender t = (Ok (tk_id t),
    t\<lparr>tk_id := tk_id t + 1, tk_sessions := snd (bt_insert (tk_id t) sender (make_room t))\<rparr>)"
proof (cases "length (tk_sessions t) \<ge> tk_max_sessions t")
  case True
  then obtain k v m where m: "tk_sessions t = (k, v) # m"
    using assms(1) by (cases "tk_sessions t") (auto simp: tracker_ok_def)
  then have "snd (bt_remove k (tk_sessions t)) = m"
    using assms(1) bt_remove_first [of k v m] by (simp add: tracker_ok_def)
  then show ?thesis
    using True m assms(2)
    by (simp add: SessionTracker_add_def SessionTracker_get_next_id_def make_room_def Let_def bnd_def bt_keys_def)
next
  case False
  then show ?thesis
    using assms(2) by (simp add: SessionTracker_add_def SessionTracker_get_next_id_def make_room_def Let_def bnd_def)
qed

lemma make_room_props:
  assumes "tracker_ok t"
  shows "bt_wf (make_room t)" and "length (make_room t) < tk_max_sessions t"
    and "set (make_room t) \<subseteq> set (tk_sessions t)" and "bt_get (tk_id t) (make_room t) = None"
proof -
  show "bt_wf (make_room t)" "length (make_room t) < tk_max_sessions t" and sub: "set (make_room t) \<subseteq> set (tk_sessions t)"
    using assms by (cases "tk_sessions t"; auto simp: tracker_ok_def make_room_def bt_wf_def bt_keys_def)+
  have "tk_id t \<notin> fst ` set (tk_sessions t)" using assms by (auto simp: tracker_ok_def bt_keys_def)
  then show "bt_get (tk_id t) (make_room t) = None" using sub by (auto simp: bt_get_def map_of_eq_None_iff)
qed

lemma less_succ_u128: "(i :: u128) \<noteq> - 1 \<Longrightarrow> j \<le> i \<Longrightarrow> j < i + 1"
proof -
  assume "i \<noteq> - 1" "j \<le> i"
  then have "unat (i + 1) = unat i + 1" by (metis add.commute add.inverse_inverse add_eq_0_iff unatSuc Suc_eq_plus1_left)
  then show ?thesis using \<open>j \<le> i\<close> by (simp add: word_less_nat_alt word_le_nat_alt)
qed

lemma tracker_add_ok:
  assumes "tracker_ok t" and "tk_id t \<noteq> - 1" and "SessionTracker_add P sender t = (r, t')"
  shows "tracker_ok t'"
proof -
  note room = make_room_props [OF assms(1)]
  have t': "t' = t\<lparr>tk_id := tk_id t + 1, tk_sessions := snd (bt_insert (tk_id t) sender (make_room t))\<rparr>"
    using tracker_add_eq [OF assms(1,2), of P sender] assms(3) by simp
  have keys: "set (bt_keys (tk_sessions t')) \<subseteq> insert (tk_id t) (set (bt_keys (tk_sessions t)))"
    using bt.keys_insert [OF room(1), of "tk_id t" sender] room(3) by (auto simp: t' bt_keys_map)
  have "i < tk_id t + 1" if "i \<in> set (bt_keys (tk_sessions t'))" for i
  proof -
    have "i \<le> tk_id t" using that keys assms(1) by (auto simp: tracker_ok_def intro: less_imp_le)
    then show ?thesis by (rule less_succ_u128 [OF assms(2)])
  qed
  moreover have "length (tk_sessions t') = Suc (length (make_room t))"
    using bt.length_insert [OF room(1), of "tk_id t" sender] room(4) by (simp add: t')
  ultimately show ?thesis
    using assms(1) room bt.invar_insert [OF room(1), of "tk_id t" sender] by (auto simp: tracker_ok_def t')
qed

text \<open>
  C29: A new session always gets in, under an id that no live session has. If the server is full, the
  oldest session is closed for it, and only that one; all other sessions keep their channels.
\<close>

theorem tracker_evicts_oldest:
  assumes "tracker_ok t" and "tk_id t \<noteq> - 1"
  shows "\<exists>t'. SessionTracker_add P sender t = (Ok (tk_id t), t') \<and> tracker_ok t' \<and>
    tk_id t \<notin> set (bt_keys (tk_sessions t)) \<and> bt_get (tk_id t) (tk_sessions t') = Some sender \<and>
    (\<forall>i. i \<noteq> tk_id t \<longrightarrow> bt_get i (tk_sessions t') =
      (if length (tk_sessions t) = tk_max_sessions t \<and> (\<forall>j \<in> set (bt_keys (tk_sessions t)). i \<le> j) then None
       else bt_get i (tk_sessions t)))"
proof -
  note eq = tracker_add_eq [OF assms, of P sender] and room = make_room_props [OF assms(1)]
  have fresh: "tk_id t \<notin> set (bt_keys (tk_sessions t))" using assms(1) by (auto simp: tracker_ok_def)
  have get: "bt_get i (make_room t) =
      (if length (tk_sessions t) = tk_max_sessions t \<and> (\<forall>j \<in> set (bt_keys (tk_sessions t)). i \<le> j) then None
       else bt_get i (tk_sessions t))" for i
  proof (cases "length (tk_sessions t) = tk_max_sessions t")
    case True
    then obtain k v m where m: "tk_sessions t = (k, v) # m"
      using assms(1) by (cases "tk_sessions t") (auto simp: tracker_ok_def)
    have above: "\<forall>j \<in> fst ` set m. k < j" using assms(1) m by (simp add: tracker_ok_def bt_wf_def bt_keys_def)
    show ?thesis
    proof (cases "\<forall>j \<in> set (bt_keys (tk_sessions t)). i \<le> j")
      case low: True
      then have "i \<le> k" by (simp add: m bt_keys_def)
      then have "i \<notin> fst ` set m" using above by (meson leD)
      then have "map_of m i = None" by (simp add: map_of_eq_None_iff)
      then show ?thesis using True low m by (simp add: make_room_def bt_get_def)
    next
      case False
      then have "i \<noteq> k" using above by (auto simp: m bt_keys_def intro: less_imp_le)
      then have "bt_get i (make_room t) = bt_get i (tk_sessions t)" using True m by (simp add: make_room_def bt_get_def)
      then show ?thesis using False by (simp only: if_False simp_thms)
    qed
  next
    case False
    then show ?thesis using assms(1) by (simp add: make_room_def tracker_ok_def)
  qed
  show ?thesis
    using eq tracker_add_ok [OF assms eq] fresh get bt.lookup_insert [OF room(1), of _ "tk_id t" sender] by simp
qed

theorem tracker_evicts_oldest_witness:
  "\<exists>t'. SessionTracker_add (list_platform True) 9
      \<lparr>tk_max_sessions = 2, tk_id = 5, tk_sessions = [(3, 7), (4, 8)]\<rparr> = (Ok 5, t') \<and>
    bt_get 5 (tk_sessions t') = Some 9 \<and> bt_get 3 (tk_sessions t') = None \<and> bt_get 4 (tk_sessions t') = Some 8"
proof -
  let ?t = "\<lparr>tk_max_sessions = 2, tk_id = 5, tk_sessions = [(3, 7), (4, 8)]\<rparr>"
  have "tracker_ok ?t" "tk_id ?t \<noteq> - 1" by (simp_all add: tracker_ok_def bt_wf_def bt_keys_def)
  from tracker_evicts_oldest [OF this, of "list_platform True" 9] show ?thesis
    by (auto simp: bt_keys_def bt_get_def)
qed

section \<open>The server's invariant\<close>

definition server_ok :: "ServerTask \<Rightarrow> bool" where
  "server_ok s \<longleftrightarrow> tracker_ok (sv_tracker s) \<and>
     (\<forall>x \<in> set (sv_spawned s). AddressFilter_matches (sp_addr x) (sv_filter s)) \<and>
     (\<forall>i c. bt_get i (tk_sessions (sv_tracker s)) = Some c \<longrightarrow>
       (\<exists>x \<in> set (sv_spawned s). sp_id x = i \<and> sp_channel x = c))"

lemma server_new_ok: "server_ok (ServerTask_new n handlers ch flt decode)"
  using tracker_new_ok [of n]
  by (simp add: server_ok_def ServerTask_new_def) (simp add: SessionTracker_new_def Let_def bt_get_def)

lemma server_handle_ok:
  assumes "server_ok s" and "tk_id (sv_tracker s) \<noteq> - 1" and "AddressFilter_matches addr (sv_filter s)"
    and "ServerTask_handle P addr s = (r, s')"
  shows "r = Ok () \<and> server_ok s' \<and> sv_filter s' = sv_filter s \<and>
    tk_max_sessions (sv_tracker s') = tk_max_sessions (sv_tracker s) \<and> tk_id (sv_tracker s') = tk_id (sv_tracker s) + 1"
proof -
  let ?t = "sv_tracker s"
  have ok: "tracker_ok ?t" using assms(1) by (simp add: server_ok_def)
  note eq = tracker_add_eq [OF ok assms(2), of P "sv_channels s"] and room = make_room_props [OF ok]
  have "\<exists>x \<in> set (sv_spawned s). sp_id x = i \<and> sp_channel x = c" if "bt_get i (make_room ?t) = Some c" for i c
  proof -
    have "(i, c) \<in> set (tk_sessions ?t)" using that room(3) by (auto simp: bt_get_def dest: map_of_SomeD)
    then have "bt_get i (tk_sessions ?t) = Some c"
      using bt.lookup_entries [of "tk_sessions ?t" i c] ok by (simp add: tracker_ok_def)
    then show ?thesis using assms(1) by (simp add: server_ok_def)
  qed
  then show ?thesis
    using assms eq tracker_add_ok [OF ok assms(2) eq] bt.lookup_insert [OF room(1), of _ "tk_id ?t" "sv_channels s"]
    by (auto simp: ServerTask_handle_def server_ok_def Let_def split: if_splits)
qed

lemma server_step_ok:
  assumes "server_ok s" and "tk_id (sv_tracker s) \<noteq> - 1" and "ServerTask_step P e s = (r, s')"
  shows "server_ok s' \<and> sv_filter s' = sv_filter s \<and>
    tk_max_sessions (sv_tracker s') = tk_max_sessions (sv_tracker s) \<and>
    (tk_id (sv_tracker s') = tk_id (sv_tracker s) \<or> tk_id (sv_tracker s') = tk_id (sv_tracker s) + 1)"
  using assms(3)
proof (cases "(P, e, s)" rule: ServerTask_step.cases)
  case (1 P setting s)
  then show ?thesis using assms by (cases setting) (auto simp: server_ok_def)
next
  case (3 P i s)
  have wf: "bt_wf (tk_sessions (sv_tracker s))" using assms(1) 3 by (simp add: server_ok_def tracker_ok_def)
  show ?thesis
    using assms 3 tracker_remove_ok [of "sv_tracker s" i] bt.lookup_remove [OF wf, of _ i]
    by (auto simp: server_ok_def SessionTracker_remove_def split: if_splits)
next
  case (6 P addr s)
  then show ?thesis using assms server_handle_ok [OF assms(1,2)] by (auto split: if_splits)
qed (use assms in auto)

lemma server_run_ok:
  assumes "server_ok s" and "unat (tk_id (sv_tracker s)) + length es < 2 ^ 128" and "ServerTask_run P es s = (r, s')"
  shows "server_ok s' \<and> sv_filter s' = sv_filter s \<and> tk_max_sessions (sv_tracker s') = tk_max_sessions (sv_tracker s)"
  using assms
proof (induction es arbitrary: s)
  case (Cons e es)
  obtain x s1 where x: "ServerTask_step P e s = (x, s1)" by (meson surj_pair)
  have small: "unat (tk_id (sv_tracker s)) < 2 ^ 128 - 1" using Cons.prems(2) by simp
  moreover have "unat (- 1 :: u128) = 2 ^ 128 - 1" by (simp add: unsigned_minus_1_eq_mask mask_eq_exp_minus_1)
  ultimately have ne: "tk_id (sv_tracker s) \<noteq> - 1" by (metis less_irrefl)
  note step = server_step_ok [OF Cons.prems(1) ne x]
  have "unat (tk_id (sv_tracker s) + 1) = unat (tk_id (sv_tracker s)) + 1"
    using small by (simp add: unat_word_ariths)
  then have "unat (tk_id (sv_tracker s1)) + length es < 2 ^ 128" using step Cons.prems(2) by auto
  then show ?case
    using Cons.IH [of s1] Cons.prems(3) step x by (cases x) auto
qed auto

text \<open>
  C10: Whatever settings, connections and session ends reach the server, in any order, it never
  has more live sessions than configured (one, if configured with none), no session was ever
  started for an address that the filter refuses, and every live session is one that was started.
  (The number of events is bounded only so that the 128-bit session counter does not overflow.)
\<close>

theorem server_bounds_sessions:
  assumes "length es < 2 ^ 128" and "ServerTask_run P es (ServerTask_new n handlers ch flt decode) = (r, s)"
  shows "length (tk_sessions (sv_tracker s)) \<le> max 1 n \<and>
    (\<forall>x \<in> set (sv_spawned s). AddressFilter_matches (sp_addr x) flt) \<and>
    (\<forall>i c. bt_get i (tk_sessions (sv_tracker s)) = Some c \<longrightarrow>
      (\<exists>x \<in> set (sv_spawned s). sp_id x = i \<and> sp_channel x = c))"
proof -
  let ?s = "ServerTask_new n handlers ch flt decode"
  have init: "sv_filter ?s = flt" "tk_id (sv_tracker ?s) = 0" "tk_max_sessions (sv_tracker ?s) = max 1 n"
    by (simp_all add: ServerTask_new_def SessionTracker_new_def Let_def max_def)
  show ?thesis
    using server_run_ok [OF server_new_ok _ assms(2)] assms(1) init by (auto simp: server_ok_def tracker_ok_def)
qed

theorem server_bounds_sessions_witness:
  "\<exists>r s. ServerTask_run (list_platform True)
      [Ev_Accept (Ok (V4 10 0 0 1)), Ev_Accept (Ok (V4 10 0 0 2)), Ev_Accept (Ok (V4 192 0 0 1))]
      (ServerTask_new 1 ServerHandlerMap_new Handler_Tcp (AnyOf {V4 10 0 0 1, V4 10 0 0 2}) DecodeLevel_default) = (r, s) \<and>
    length (sv_spawned s) = 2 \<and> length (tk_sessions (sv_tracker s)) \<le> max 1 1"
proof -
  let ?es = "[Ev_Accept (Ok (V4 10 0 0 1)), Ev_Accept (Ok (V4 10 0 0 2)), Ev_Accept (Ok (V4 192 0 0 1))]"
  let ?s = "ServerTask_new 1 ServerHandlerMap_new Handler_Tcp (AnyOf {V4 10 0 0 1, V4 10 0 0 2}) DecodeLevel_default"
  obtain r s where run: "ServerTask_run (list_platform True) ?es ?s = (r, s)" by (meson surj_pair)
  have "length (sv_spawned s) = 2"
    using run by (auto simp: ServerTask_new_def SessionTracker_new_def ServerTask_handle_def SessionTracker_add_def
        SessionTracker_get_next_id_def bnd_def bt_keys_def bt_remove_def Let_def)
  then show ?thesis using server_bounds_sessions [OF _ run] run by auto
qed

lemma extract_modbus_role_Ok:
  "extract_modbus_role cert = Ok role \<longleftrightarrow>
     (\<exists>exts. ct_extensions cert = Some (Ok exts) \<and> List.map_filter extension_role exts = [role])"
  by (auto simp: extract_modbus_role_def split: option.split result.split list.split)

text \<open>
  C11: A TLS server with an authorization handler never runs a session without it: the session
  starts only if the client presented a certificate that parses and holds exactly one role, and then
  every request of the session is decided by that handler for that role.
\<close>

theorem tls_session_authorized:
  assumes "TcpServerConnectionHandler_handle parse accepted socket (Handler_Tls (Some handler)) = Ok (phys, auth)"
  shows "\<exists>stream cert rest parsed exts role. accepted = Ok stream \<and>
    ts_peer_certificates stream = Some (cert # rest) \<and> parse cert = Ok parsed \<and>
    ct_extensions parsed = Some (Ok exts) \<and> List.map_filter extension_role exts = [role] \<and>
    (\<forall>u req. AuthorizationType_is_authorized auth u req = AuthorizationType_check_authorization handler u req role)"
proof -
  obtain stream where stream: "accepted = Ok stream"
    using assms by (cases accepted) (simp_all add: TlsServerConfig_handle_connection_def)
  then obtain cert rest where cert: "ts_peer_certificates stream = Some (cert # rest)"
    using assms by (auto simp: TlsServerConfig_handle_connection_def split: option.splits list.splits)
  then obtain parsed role where "parse cert = Ok parsed" "extract_modbus_role parsed = Ok role"
    "auth = Auth_Handler handler role"
    using assms stream by (auto simp: TlsServerConfig_handle_connection_def bind_result_eq_Ok)
  then show ?thesis using stream cert by (auto simp: extract_modbus_role_Ok)
qed

theorem tls_session_authorized_witness:
  "\<exists>auth. TcpServerConnectionHandler_handle Ok
      (Ok \<lparr>ts_layer = (), ts_peer_certificates = Some [\<lparr>ct_extensions = Some (Ok [OtherExtension, ModbusRole ''op''])\<rparr>]\<rparr>)
      () (Handler_Tls (Some ReadOnlyAuthorizationHandler)) = Ok ((), auth) \<and>
    AuthorizationType_is_authorized auth (UnitId 1) (Req_WriteSingleCoil (Indexed_new 1 True)) = Deny"
proof -
  let ?acc = "Ok \<lparr>ts_layer = (), ts_peer_certificates =
    Some [\<lparr>ct_extensions = Some (Ok [OtherExtension, ModbusRole ''op''])\<rparr>]\<rparr>"
  have "TcpServerConnectionHandler_handle Ok ?acc () (Handler_Tls (Some ReadOnlyAuthorizationHandler)) =
      Ok ((), Auth_Handler ReadOnlyAuthorizationHandler ''op'')"
    by (simp add: TlsServerConfig_handle_connection_def extract_modbus_role_def List.map_filter_def)
  from this tls_session_authorized [OF this] show ?thesis
    by (auto simp: ReadOnlyAuthorizationHandler_def)
qed

end
