(* ===== verification/FfiServer.thy ===== *)
theory FfiServer
  imports FfiDatabase TcpServer ChannelTask
begin

text \<open>
  The server of the C bindings, \<open>ffi/rodbus-ffi/src/server.rs\<close>: request handlers that
  read from a database and delegate writes to C callbacks, the map of devices that becomes the
  handlers of a server, authorization callbacks, address filters, and the constructors of the
  servers. A C callback is a function of its arguments and of a context, which it may change;
  \<open>None\<close> is a callback that was not set. The reading of an IP address from a string belongs to
  the standard library; it is the argument \<open>parse_ip\<close>, about which nothing is assumed.
\<close>

section \<open>Iterators over the values of a write\<close>

record BitValue =
  bv_index :: u16
  bv_value :: bool

record RegisterValue =
  rv_index :: u16
  rv_value :: u16

record BitValueIterator =
  bvi_inner :: BitIterator
  bvi_current :: BitValue

record RegisterValueIterator =
  rvi_inner :: RegisterIterator
  rvi_current :: RegisterValue

definition BitValueIterator_new :: "BitIterator \<Rightarrow> BitValueIterator" where
  "BitValueIterator_new x = \<lparr>bvi_inner = x, bvi_current = \<lparr>bv_index = 0, bv_value = False\<rparr>\<rparr>"

definition RegisterValueIterator_new :: "RegisterIterator \<Rightarrow> RegisterValueIterator" where
  "RegisterValueIterator_new x = \<lparr>rvi_inner = x, rvi_current = \<lparr>rv_index = 0, rv_value = 0\<rparr>\<rparr>"

definition bit_value_iterator_next ::
    "('r, 'w, 'd, 'io) platform \<Rightarrow> (BitValueIterator option, BitValue option, unit) se" where
  "bit_value_iterator_next P it = (case it of
      None \<Rightarrow> (Ok None, None)
    | Some i \<Rightarrow> (case BitIterator_next P (bvi_inner i) of
          (Ok (Some x), inner) \<Rightarrow>
            let current = \<lparr>bv_index = ix_index x, bv_value = ix_value x\<rparr> in
            (Ok (Some current), Some (i\<lparr>bvi_inner := inner, bvi_current := current\<rparr>))
        | (Ok None, inner) \<Rightarrow> (Ok None, Some (i\<lparr>bvi_inner := inner\<rparr>))
        | (Err e, inner) \<Rightarrow> (Err e, Some (i\<lparr>bvi_inner := inner\<rparr>))
        | (Panic, inner) \<Rightarrow> (Panic, Some (i\<lparr>bvi_inner := inner\<rparr>))))"

definition register_value_iterator_next ::
    "('r, 'w, 'd, 'io) platform \<Rightarrow> (RegisterValueIterator option, RegisterValue option, unit) se" where
  "register_value_iterator_next P it = (case it of
      None \<Rightarrow> (Ok None, None)
    | Some i \<Rightarrow> (case RegisterIterator_next P (rvi_inner i) of
          (Ok (Some x), inner) \<Rightarrow>
            let current = \<lparr>rv_index = ix_index x, rv_value = ix_value x\<rparr> in
            (Ok (Some current), Some (i\<lparr>rvi_inner := inner, rvi_current := current\<rparr>))
        | (Ok None, inner) \<Rightarrow> (Ok None, Some (i\<lparr>rvi_inner := inner\<rparr>))
        | (Err e, inner) \<Rightarrow> (Err e, Some (i\<lparr>rvi_inner := inner\<rparr>))
        | (Panic, inner) \<Rightarrow> (Panic, Some (i\<lparr>rvi_inner := inner\<rparr>))))"

section \<open>Request handlers\<close>

record 'u WriteHandler =
  wh_write_single_coil :: "(u16 \<Rightarrow> bool \<Rightarrow> Database \<Rightarrow> 'u \<Rightarrow> WriteResult \<times> Database \<times> 'u) option"
  wh_write_single_register :: "(u16 \<Rightarrow> u16 \<Rightarrow> Database \<Rightarrow> 'u \<Rightarrow> WriteResult \<times> Database \<times> 'u) option"
  wh_write_multiple_coils :: "(u16 \<Rightarrow> BitValueIterator \<Rightarrow> Database \<Rightarrow> 'u \<Rightarrow> WriteResult \<times> Database \<times> 'u) option"
  wh_write_multiple_registers ::
    "(u16 \<Rightarrow> RegisterValueIterator \<Rightarrow> Database \<Rightarrow> 'u \<Rightarrow> WriteResult \<times> Database \<times> 'u) option"

record 'u RequestHandlerWrapper =
  rw_database :: Database
  rw_write_handler :: "'u WriteHandler"
  rw_context :: 'u

definition RequestHandlerWrapper_new :: "'u WriteHandler \<Rightarrow> 'u \<Rightarrow> 'u RequestHandlerWrapper" where
  "RequestHandlerWrapper_new handler context =
     \<lparr>rw_database = Database_new, rw_write_handler = handler, rw_context = context\<rparr>"

definition RequestHandlerWrapper_read_coil :: "'u RequestHandlerWrapper \<Rightarrow> u16 \<Rightarrow> (bool, ExceptionCode) result" where
  "RequestHandlerWrapper_read_coil h address = (case db_coils (rw_database h) address of
      Some x \<Rightarrow> Ok x | None \<Rightarrow> Err IllegalDataAddress)"

definition RequestHandlerWrapper_read_discrete_input ::
    "'u RequestHandlerWrapper \<Rightarrow> u16 \<Rightarrow> (bool, ExceptionCode) result" where
  "RequestHandlerWrapper_read_discrete_input h address = (case db_discrete_input (rw_database h) address of
      Some x \<Rightarrow> Ok x | None \<Rightarrow> Err IllegalDataAddress)"

definition RequestHandlerWrapper_read_holding_register ::
    "'u RequestHandlerWrapper \<Rightarrow> u16 \<Rightarrow> (u16, ExceptionCode) result" where
  "RequestHandlerWrapper_read_holding_register h address = (case db_holding_registers (rw_database h) address of
      Some x \<Rightarrow> Ok x | None \<Rightarrow> Err IllegalDataAddress)"

definition RequestHandlerWrapper_read_input_register ::
    "'u RequestHandlerWrapper \<Rightarrow> u16 \<Rightarrow> (u16, ExceptionCode) result" where
  "RequestHandlerWrapper_read_input_register h address = (case db_input_registers (rw_database h) address of
      Some x \<Rightarrow> Ok x | None \<Rightarrow> Err IllegalDataAddress)"

text \<open>
  A write runs the callback on the database and the context. \<open>call_write\<close> is that call,
  \<open>None\<close> if the callback is not set.
\<close>

definition call_write ::
    "(Database \<Rightarrow> 'u \<Rightarrow> WriteResult \<times> Database \<times> 'u) option \<Rightarrow> 'u RequestHandlerWrapper \<Rightarrow>
     WriteResult option \<times> 'u RequestHandlerWrapper" where
  "call_write cb h = (case cb of
      None \<Rightarrow> (None, h)
    | Some f \<Rightarrow> (case f (rw_database h) (rw_context h) of
        (x, d, u) \<Rightarrow> (Some x, h\<lparr>rw_database := d, rw_context := u\<rparr>)))"

definition RequestHandlerWrapper_write_single_coil ::
    "bool Indexed \<Rightarrow> ('u RequestHandlerWrapper, unit, ExceptionCode) se" where
  "RequestHandlerWrapper_write_single_coil value h =
     (case call_write (map_option (\<lambda>f. f (ix_index value) (ix_value value))
             (wh_write_single_coil (rw_write_handler h))) h of
        (Some x, h') \<Rightarrow> if wr_success x then (Ok (), h') else (Err IllegalDataAddress, h')
      | (None, h') \<Rightarrow> (Err IllegalFunction, h'))"

definition RequestHandlerWrapper_write_single_register ::
    "u16 Indexed \<Rightarrow> ('u RequestHandlerWrapper, unit, ExceptionCode) se" where
  "RequestHandlerWrapper_write_single_register value h =
     (case call_write (map_option (\<lambda>f. f (ix_index value) (ix_value value))
             (wh_write_single_register (rw_write_handler h))) h of
        (Some x, h') \<Rightarrow> (WriteResult_convert_to_result x, h')
      | (None, h') \<Rightarrow> (Err IllegalFunction, h'))"

definition RequestHandlerWrapper_write_multiple_coils ::
    "WriteCoils \<Rightarrow> ('u RequestHandlerWrapper, unit, ExceptionCode) se" where
  "RequestHandlerWrapper_write_multiple_coils values h =
     (let iterator = BitValueIterator_new (wcs_iterator values) in
      case call_write (map_option (\<lambda>f. f (ar_start (wcs_range values)) iterator)
             (wh_write_multiple_coils (rw_write_handler h))) h of
        (Some x, h') \<Rightarrow> (WriteResult_convert_to_result x, h')
      | (None, h') \<Rightarrow> (Err IllegalFunction, h'))"

definition RequestHandlerWrapper_write_multiple_registers ::
    "WriteRegisters \<Rightarrow> ('u RequestHandlerWrapper, unit, ExceptionCode) se" where
  "RequestHandlerWrapper_write_multiple_registers values h =
     (let iterator = RegisterValueIterator_new (wrs_iterator values) in
      case call_write (map_option (\<lambda>f. f (ar_start (wrs_range values)) iterator)
             (wh_write_multiple_registers (rw_write_handler h))) h of
        (Some x, h') \<Rightarrow> (WriteResult_convert_to_result x, h')
      | (None, h') \<Rightarrow> (Err IllegalFunction, h'))"

definition wrapper_handler :: "'u RequestHandlerWrapper RequestHandler" where
  "wrapper_handler = \<lparr>
     rh_read_coil = RequestHandlerWrapper_read_coil,
     rh_read_discrete_input = RequestHandlerWrapper_read_discrete_input,
     rh_read_holding_register = RequestHandlerWrapper_read_holding_register,
     rh_read_input_register = RequestHandlerWrapper_read_input_register,
     rh_write_single_coil = RequestHandlerWrapper_write_single_coil,
     rh_write_single_register = RequestHandlerWrapper_write_single_register,
     rh_write_multiple_coils = RequestHandlerWrapper_write_multiple_coils,
     rh_write_multiple_registers = RequestHandlerWrapper_write_multiple_registers \<rparr>"

section \<open>Authorization callbacks\<close>

datatype FfiAuthorization = Ffi_Allow | Ffi_Deny

fun Authorization_from_ffi :: "FfiAuthorization \<Rightarrow> Authorization" where
  "Authorization_from_ffi Ffi_Allow = Allow"
| "Authorization_from_ffi Ffi_Deny = Deny"

record FfiAuthorizationHandler =
  fah_read_coils :: "(u8 \<Rightarrow> AddressRange \<Rightarrow> string \<Rightarrow> FfiAuthorization) option"
  fah_read_discrete_inputs :: "(u8 \<Rightarrow> AddressRange \<Rightarrow> string \<Rightarrow> FfiAuthorization) option"
  fah_read_holding_registers :: "(u8 \<Rightarrow> AddressRange \<Rightarrow> string \<Rightarrow> FfiAuthorization) option"
  fah_read_input_registers :: "(u8 \<Rightarrow> AddressRange \<Rightarrow> string \<Rightarrow> FfiAuthorization) option"
  fah_write_single_coil :: "(u8 \<Rightarrow> u16 \<Rightarrow> string \<Rightarrow> FfiAuthorization) option"
  fah_write_single_register :: "(u8 \<Rightarrow> u16 \<Rightarrow> string \<Rightarrow> FfiAuthorization) option"
  fah_write_multiple_coils :: "(u8 \<Rightarrow> AddressRange \<Rightarrow> string \<Rightarrow> FfiAuthorization) option"
  fah_write_multiple_registers :: "(u8 \<Rightarrow> AddressRange \<Rightarrow> string \<Rightarrow> FfiAuthorization) option"

definition ffi_authorize ::
    "(u8 \<Rightarrow> 'a \<Rightarrow> string \<Rightarrow> FfiAuthorization) option \<Rightarrow> UnitId \<Rightarrow> 'a \<Rightarrow> string \<Rightarrow> Authorization" where
  "ffi_authorize cb unit_id x role = (case cb of
      Some f \<Rightarrow> Authorization_from_ffi (f (uid_value unit_id) x role)
    | None \<Rightarrow> Deny)"

definition AuthorizationHandlerWrapper :: "FfiAuthorizationHandler \<Rightarrow> AuthorizationHandler" where
  "AuthorizationHandlerWrapper h = \<lparr>
     ah_read_coils = ffi_authorize (fah_read_coils h),
     ah_read_discrete_inputs = ffi_authorize (fah_read_discrete_inputs h),
     ah_read_holding_registers = ffi_authorize (fah_read_holding_registers h),
     ah_read_input_registers = ffi_authorize (fah_read_input_registers h),
     ah_write_single_coil = ffi_authorize (fah_write_single_coil h),
     ah_write_single_register = ffi_authorize (fah_write_single_register h),
     ah_write_multiple_coils = ffi_authorize (fah_write_multiple_coils h),
     ah_write_multiple_registers = ffi_authorize (fah_write_multiple_registers h) \<rparr>"

section \<open>Device maps\<close>

record 'u DeviceMap =
  dm_inner :: "u8 \<rightharpoonup> 'u RequestHandlerWrapper"

definition device_map_create :: "'u DeviceMap" where
  "device_map_create = \<lparr>dm_inner = Map.empty\<rparr>"

text \<open>\<open>configure\<close> is the callback that fills the database of the new device.\<close>

definition device_map_add_endpoint ::
    "'u DeviceMap option \<Rightarrow> u8 \<Rightarrow> 'u WriteHandler \<Rightarrow> 'u \<Rightarrow> (Database \<Rightarrow> Database) \<Rightarrow> bool \<times> 'u DeviceMap option" where
  "device_map_add_endpoint devices unit_id handler context configure = (case devices of
      None \<Rightarrow> (False, None)
    | Some m \<Rightarrow>
        if unit_id \<in> dom (dm_inner m) then (False, Some m)
        else
          let h = RequestHandlerWrapper_new handler context;
              h' = h\<lparr>rw_database := configure (rw_database h)\<rparr>
          in (True, Some (m\<lparr>dm_inner := (dm_inner m)(unit_id \<mapsto> h')\<rparr>)))"

text \<open>
  Draining a hash map yields its entries in an order that is not specified: the list of drained
  entries is an argument, related to the map by \<open>drains\<close>. Wrapping a handler puts it
  behind a new mutex; the heap of mutexes is the store together with the next free reference.
\<close>

definition drains :: "'u DeviceMap \<Rightarrow> (u8 \<times> 'u RequestHandlerWrapper) list \<Rightarrow> bool" where
  "drains m es \<longleftrightarrow> distinct (map fst es) \<and> map_of es = dm_inner m"

type_synonym 'h heap = "handler_ref \<times> 'h handler_store"

definition heap_alloc :: "'h \<Rightarrow> 'h heap \<Rightarrow> handler_ref \<times> 'h heap" where
  "heap_alloc h hp = (case hp of (n, st) \<Rightarrow> (n, (Suc n, st(n := RequestHandler_wrap h))))"

fun add_handlers ::
    "(u8 \<times> 'h) list \<Rightarrow> ServerHandlerMap \<Rightarrow> 'h heap \<Rightarrow> ServerHandlerMap \<times> 'h heap" where
  "add_handlers [] handlers hp = (handlers, hp)"
| "add_handlers ((key, value) # es) handlers hp =
     (case heap_alloc value hp of (r, hp') \<Rightarrow>
        add_handlers es (snd (ServerHandlerMap_add (UnitId key) r handlers)) hp')"

definition DeviceMap_drain_and_convert ::
    "(u8 \<times> 'u RequestHandlerWrapper) list \<Rightarrow> 'u DeviceMap \<Rightarrow> 'u RequestHandlerWrapper heap \<Rightarrow>
     ServerHandlerMap \<times> 'u DeviceMap \<times> 'u RequestHandlerWrapper heap" where
  "DeviceMap_drain_and_convert drained m hp =
     (case add_handlers drained ServerHandlerMap_new hp of
        (handlers, hp') \<Rightarrow> (handlers, m\<lparr>dm_inner := Map.empty\<rparr>, hp'))"

section \<open>Address filters\<close>

datatype FfiAddressFilter =
    FfiFilter_Any
  | FfiFilter_WildcardIpv4 WildcardIPv4
  | FfiFilter_AnyOf "IpAddr set"

definition address_filter_any :: FfiAddressFilter where
  "address_filter_any = FfiFilter_Any"

definition ParamError_from_BadIpv4Wildcard :: "BadIpv4Wildcard \<Rightarrow> ParamError" where
  [conv_defs]: "ParamError_from_BadIpv4Wildcard x = InvalidIpAddress"

definition parse_address_filter ::
    "(string \<Rightarrow> IpAddr option) \<Rightarrow> string \<Rightarrow> (FfiAddressFilter, ParamError) result" where
  "parse_address_filter parse_ip s = (case parse_ip s of
      Some x \<Rightarrow> Ok (FfiFilter_AnyOf {x})
    | None \<Rightarrow>
        bind_result (map_err ParamError_from_BadIpv4Wildcard (WildcardIPv4_from_str s)) (\<lambda>wc.
          Ok (FfiFilter_WildcardIpv4 wc)))"

definition address_filter_create ::
    "(string \<Rightarrow> IpAddr option) \<Rightarrow> string \<Rightarrow> (FfiAddressFilter, ParamError) result" where
  "address_filter_create parse_ip address = parse_address_filter parse_ip address"

definition address_filter_add ::
    "(string \<Rightarrow> IpAddr option) \<Rightarrow> string \<Rightarrow> (FfiAddressFilter option, unit, ParamError) se" where
  "address_filter_add parse_ip address address_filter = (case address_filter of
      None \<Rightarrow> (Err NullParameter, None)
    | Some flt \<Rightarrow> (case parse_ip address of
          None \<Rightarrow> (Err (ParamError_from_AddrParseError ()), Some flt)
        | Some addr \<Rightarrow> (case flt of
              FfiFilter_Any \<Rightarrow> (Err InvalidIpAddress, Some flt)
            | FfiFilter_AnyOf addrs \<Rightarrow> (Ok (), Some (FfiFilter_AnyOf (insert addr addrs)))
            | FfiFilter_WildcardIpv4 _ \<Rightarrow> (Err InvalidIpAddress, Some flt))))"

fun AddressFilter_from_ffi :: "FfiAddressFilter \<Rightarrow> AddressFilter" where
  "AddressFilter_from_ffi FfiFilter_Any = Filter_Any"
| "AddressFilter_from_ffi (FfiFilter_AnyOf addrs) = AnyOf addrs"
| "AddressFilter_from_ffi (FfiFilter_WildcardIpv4 wc) = Filter_WildcardIpv4 wc"

section \<open>Servers\<close>

text \<open>
  A constructor takes from its environment whether the runtime exists, the entries its device map
  yields, the bytes of the address as a string (\<open>None\<close> if they are not UTF-8), whether
  the runtime could run the future, and the result of binding. The state it changes is the device
  map and the heap of handlers.
\<close>

record FfiServer =
  fs_task :: ServerTask
  fs_map :: ServerHandlerMap

type_synonym 'u create_state = "'u DeviceMap option \<times> 'u RequestHandlerWrapper heap"

record 'u create_env =
  ce_runtime :: bool
  ce_drained :: "(u8 \<times> 'u RequestHandlerWrapper) list"
  ce_block_on :: "(unit, ParamError) result"
  ce_bind :: "(unit, ErrorKind) result"

text \<open>The port is of no further use in the model.\<close>

definition get_socket_addr ::
    "(string \<Rightarrow> IpAddr option) \<Rightarrow> string option \<Rightarrow> u16 \<Rightarrow> (IpAddr \<times> u16, ParamError) result" where
  "get_socket_addr parse_ip ip port = (case ip of
      None \<Rightarrow> Err InvalidIpAddress
    | Some s \<Rightarrow> (case parse_ip s of
          None \<Rightarrow> Err (ParamError_from_AddrParseError ())
        | Some x \<Rightarrow> Ok (x, port)))"

text \<open>Draining the device map, then blocking on the start of the server with its handlers.\<close>

definition create_with ::
    "'u create_env \<Rightarrow> 'u DeviceMap \<Rightarrow> (ServerHandlerMap \<Rightarrow> (ServerTask, ErrorKind) result) \<Rightarrow>
     ('u create_state, FfiServer, ParamError) se" where
  "create_with env endpoints spawn s =
     (case DeviceMap_drain_and_convert (ce_drained env) endpoints (snd s) of
        (handler_map, endpoints', hp) \<Rightarrow>
          (bind_result (ce_block_on env) (\<lambda>_.
             bind_result (map_err (\<lambda>_. ServerBindError) (spawn handler_map)) (\<lambda>task.
               Ok \<lparr>fs_task = task, fs_map = handler_map\<rparr>)),
           (Some endpoints', hp)))"

definition server_create_tcp ::
    "(string \<Rightarrow> IpAddr option) \<Rightarrow> 'u create_env \<Rightarrow> string option \<Rightarrow> u16 \<Rightarrow> FfiAddressFilter option \<Rightarrow> u16 \<Rightarrow>
     FfiDecodeLevel \<Rightarrow> ('u create_state, FfiServer, ParamError) se" where
  "server_create_tcp parse_ip env ip_addr port flt max_sessions decode_level s =
     bnd (lift_result (if ce_runtime env then Ok () else Err NullParameter)) (\<lambda>_.
     bnd (lift_result (not_null flt)) (\<lambda>f.
     bnd (lift_result (get_socket_addr parse_ip ip_addr port)) (\<lambda>address.
     bnd (lift_result (not_null (fst s))) (\<lambda>endpoints.
       create_with env endpoints (\<lambda>handlers.
         spawn_tcp_server_task (ce_bind env) (unat max_sessions) handlers
           (AddressFilter_from_ffi f) (DecodeLevel_from_ffi decode_level)))))) s"

text \<open>
  \<open>tls_config\<close> is the outcome of building the TLS configuration from the certificates, with
  the error as the bindings report it.
\<close>

definition server_create_tls_impl ::
    "(string \<Rightarrow> IpAddr option) \<Rightarrow> 'u create_env \<Rightarrow> string option \<Rightarrow> u16 \<Rightarrow> FfiAddressFilter option \<Rightarrow> u16 \<Rightarrow>
     (unit, ParamError) result \<Rightarrow> FfiAuthorizationHandler option \<Rightarrow> FfiDecodeLevel \<Rightarrow>
     ('u create_state, FfiServer, ParamError) se" where
  "server_create_tls_impl parse_ip env ip_addr port flt max_sessions tls_config auth_handler decode_level s =
     bnd (lift_result (if ce_runtime env then Ok () else Err NullParameter)) (\<lambda>_.
     bnd (lift_result (not_null flt)) (\<lambda>f.
     bnd (lift_result (get_socket_addr parse_ip ip_addr port)) (\<lambda>address.
     bnd (lift_result (not_null (fst s))) (\<lambda>endpoints.
     bnd (lift_result tls_config) (\<lambda>_.
       create_with env endpoints (\<lambda>handlers. case auth_handler of
           Some auth \<Rightarrow>
             spawn_tls_server_task_with_authz (ce_bind env) (unat max_sessions) handlers
               (AuthorizationHandlerWrapper auth) (AddressFilter_from_ffi f) (DecodeLevel_from_ffi decode_level)
         | None \<Rightarrow>
             spawn_tls_server_task (ce_bind env) (unat max_sessions) handlers
               Filter_Any (DecodeLevel_from_ffi decode_level))))))) s"

definition server_create_tls ::
    "(string \<Rightarrow> IpAddr option) \<Rightarrow> 'u create_env \<Rightarrow> string option \<Rightarrow> u16 \<Rightarrow> FfiAddressFilter option \<Rightarrow> u16 \<Rightarrow>
     (unit, ParamError) result \<Rightarrow> FfiDecodeLevel \<Rightarrow> ('u create_state, FfiServer, ParamError) se" where
  "server_create_tls parse_ip env ip_addr port flt max_sessions tls_config decode_level =
     server_create_tls_impl parse_ip env ip_addr port flt max_sessions tls_config None decode_level"

definition server_create_tls_with_authz ::
    "(string \<Rightarrow> IpAddr option) \<Rightarrow> 'u create_env \<Rightarrow> string option \<Rightarrow> u16 \<Rightarrow> FfiAddressFilter option \<Rightarrow> u16 \<Rightarrow>
     (unit, ParamError) result \<Rightarrow> FfiAuthorizationHandler \<Rightarrow> FfiDecodeLevel \<Rightarrow>
     ('u create_state, FfiServer, ParamError) se" where
  "server_create_tls_with_authz parse_ip env ip_addr port flt max_sessions tls_config auth_handler decode_level =
     server_create_tls_impl parse_ip env ip_addr port flt max_sessions tls_config (Some auth_handler) decode_level"

text \<open>
  A transaction on the database of one device; locking a poisoned mutex panics.
\<close>

definition server_update_database ::
    "FfiServer option \<Rightarrow> u8 \<Rightarrow> (Database \<Rightarrow> Database) \<Rightarrow> ('u RequestHandlerWrapper handler_store, unit, ParamError) se" where
  "server_update_database server unit_id transaction st = (case server of
      None \<Rightarrow> (Err NullParameter, st)
    | Some sv \<Rightarrow> (case ServerHandlerMap_get (UnitId unit_id) (fs_map sv) of
          None \<Rightarrow> (Err InvalidUnitId, st)
        | Some handler \<Rightarrow>
            (case with_lock handler (\<lambda>(u, h). (Ok (), (u, h\<lparr>rw_database := transaction (rw_database h)\<rparr>))) ((), st) of
               (r, (_, st')) \<Rightarrow> (r, st'))))"

definition ParamError_from_Shutdown :: "Shutdown \<Rightarrow> ParamError" where
  [conv_defs]: "ParamError_from_Shutdown x = Param_Shutdown"

definition server_set_decode_level ::
    "FfiServer option \<Rightarrow> (unit, ParamError) result \<Rightarrow> bool \<Rightarrow> FfiDecodeLevel \<Rightarrow> (ServerSetting list, unit, ParamError) se" where
  "server_set_decode_level server block_on running level =
     bnd (lift_result (not_null server)) (\<lambda>_. bnd (lift_result block_on) (\<lambda>_.
       conv_err ParamError_from_Shutdown (ServerHandle_set_decode_level running (DecodeLevel_from_ffi level))))"

section \<open>Reads\<close>

text \<open>The reply of a device that holds a table of points.\<close>

definition table_reply ::
    "FunctionCode \<Rightarrow> ('v list \<Rightarrow> u8 list) \<Rightarrow> (u16 \<rightharpoonup> 'v) \<Rightarrow> AddressRange \<Rightarrow> u8 list" where
  "table_reply f enc m r =
     (if set (range_addresses r) \<subseteq> dom m
      then FunctionCode_get_value f # enc (map (\<lambda>a. the (m a)) (range_addresses r))
      else exception_pdu f IllegalDataAddress)"

lemma read_all_table:
  "read_all (\<lambda>a. case m a of Some x \<Rightarrow> Ok x | None \<Rightarrow> Err e) as =
     (if set as \<subseteq> dom m then Ok (map (\<lambda>a. the (m a)) as) else Err e)"
  by (induction as) (auto split: option.splits)

lemma answer_read_table:
  "answer_read f enc (\<lambda>a. case m a of Some x \<Rightarrow> Ok x | None \<Rightarrow> Err IllegalDataAddress) r =
     Ok (table_reply f enc m r)"
  by (simp add: answer_read_def read_all_table table_reply_def)

lemmas wrapper_read_defs = RequestHandlerWrapper_read_coil_def RequestHandlerWrapper_read_discrete_input_def
  RequestHandlerWrapper_read_holding_register_def RequestHandlerWrapper_read_input_register_def

lemmas wrapper_write_defs = RequestHandlerWrapper_write_single_coil_def RequestHandlerWrapper_write_single_register_def
  RequestHandlerWrapper_write_multiple_coils_def RequestHandlerWrapper_write_multiple_registers_def

lemma answer_wrapper_read:
  "answer wrapper_handler (Req_ReadCoils b) h =
     (Ok (table_reply ReadCoils bool_slice_bytes (db_coils (rw_database h)) (rbr_inner b)), h)"
  "answer wrapper_handler (Req_ReadDiscreteInputs b) h =
     (Ok (table_reply ReadDiscreteInputs bool_slice_bytes (db_discrete_input (rw_database h)) (rbr_inner b)), h)"
  "answer wrapper_handler (Req_ReadHoldingRegisters w) h =
     (Ok (table_reply ReadHoldingRegisters u16_slice_bytes (db_holding_registers (rw_database h)) (rrr_inner w)), h)"
  "answer wrapper_handler (Req_ReadInputRegisters w) h =
     (Ok (table_reply ReadInputRegisters u16_slice_bytes (db_input_registers (rw_database h)) (rrr_inner w)), h)"
  by (simp_all add: wrapper_handler_def wrapper_read_defs [abs_def] answer_read_table)

lemma wrapper_total: "handler_total wrapper_handler"
  by (auto simp: handler_total_def wrapper_handler_def wrapper_read_defs wrapper_write_defs call_write_def
      WriteResult_convert_to_result_def Let_def split: option.splits prod.splits)

text \<open>
  A write runs the callback exactly once, on the current database. Without a callback the
  function is reported as illegal. The exception of a failed write reaches the client, except
  that a failed write of a single coil is always reported as an illegal address.
\<close>

lemma write_single_coil_exception_lost:
  assumes "wh_write_single_coil (rw_write_handler h) = Some f"
    and "f (ix_index x) (ix_value x) (rw_database h) (rw_context h) = (WriteResult_exception_init ex, d, u)"
  shows "fst (RequestHandlerWrapper_write_single_coil x h) = Err IllegalDataAddress"
  using assms by (simp add: RequestHandlerWrapper_write_single_coil_def call_write_def WriteResult_exception_init_def)

section \<open>From a device map to the handlers of a server\<close>

definition handlers_of ::
    "(u8 \<rightharpoonup> 'h) \<Rightarrow> ServerHandlerMap \<Rightarrow> nat \<Rightarrow> 'h heap \<Rightarrow> bool" where
  "handlers_of m hs n hp \<longleftrightarrow> bt_wf (shm_handlers hs) \<and> n \<le> fst hp \<and>
     (\<forall>k. m k = None \<longrightarrow> ServerHandlerMap_get (UnitId k) hs = None) \<and>
     (\<forall>k h. m k = Some h \<longrightarrow> (\<exists>r. ServerHandlerMap_get (UnitId k) hs = Some r \<and> n \<le> r \<and> r < fst hp \<and>
        snd hp r = RequestHandler_wrap h)) \<and>
     (\<forall>k k' r. ServerHandlerMap_get (UnitId k) hs = Some r \<longrightarrow> ServerHandlerMap_get (UnitId k') hs = Some r \<longrightarrow> k = k')"

lemma handlers_of_add:
  assumes inv: "handlers_of m hs n hp" and new: "m key = None"
  shows "handlers_of (m(key \<mapsto> v)) (snd (ServerHandlerMap_add (UnitId key) (fst hp) hs)) n (snd (heap_alloc v hp))"
proof -
  obtain k st where hp: "hp = (k, st)" by (cases hp)
  have wf: "bt_wf (shm_handlers hs)" using inv by (simp add: handlers_of_def)
  note add = ServerHandlerMap_get_add [OF wf]
  have below: "r < k" if "ServerHandlerMap_get (UnitId u) hs = Some r" for u r
    using inv that by (cases "m u") (fastforce simp: handlers_of_def hp)+
  then have "ServerHandlerMap_get (UnitId u) hs \<noteq> Some k" for u by blast
  then show ?thesis
    using inv new add(3) below
    unfolding handlers_of_def by (auto simp: hp heap_alloc_def add(1)) (metis less_SucI less_irrefl)+
qed

lemma add_handlers_ok:
  assumes "handlers_of m hs n hp" and "distinct (map fst es)" and "\<forall>k \<in> fst ` set es. m k = None"
    and "add_handlers es hs hp = (hs', hp')"
  shows "handlers_of (m ++ map_of es) hs' n hp' \<and> (\<forall>r < fst hp. snd hp' r = snd hp r)"
  using assms
proof (induction es hs hp arbitrary: m rule: add_handlers.induct)
  case (2 key v es hs hp)
  obtain r hp1 where a: "heap_alloc v hp = (r, hp1)" by (meson surj_pair)
  then have r: "r = fst hp" "fst hp1 = Suc (fst hp)" "\<forall>i < fst hp. snd hp1 i = snd hp i"
    by (auto simp: heap_alloc_def split: prod.splits)
  have "handlers_of (m(key \<mapsto> v)) (snd (ServerHandlerMap_add (UnitId key) r hs)) n hp1"
    using handlers_of_add [OF 2(2), of key v] 2(4) a r(1) by simp
  then have "handlers_of ((m(key \<mapsto> v)) ++ map_of es) hs' n hp' \<and> (\<forall>i < fst hp1. snd hp' i = snd hp1 i)"
    by (rule 2(1) [OF a [symmetric]]) (use 2(3-5) a in \<open>auto simp: rev_image_eqI\<close>)
  moreover have "(m(key \<mapsto> v)) ++ map_of es = m ++ map_of ((key, v) # es)"
    using 2(3) by (simp add: map_add_upd_left dom_map_of_conv_image_fst)
  ultimately show ?case using r by (metis less_SucI)
qed (simp add: handlers_of_def)

text \<open>
  C34: A device map becomes exactly the handlers of the server, whatever order the hash map
  yields its entries in. Every device is registered under its own unit id, behind a lock of its
  own that no other device shares and that was not in use before; no other unit id is
  registered; the device map is left empty.
\<close>

theorem device_map_becomes_handlers:
  assumes "drains m es" and "DeviceMap_drain_and_convert es m (n, st) = (hs, m', (n', st'))"
  shows "dm_inner m' = Map.empty \<and>
    (\<forall>k. dm_inner m k = None \<longrightarrow> ServerHandlerMap_get (UnitId k) hs = None) \<and>
    (\<forall>k h. dm_inner m k = Some h \<longrightarrow> (\<exists>r. ServerHandlerMap_get (UnitId k) hs = Some r \<and> n \<le> r \<and> r < n' \<and>
       st' r = RequestHandler_wrap h)) \<and>
    (\<forall>k k' r. ServerHandlerMap_get (UnitId k) hs = Some r \<longrightarrow> ServerHandlerMap_get (UnitId k') hs = Some r \<longrightarrow> k = k') \<and>
    (\<forall>r < n. st' r = st r)"
proof -
  have "handlers_of Map.empty ServerHandlerMap_new n (n, st)"
    by (simp add: handlers_of_def ServerHandlerMap_new_def ServerHandlerMap_get_def bt_get_def bt_wf_def bt_keys_def)
  moreover have "add_handlers es ServerHandlerMap_new (n, st) = (hs, (n', st'))" "dm_inner m' = Map.empty"
    using assms(2) by (auto simp: DeviceMap_drain_and_convert_def split: prod.splits)
  ultimately have "handlers_of (dm_inner m) hs n (n', st') \<and> (\<forall>r < n. st' r = st r)"
    using add_handlers_ok [of Map.empty ServerHandlerMap_new n "(n, st)" es hs "(n', st')"] assms(1)
    by (simp add: drains_def)
  then show ?thesis using \<open>dm_inner m' = Map.empty\<close> by (simp add: handlers_of_def)
qed

definition no_writes :: "unit WriteHandler" where
  "no_writes = \<lparr>wh_write_single_coil = None, wh_write_single_register = None, wh_write_multiple_coils = None,
     wh_write_multiple_registers = None\<rparr>"

definition idle_device :: "unit RequestHandlerWrapper" where
  "idle_device = RequestHandlerWrapper_new no_writes ()"

theorem device_map_becomes_handlers_witness:
  "\<exists>hs m' n' st'. DeviceMap_drain_and_convert [(7, idle_device), (3, idle_device)]
      \<lparr>dm_inner = [3 \<mapsto> idle_device, 7 \<mapsto> idle_device]\<rparr> (0, \<lambda>_. RequestHandler_wrap idle_device) = (hs, m', (n', st')) \<and>
    dm_inner m' = Map.empty \<and> ServerHandlerMap_get (UnitId 4) hs = None \<and> ServerHandlerMap_get (UnitId 3) hs \<noteq> None"
proof -
  let ?m = "\<lparr>dm_inner = [3 \<mapsto> idle_device, 7 \<mapsto> idle_device]\<rparr>" and ?es = "[(7, idle_device), (3, idle_device)]"
  have d: "drains ?m ?es" by (auto simp: drains_def fun_eq_iff)
  obtain hs m' n' st' where run:
    "DeviceMap_drain_and_convert ?es ?m (0, \<lambda>_. RequestHandler_wrap idle_device) = (hs, m', (n', st'))"
    by (metis surj_pair)
  have "dm_inner ?m 4 = None" "dm_inner ?m 3 = Some idle_device" by simp_all
  then show ?thesis using run device_map_becomes_handlers [OF d run] by blast
qed

section \<open>Transactions\<close>

text \<open>
  C33: A transaction on the database of a device is applied exactly once and is what the server
  answers from afterwards: the next read of any of the four tables at that device is answered from
  the database the transaction left, and no other device is touched.
\<close>

theorem update_database_visible:
  assumes "ServerHandlerMap_get (UnitId u) (fs_map sv) = Some r" and "\<not> mx_poisoned (st r)"
  shows "\<exists>st' h'. server_update_database (Some sv) u transaction st = (Ok (), st') \<and>
    st' = st(r := RequestHandler_wrap h') \<and>
    h' = (mx_value (st r))\<lparr>rw_database := transaction (rw_database (mx_value (st r)))\<rparr> \<and>
    serve_request wrapper_handler (fs_map sv) (Dest_UnitId (UnitId u)) (Req_ReadCoils b) st' =
      (Some (table_reply ReadCoils bool_slice_bytes (db_coils (rw_database h')) (rbr_inner b)), st') \<and>
    serve_request wrapper_handler (fs_map sv) (Dest_UnitId (UnitId u)) (Req_ReadDiscreteInputs b) st' =
      (Some (table_reply ReadDiscreteInputs bool_slice_bytes (db_discrete_input (rw_database h')) (rbr_inner b)), st') \<and>
    serve_request wrapper_handler (fs_map sv) (Dest_UnitId (UnitId u)) (Req_ReadHoldingRegisters w) st' =
      (Some (table_reply ReadHoldingRegisters u16_slice_bytes (db_holding_registers (rw_database h')) (rrr_inner w)), st') \<and>
    serve_request wrapper_handler (fs_map sv) (Dest_UnitId (UnitId u)) (Req_ReadInputRegisters w) st' =
      (Some (table_reply ReadInputRegisters u16_slice_bytes (db_input_registers (rw_database h')) (rrr_inner w)), st')"
  using assms
  by (simp add: server_update_database_def with_lock_def serve_request_def serve_unit_def answer_wrapper_read
      RequestHandler_wrap_def ServerHandlerMap_get_def bt_get_def del: answer.simps)

theorem update_database_visible_witness:
  "\<exists>st'. server_update_database
      (Some \<lparr>fs_task = ServerTask_new 1 ServerHandlerMap_new Handler_Tcp Filter_Any DecodeLevel_default,
             fs_map = ServerHandlerMap_single (UnitId 9) 0\<rparr>) 9 (\<lambda>d. d\<lparr>db_coils := [4 \<mapsto> True]\<rparr>)
      (\<lambda>_. RequestHandler_wrap idle_device) = (Ok (), st') \<and>
    serve_request wrapper_handler (ServerHandlerMap_single (UnitId 9) 0) (Dest_UnitId (UnitId 9))
      (Req_ReadCoils (ReadBitsRange \<lparr>ar_start = 4, ar_count = 1\<rparr>)) st' = (Some [1, 1, 1], st')"
proof -
  let ?sv = "\<lparr>fs_task = ServerTask_new 1 ServerHandlerMap_new Handler_Tcp Filter_Any DecodeLevel_default,
    fs_map = ServerHandlerMap_single (UnitId 9) 0\<rparr>"
  have "ServerHandlerMap_get (UnitId 9) (fs_map ?sv) = Some 0"
    "\<not> mx_poisoned ((\<lambda>_. RequestHandler_wrap idle_device) (0 :: nat))"
    by (simp_all add: ServerHandlerMap_single_def ServerHandlerMap_get_def bt_get_def RequestHandler_wrap_def)
  from update_database_visible [OF this, where transaction = "\<lambda>d. d\<lparr>db_coils := [4 \<mapsto> True]\<rparr>"
      and b = "ReadBitsRange \<lparr>ar_start = 4, ar_count = 1\<rparr>"]
  show ?thesis
    by (auto simp: table_reply_def range_addresses_def bool_slice_bytes_def packed_bits_def)
qed

section \<open>Filters and the servers they guard\<close>

fun address_filter_add_all :: "(string \<Rightarrow> IpAddr option) \<Rightarrow> string list \<Rightarrow> FfiAddressFilter option \<Rightarrow> FfiAddressFilter option" where
  "address_filter_add_all parse_ip [] f = f"
| "address_filter_add_all parse_ip (t # ts) f =
     address_filter_add_all parse_ip ts (snd (address_filter_add parse_ip t f))"

lemma add_all_AnyOf:
  "address_filter_add_all parse_ip ts (Some (FfiFilter_AnyOf addrs)) =
     Some (FfiFilter_AnyOf (addrs \<union> {a. \<exists>t \<in> set ts. parse_ip t = Some a}))"
  by (induction ts arbitrary: addrs) (auto simp: address_filter_add_def split: option.splits)

lemma add_all_other:
  "(\<And>addrs. f \<noteq> FfiFilter_AnyOf addrs) \<Longrightarrow> address_filter_add_all parse_ip ts (Some f) = Some f"
  by (induction ts) (auto simp: address_filter_add_def split: option.splits FfiAddressFilter.splits)

text \<open>
  C37: What a filter admits is what its strings say. A filter made from an IP address admits
  that address and every address that was added to it, and nothing else; strings that are not
  addresses add nothing. A filter made from a pattern admits what the pattern matches, whatever was
  added. A string that is neither is refused with the error for an invalid address.
\<close>

theorem filter_admits:
  "(case address_filter_create parse_ip s of
      Ok f \<Rightarrow> \<exists>f'. address_filter_add_all parse_ip ts (Some f) = Some f' \<and>
        (\<forall>a. AddressFilter_matches a (AddressFilter_from_ffi f') \<longleftrightarrow>
          (case parse_ip s of
             Some x \<Rightarrow> a = x \<or> (\<exists>t \<in> set ts. parse_ip t = Some a)
           | None \<Rightarrow> \<exists>w. WildcardIPv4_from_str s = Ok w \<and> WildcardIPv4_matches a w))
    | Err e \<Rightarrow> e = InvalidIpAddress \<and> parse_ip s = None \<and> is_Err (WildcardIPv4_from_str s)
    | Panic \<Rightarrow> parse_ip s = None \<and> WildcardIPv4_from_str s = Panic)"
proof (cases "parse_ip s")
  case None
  then show ?thesis
    by (cases "WildcardIPv4_from_str s")
      (auto simp: address_filter_create_def parse_address_filter_def add_all_other conv_defs)
next
  case (Some x)
  then show ?thesis
    by (auto simp: address_filter_create_def parse_address_filter_def add_all_AnyOf)
qed

lemma create_with_Ok:
  assumes "create_with env endpoints spawn s = (Ok sv, s')"
  shows "spawn (fs_map sv) = Ok (fs_task sv)"
  using assms by (auto simp: create_with_def bind_result_eq_Ok split: prod.splits)

lemma server_create_tcp_Ok:
  assumes "server_create_tcp parse_ip env ip port flt ms level s = (Ok sv, s')"
  shows "\<exists>f. flt = Some f \<and> fs_task sv =
    ServerTask_new (unat ms) (fs_map sv) Handler_Tcp (AddressFilter_from_ffi f) (DecodeLevel_from_ffi level)"
  using assms
  by (auto simp: server_create_tcp_def bnd_eq_Ok lift_result_def not_null_def spawn_tcp_server_task_def bind_result_eq_Ok
      split: option.splits dest!: create_with_Ok)

lemma server_create_tls_Ok:
  assumes "server_create_tls_impl parse_ip env ip port flt ms cfg auth level s = (Ok sv, s')"
  shows "\<exists>f. flt = Some f \<and> fs_task sv =
    ServerTask_new (unat ms) (fs_map sv) (Handler_Tls (map_option AuthorizationHandlerWrapper auth))
      (if auth = None then Filter_Any else AddressFilter_from_ffi f) (DecodeLevel_from_ffi level)"
  using assms
  by (auto simp: server_create_tls_impl_def bnd_eq_Ok lift_result_def not_null_def spawn_tls_server_task_def
      spawn_tls_server_task_with_authz_def spawn_tls_server_task_impl_def bind_result_eq_Ok
      split: option.splits dest!: create_with_Ok)

text \<open>A TLS server without authorization callbacks starts a session for any address.\<close>

lemma tls_without_authz_ignores_filter:
  assumes "server_create_tls parse_ip env ip port flt ms cfg level s = (Ok sv, s')"
  shows "ServerTask_step P (Ev_Accept (Ok addr)) (fs_task sv) = ServerTask_handle P addr (fs_task sv)"
  using server_create_tls_Ok [OF assms [unfolded server_create_tls_def]] by (auto simp: ServerTask_new_def)

lemma server_run_spawned:
  assumes "length es < 2 ^ 128" and "ServerTask_run P es (ServerTask_new n handlers ch flt decode) = (r, s)"
  shows "length (tk_sessions (sv_tracker s)) \<le> max 1 n \<and> (\<forall>x \<in> set (sv_spawned s). AddressFilter_matches (sp_addr x) flt)"
proof -
  let ?s = "ServerTask_new n handlers ch flt decode"
  have init: "sv_filter ?s = flt" "tk_id (sv_tracker ?s) = 0" "tk_max_sessions (sv_tracker ?s) = max 1 n"
    by (simp_all add: ServerTask_new_def SessionTracker_new_def Let_def max_def)
  show ?thesis
    using server_run_ok [OF server_new_ok _ assms(2)] assms(1) init by (auto simp: server_ok_def tracker_ok_def)
qed

text \<open>
  C36: A TCP server of the C bindings, and a TLS server with authorization callbacks, honours the
  filter and the limit it was created with: whatever happens to it, it never has more live sessions
  than the limit, and no session is started for an address that the filter does not admit.
\<close>

theorem created_server_honours_filter:
  assumes "server_create_tcp parse_ip env ip port (Some f) ms level s = (Ok sv, s') \<or>
      server_create_tls_with_authz parse_ip env ip port (Some f) ms cfg auth level s = (Ok sv, s')"
    and "length es < 2 ^ 128" and "ServerTask_run P es (fs_task sv) = (r, t)"
  shows "length (tk_sessions (sv_tracker t)) \<le> max 1 (unat ms) \<and>
    (\<forall>x \<in> set (sv_spawned t). AddressFilter_matches (sp_addr x) (AddressFilter_from_ffi f))"
proof -
  obtain ch where "fs_task sv = ServerTask_new (unat ms) (fs_map sv) ch (AddressFilter_from_ffi f) (DecodeLevel_from_ffi level)"
    using assms(1)
  proof
    assume c: "server_create_tcp parse_ip env ip port (Some f) ms level s = (Ok sv, s')"
    then show ?thesis using that server_create_tcp_Ok [OF c] by auto
  next
    assume c: "server_create_tls_with_authz parse_ip env ip port (Some f) ms cfg auth level s = (Ok sv, s')"
    then show ?thesis using that server_create_tls_Ok [OF c [unfolded server_create_tls_with_authz_def]] by auto
  qed
  then show ?thesis using server_run_spawned [OF assms(2)] assms(3) by metis
qed

theorem created_server_honours_filter_witness:
  "\<exists>sv s' r t. server_create_tcp (\<lambda>s. if s = ''h'' then Some (V4 127 0 0 1) else None)
      \<lparr>ce_runtime = True, ce_drained = [], ce_block_on = Ok (), ce_bind = Ok ()\<rparr> (Some ''h'') 502
      (Some (FfiFilter_AnyOf {V4 10 0 0 1})) 4 \<lparr>fdl_app = FfiApp_Nothing, fdl_frame = FfiFrame_Nothing, fdl_physical = FfiPhys_Nothing\<rparr>
      (Some device_map_create, (0, \<lambda>_. RequestHandler_wrap idle_device)) = (Ok sv, s') \<and>
    ServerTask_run (list_platform True) [Ev_Accept (Ok (V4 10 0 0 2)), Ev_Accept (Ok (V4 10 0 0 1))] (fs_task sv) = (r, t) \<and>
    (\<forall>x \<in> set (sv_spawned t). sp_addr x = V4 10 0 0 1)"
proof -
  let ?create = "server_create_tcp (\<lambda>s. if s = ''h'' then Some (V4 127 0 0 1) else None)
      \<lparr>ce_runtime = True, ce_drained = [], ce_block_on = Ok (), ce_bind = Ok ()\<rparr> (Some ''h'') 502
      (Some (FfiFilter_AnyOf {V4 10 0 0 1})) 4 \<lparr>fdl_app = FfiApp_Nothing, fdl_frame = FfiFrame_Nothing, fdl_physical = FfiPhys_Nothing\<rparr>
      (Some device_map_create, (0, \<lambda>_. RequestHandler_wrap idle_device))"
  obtain sv s' where c: "?create = (Ok sv, s')"
    by (simp add: server_create_tcp_def seq_simps not_null_def get_socket_addr_def create_with_def
        DeviceMap_drain_and_convert_def spawn_tcp_server_task_def)
  obtain r t where run: "ServerTask_run (list_platform True)
      [Ev_Accept (Ok (V4 10 0 0 2)), Ev_Accept (Ok (V4 10 0 0 1))] (fs_task sv) = (r, t)" by (meson surj_pair)
  have "\<forall>x \<in> set (sv_spawned t). AddressFilter_matches (sp_addr x) (AddressFilter_from_ffi (FfiFilter_AnyOf {V4 10 0 0 1}))"
    by (rule created_server_honours_filter [OF disjI1 [OF c] _ run, THEN conjunct2]) simp
  then have "\<forall>x \<in> set (sv_spawned t). sp_addr x = V4 10 0 0 1" by simp
  then show ?thesis using c run by blast
qed

end
