(* ===== verification/Tls.thy ===== *)
theory Tls
  imports FfiClient FfiServer
begin

text \<open>
  The TLS configurations, \<open>rodbus/src/tcp/tls\<close>, and how the bindings build them. The
  crates \<open>sfio_rustls_config\<close> and \<open>rustls\<close> are the record \<open>rustls\<close>: the builder of
  protocol versions, the check of a server name and the four functions that load certificates.
  A path is a string.
\<close>

section \<open>Configurations\<close>

datatype MinTlsVersion = V1_2 | V1_3

datatype CertificateMode = AuthorityBased | SelfSigned

datatype TlsError =
    Tls_InvalidPeerCertificate ErrorKind
  | Tls_InvalidLocalCertificate ErrorKind
  | Tls_InvalidPrivateKey ErrorKind
  | Tls_InvalidDnsName
  | Tls_BadConfig string

type_synonym ('pv, 'cfg) load_certificates =
  "'pv \<Rightarrow> string \<Rightarrow> string \<Rightarrow> string \<Rightarrow> string option \<Rightarrow> ('cfg, string) result"

record ('pv, 'nv, 'sn, 'cc, 'sc) rustls =
  pv_v12_only :: 'pv
  pv_new :: 'pv
  pv_enable_v12 :: "'pv \<Rightarrow> 'pv"
  pv_enable_v13 :: "'pv \<Rightarrow> 'pv"
  DisableNameVerification :: 'nv
  SanOrCommonName :: 'nv
  ServerName_try_from :: "string \<Rightarrow> ('sn, unit) result"
  ServerName_unspecified :: 'sn
  client_authority :: "'nv \<Rightarrow> ('pv, 'cc) load_certificates"
  client_self_signed :: "('pv, 'cc) load_certificates"
  server_authority :: "('pv, 'sc) load_certificates"
  server_self_signed :: "('pv, 'sc) load_certificates"

definition TlsError_from_config :: "string \<Rightarrow> TlsError" where
  [conv_defs]: "TlsError_from_config err = Tls_BadConfig err"

definition TlsError_from_InvalidDnsNameError :: "unit \<Rightarrow> TlsError" where
  [conv_defs]: "TlsError_from_InvalidDnsNameError x = Tls_InvalidDnsName"

fun ProtocolVersions_from :: "('pv, 'nv, 'sn, 'cc, 'sc) rustls \<Rightarrow> MinTlsVersion \<Rightarrow> 'pv" where
  "ProtocolVersions_from R V1_2 = pv_v12_only R"
| "ProtocolVersions_from R V1_3 = pv_enable_v13 R (pv_enable_v12 R (pv_new R))"

record ('sn, 'cc) TlsClientConfig =
  tls_server_name :: 'sn
  tls_client_config :: 'cc

definition TlsClientConfig_full_pki ::
    "('pv, 'nv, 'sn, 'cc, 'sc) rustls \<Rightarrow> string option \<Rightarrow> string \<Rightarrow> string \<Rightarrow> string \<Rightarrow> string option \<Rightarrow>
     MinTlsVersion \<Rightarrow> (('sn, 'cc) TlsClientConfig, TlsError) result" where
  "TlsClientConfig_full_pki R server_subject_name peer local key password min_tls_version =
     bind_result
       (case server_subject_name of
          None \<Rightarrow> Ok (DisableNameVerification R, ServerName_unspecified R)
        | Some x \<Rightarrow>
            bind_result (map_err TlsError_from_InvalidDnsNameError (ServerName_try_from R x)) (\<lambda>server_name.
              Ok (SanOrCommonName R, server_name)))
       (\<lambda>(name_verifier, server_name).
          bind_result (map_err TlsError_from_config (client_authority R name_verifier
              (ProtocolVersions_from R min_tls_version) peer local key password)) (\<lambda>config.
            Ok \<lparr>tls_server_name = server_name, tls_client_config = config\<rparr>))"

definition TlsClientConfig_self_signed ::
    "('pv, 'nv, 'sn, 'cc, 'sc) rustls \<Rightarrow> string \<Rightarrow> string \<Rightarrow> string \<Rightarrow> string option \<Rightarrow> MinTlsVersion \<Rightarrow>
     (('sn, 'cc) TlsClientConfig, TlsError) result" where
  "TlsClientConfig_self_signed R peer local key password min_tls_version =
     bind_result (map_err TlsError_from_config (client_self_signed R (ProtocolVersions_from R min_tls_version)
         peer local key password)) (\<lambda>config.
       Ok \<lparr>tls_server_name = ServerName_unspecified R, tls_client_config = config\<rparr>)"

definition TlsClientConfig_new ::
    "('pv, 'nv, 'sn, 'cc, 'sc) rustls \<Rightarrow> string \<Rightarrow> string \<Rightarrow> string \<Rightarrow> string \<Rightarrow> string option \<Rightarrow> MinTlsVersion \<Rightarrow>
     CertificateMode \<Rightarrow> (('sn, 'cc) TlsClientConfig, TlsError) result" where
  "TlsClientConfig_new R server_name peer local key password min_tls_version certificate_mode = (case certificate_mode of
      AuthorityBased \<Rightarrow> TlsClientConfig_full_pki R (Some server_name) peer local key password min_tls_version
    | SelfSigned \<Rightarrow> TlsClientConfig_self_signed R peer local key password min_tls_version)"

text \<open>The server never asks for the name of a client.\<close>

definition TlsServerConfig_new ::
    "('pv, 'nv, 'sn, 'cc, 'sc) rustls \<Rightarrow> string \<Rightarrow> string \<Rightarrow> string \<Rightarrow> string option \<Rightarrow> MinTlsVersion \<Rightarrow>
     CertificateMode \<Rightarrow> ('sc, TlsError) result" where
  "TlsServerConfig_new R peer local key password min_tls_version certificate_mode =
     map_err TlsError_from_config (case certificate_mode of
         SelfSigned \<Rightarrow> server_self_signed R (ProtocolVersions_from R min_tls_version) peer local key password
       | AuthorityBased \<Rightarrow> server_authority R (ProtocolVersions_from R min_tls_version) peer local key password)"

section \<open>The bindings\<close>

datatype FfiMinTlsVersion = V12 | V13

datatype FfiCertificateMode = Ffi_AuthorityBased | Ffi_SelfSigned

fun MinTlsVersion_from_ffi :: "FfiMinTlsVersion \<Rightarrow> MinTlsVersion" where
  "MinTlsVersion_from_ffi V12 = V1_2"
| "MinTlsVersion_from_ffi V13 = V1_3"

fun CertificateMode_from_ffi :: "FfiCertificateMode \<Rightarrow> CertificateMode" where
  "CertificateMode_from_ffi Ffi_AuthorityBased = AuthorityBased"
| "CertificateMode_from_ffi Ffi_SelfSigned = SelfSigned"

fun ParamError_from_TlsError :: "TlsError \<Rightarrow> ParamError" where
  "ParamError_from_TlsError Tls_InvalidDnsName = InvalidDnsName"
| "ParamError_from_TlsError (Tls_InvalidPeerCertificate _) = InvalidPeerCertificate"
| "ParamError_from_TlsError (Tls_InvalidLocalCertificate _) = InvalidLocalCertificate"
| "ParamError_from_TlsError (Tls_InvalidPrivateKey _) = InvalidPrivateKey"
| "ParamError_from_TlsError (Tls_BadConfig _) = BadTlsConfig"

text \<open>A C string is \<open>None\<close> where it is not UTF-8. The empty password stands for none.\<close>

definition to_str :: "string option \<Rightarrow> (string, ParamError) result" where
  "to_str s = (case s of Some x \<Rightarrow> Ok x | None \<Rightarrow> Err InvalidUtf8)"

definition optional_password :: "string \<Rightarrow> string option" where
  "optional_password password = (if password = '''' then None else Some password)"

record FfiTlsClientConfig =
  ftc_dns_name :: "string option"
  ftc_peer_cert_path :: "string option"
  ftc_local_cert_path :: "string option"
  ftc_private_key_path :: "string option"
  ftc_password :: "string option"
  ftc_min_tls_version :: FfiMinTlsVersion
  ftc_certificate_mode :: FfiCertificateMode
  ftc_allow_server_name_wildcard :: bool

definition TlsClientConfig_try_from ::
    "('pv, 'nv, 'sn, 'cc, 'sc) rustls \<Rightarrow> FfiTlsClientConfig \<Rightarrow> (('sn, 'cc) TlsClientConfig, ParamError) result" where
  "TlsClientConfig_try_from R value =
     bind_result (to_str (ftc_password value)) (\<lambda>password.
     bind_result (to_str (ftc_peer_cert_path value)) (\<lambda>peer.
     bind_result (to_str (ftc_local_cert_path value)) (\<lambda>local.
     bind_result (to_str (ftc_private_key_path value)) (\<lambda>key.
       let version = MinTlsVersion_from_ffi (ftc_min_tls_version value) in
       case ftc_certificate_mode value of
         Ffi_AuthorityBased \<Rightarrow>
           bind_result (to_str (ftc_dns_name value)) (\<lambda>name.
             let expected_subject_name =
               (if ftc_allow_server_name_wildcard value \<and> name = ''*'' then None else Some name)
             in map_err ParamError_from_TlsError
                  (TlsClientConfig_full_pki R expected_subject_name peer local key (optional_password password) version))
       | Ffi_SelfSigned \<Rightarrow> map_err ParamError_from_TlsError
           (TlsClientConfig_self_signed R peer local key (optional_password password) version)))))"

text \<open>The task of a TLS channel is that of a TCP channel with the configuration for its handshakes.\<close>

definition create_tls_channel ::
    "(usize \<Rightarrow> (unit, 'e) result) \<Rightarrow> HostAddr \<Rightarrow> usize \<Rightarrow> 'r \<Rightarrow> ('sn, 'cc) TlsClientConfig \<Rightarrow> DecodeLevel \<Rightarrow>
     (HostAddr \<times> ('sn, 'cc) TlsClientConfig \<times> 'r TcpChannelTask, 'e) result" where
  "create_tls_channel mpsc host max_queued_requests connect_retry tls_config decode =
     bind_result (mpsc max_queued_requests) (\<lambda>_. Ok (host, tls_config, TcpChannelTask_new connect_retry decode))"

definition spawn_tls_channel ::
    "(usize \<Rightarrow> (unit, 'e) result) \<Rightarrow> HostAddr \<Rightarrow> usize \<Rightarrow> 'r \<Rightarrow> ('sn, 'cc) TlsClientConfig \<Rightarrow> DecodeLevel \<Rightarrow>
     (HostAddr \<times> ('sn, 'cc) TlsClientConfig \<times> 'r TcpChannelTask, 'e) result" where
  "spawn_tls_channel mpsc host max_queued_requests connect_retry tls_config decode =
     create_tls_channel mpsc host max_queued_requests connect_retry tls_config decode"

definition spawn_tls_client_task ::
    "(usize \<Rightarrow> (unit, 'e) result) \<Rightarrow> HostAddr \<Rightarrow> usize \<Rightarrow> 'r \<Rightarrow> ('sn, 'cc) TlsClientConfig \<Rightarrow> DecodeLevel \<Rightarrow>
     (HostAddr \<times> ('sn, 'cc) TlsClientConfig \<times> 'r TcpChannelTask, 'e) result" where
  "spawn_tls_client_task mpsc host max_queued_requests retry tls_config decode =
     spawn_tls_channel mpsc host max_queued_requests retry tls_config decode"

definition client_channel_create_tls ::
    "('pv, 'nv, 'sn, 'cc, 'sc) rustls \<Rightarrow> (usize \<Rightarrow> (unit, ParamError) result) \<Rightarrow> (string \<Rightarrow> IpAddr option) \<Rightarrow> unit option \<Rightarrow>
     string option \<Rightarrow> u16 \<Rightarrow> u16 \<Rightarrow> FfiRetryStrategy \<Rightarrow> FfiTlsClientConfig \<Rightarrow> FfiDecodeLevel \<Rightarrow>
     (HostAddr \<times> ('sn, 'cc) TlsClientConfig \<times> Doubling TcpChannelTask, ParamError) result" where
  "client_channel_create_tls R mpsc parse_ip runtime host port max_queued_requests retry tls_config decode_level =
     bind_result (not_null runtime) (\<lambda>_.
     bind_result (TlsClientConfig_try_from R tls_config) (\<lambda>config.
     bind_result (get_host_addr parse_ip host port) (\<lambda>addr.
       spawn_tls_client_task mpsc addr (unat max_queued_requests) (RetryStrategy_from_ffi retry) config
         (DecodeLevel_from_ffi decode_level))))"

text \<open>The strings of the server's configuration are read with replacement characters, so none is missing.\<close>

record FfiTlsServerConfig =
  fts_peer_cert_path :: string
  fts_local_cert_path :: string
  fts_private_key_path :: string
  fts_password :: string
  fts_min_tls_version :: FfiMinTlsVersion
  fts_certificate_mode :: FfiCertificateMode

definition server_tls_config ::
    "('pv, 'nv, 'sn, 'cc, 'sc) rustls \<Rightarrow> FfiTlsServerConfig \<Rightarrow> ('sc, ParamError) result" where
  "server_tls_config R c = map_err ParamError_from_TlsError
     (TlsServerConfig_new R (fts_peer_cert_path c) (fts_local_cert_path c) (fts_private_key_path c)
       (optional_password (fts_password c)) (MinTlsVersion_from_ffi (fts_min_tls_version c))
       (CertificateMode_from_ffi (fts_certificate_mode c)))"

text \<open>A serial server has no socket and no sessions; opening the port is left to its task.\<close>

definition server_create_rtu ::
    "'u create_env \<Rightarrow> string \<Rightarrow> SerialPortSettings \<Rightarrow> FfiRetryStrategy \<Rightarrow> FfiDecodeLevel \<Rightarrow>
     ('u create_state, (string \<times> SerialSettings \<times> (Doubling, 'u RequestHandlerWrapper) RtuServerTask) \<times> ServerHandlerMap,
      ParamError) se" where
  "server_create_rtu env path serial_params retry decode_level s =
     bnd (lift_result (if ce_runtime env then Ok () else Err NullParameter)) (\<lambda>_.
     bnd (lift_result (not_null (fst s))) (\<lambda>endpoints s'.
       case DeviceMap_drain_and_convert (ce_drained env) endpoints (snd s') of
         (handler_map, endpoints', hp) \<Rightarrow>
           (bind_result (map_err (\<lambda>_. ServerBindError)
                (spawn_rtu_server_task (RetryStrategy_from_ffi retry) handler_map (DecodeLevel_from_ffi decode_level) (snd hp)))
              (\<lambda>task. Ok ((path, SerialSettings_from_ffi serial_params, task), handler_map)),
            (Some endpoints', hp)))) s"

section \<open>What a configuration allows\<close>

text \<open>
  With the documented meaning of the version builder, a minimum of 1.3 lets 1.2 through and a minimum
  of 1.2 shuts 1.3 out.
\<close>

lemma min_version_inverted:
  assumes "allowed (pv_v12_only R) = {V1_2}" and "allowed (pv_new R) = {}"
    and "\<And>v. allowed (pv_enable_v12 R v) = insert V1_2 (allowed v)" and "\<And>v. allowed (pv_enable_v13 R v) = insert V1_3 (allowed v)"
  shows "V1_2 \<in> allowed (ProtocolVersions_from R V1_3)" and "V1_3 \<notin> allowed (ProtocolVersions_from R V1_2)"
  using assms by simp_all

text \<open>
  The name of the server is checked unless the caller has allowed the wildcard and asked for it:
  without that, a configuration of the authority mode is built for the given name, or not at all.
\<close>

lemma authority_checks_name:
  assumes "TlsClientConfig_try_from R c = Ok cfg" and "ftc_certificate_mode c = Ffi_AuthorityBased"
    and "ftc_dns_name c = Some nm" and "\<not> (ftc_allow_server_name_wildcard c \<and> nm = ''*'')"
  shows "ServerName_try_from R nm = Ok (tls_server_name cfg) \<and>
    (\<exists>v peer local key pw. client_authority R (SanOrCommonName R) v peer local key pw = Ok (tls_client_config cfg))"
  using assms
  by (auto simp: TlsClientConfig_try_from_def TlsClientConfig_full_pki_def to_str_def Let_def bind_result_eq_Ok
      split: option.splits if_splits) blast+

text \<open>A serial server that is created serves the devices of the map, with a fresh session.\<close>

lemma created_rtu_server:
  assumes "server_create_rtu env path settings retry level (Some m, hp) = (Ok ((path', settings', task), handlers), s')"
  shows "DeviceMap_drain_and_convert (ce_drained env) m hp = (handlers, the (fst s'), snd s')"
    and "st_handlers (ru_session task) = handlers" and "st_auth (ru_session task) = Auth_None"
    and "ru_store task = snd (snd s')"
  using assms
  by (auto simp: server_create_rtu_def bnd_def lift_result_def not_null_def spawn_rtu_server_task_def SessionTask_new_def
      split: prod.splits if_splits)

end
