(* ===== verification/Progress.thy ===== *)
theory Progress
  imports EndToEnd
begin

text \<open>
  Liveness of the two session loops. The bytes that a reader still has to look at, in its buffer
  and on the stream, bound the number of frames it can return, so the loop that waits for a
  response, which skips frames of other transactions, and the loop of a server session end.
\<close>

section \<open>Every frame uses up input\<close>

text \<open>Twice the unread bytes, and one more in the middle of a frame, where the header is gone already.\<close>

fun busy :: "FrameParser \<Rightarrow> nat" where
  "busy (Parser_Tcp p) = (case mp_state p of Mbap_Begin \<Rightarrow> 0 | _ \<Rightarrow> 1)"
| "busy (Parser_Rtu p) = (case rp_state p of Rtu_Start \<Rightarrow> 0 | _ \<Rightarrow> 1)"

definition load :: "FrameParser \<Rightarrow> ReadBuffer \<Rightarrow> nat" where
  "load p rb = 2 * length (rb_view rb) + busy p"

text \<open>The buffer holds at most \<open>k\<close> bytes: kept by everything that only consumes.\<close>

definition holds_at_most :: "nat \<Rightarrow> ReadBuffer \<Rightarrow> bool" where
  "holds_at_most k rb \<longleftrightarrow> rb_wf rb \<and> length (rb_view rb) \<le> k"

lemma keeps_at_most [intro]:
  "keeps (holds_at_most k) (ReadBuffer_read n)" "keeps (holds_at_most k) ReadBuffer_read_u8"
  "keeps (holds_at_most k) (ReadBuffer_peek_at i)"
  by (auto simp: keeps_def holds_at_most_def ReadBuffer_read_def ReadBuffer_read_u8_def ReadBuffer_peek_at_def Let_def
      rb_wf_def rb_view_def ReadBuffer_len_def ReadBuffer_is_empty_def)

lemma keeps_at_most_u16 [intro]:
  "keeps (holds_at_most k) ReadBuffer_read_u16_be" "keeps (holds_at_most k) ReadBuffer_read_u16_le"
  unfolding ReadBuffer_read_u16_be_def ReadBuffer_read_u16_le_def by (intro keeps_bnd keeps_ret keeps_at_most)+

lemma read_u8_consumes:
  assumes "rb_wf rb" and "buf_u8 rb = (Ok b, rb')"
  shows "rb_wf rb' \<and> length (rb_view rb') + 1 = length (rb_view rb)"
  using assms
  by (auto simp: conv_err_def ReadBuffer_read_u8_def rb_wf_def rb_view_def ReadBuffer_is_empty_def split: if_splits)

lemma keeps_header_body:
  "keeps (holds_at_most k) MbapParser_parse_header" "keeps (holds_at_most k) (MbapParser_parse_body h n)"
  unfolding MbapParser_parse_header_def MbapParser_parse_body_def Let_def
  by (intro keeps_bnd keeps_conv_err keeps_at_most keeps_at_most_u16 keeps_ret; auto)+

lemma mbap_at_header_at_most:
  assumes "holds_at_most k rb" and "MbapParser_parse_at_header h n (p, rb) = (x, (p', rb'))"
  shows "holds_at_most k rb'"
  using assms keepsD [OF keeps_header_body(2) assms(1)]
  by (auto simp: MbapParser_parse_at_header_def split: if_splits prod.splits result.splits)

lemma mbap_at_most:
  assumes "holds_at_most k rb" and "MbapParser_parse (p, rb) = (x, (p', rb'))"
  shows "holds_at_most k rb'"
proof -
  obtain y rb1 where y: "MbapParser_parse_header rb = (y, rb1)" by fastforce
  note rb1 = keepsD [OF keeps_header_body(1) assms(1) y]
  show ?thesis
    using assms y rb1
    by (auto simp: MbapParser_parse_def dest: mbap_at_header_at_most split: if_splits MbapParseState.splits result.splits)
qed

lemma rtu_full_body_at_most:
  assumes "holds_at_most k rb" and "RtuParser_parse_full_body P d n (p, rb) = (x, (p', rb'))"
  shows "holds_at_most k rb'"
proof -
  define m where "m = bnd (buf_read (FUNCTION_CODE_LENGTH + n)) (\<lambda>data.
       let frame = snd (Frame_set data (Frame_new (FrameHeader_new_rtu_header d))) in
       bnd buf_u16_le (\<lambda>received_crc.
         let expected_crc = crc_finalize P (crc_update P (Frame_payload frame)
               (crc_update P [FrameDestination_value d] (crc_digest P)))
         in if received_crc \<noteq> expected_crc
            then fail (BadFrame (CrcValidationFailure received_crc expected_crc))
            else ret frame))"
  have "keeps (holds_at_most k) m"
    unfolding Let_def m_def by (intro keeps_bnd keeps_conv_err keeps_at_most keeps_at_most_u16) simp
  from keepsD [OF this assms(1)] show ?thesis
    using assms unfolding RtuParser_parse_full_body_def m_def [symmetric]
    by (auto split: if_splits result.splits prod.splits)
qed

lemma peek_same: "buf_peek i rb = (y, rb') \<Longrightarrow> rb' = rb"
  by (auto simp: conv_err_def ReadBuffer_peek_at_def Let_def split: if_splits)

lemma rtu_to_offset_at_most:
  assumes "holds_at_most k rb" and "RtuParser_parse_to_offset P d n (p, rb) = (x, (p', rb'))"
  shows "holds_at_most k rb'"
  using assms
  by (auto simp: RtuParser_parse_to_offset_def Let_def dest!: peek_same dest: rtu_full_body_at_most
      split: if_splits prod.splits result.splits)

lemma rtu_at_most:
  assumes "holds_at_most k rb" and "RtuParser_parse P (p, rb) = (x, (p', rb'))"
  shows "holds_at_most k rb'"
proof -
  obtain y rb1 where y: "buf_u8 rb = (y, rb1)" by fastforce
  have "holds_at_most k rb1" using keepsD [OF keeps_conv_err [OF keeps_at_most(2)] assms(1) y] .
  then show ?thesis
    using assms y
    by (auto simp: RtuParser_parse_def RtuParser_parse_start_def Let_def
        dest!: peek_same dest: rtu_full_body_at_most rtu_to_offset_at_most
        split: if_splits prod.splits result.splits RtuParseState.splits LengthMode.splits)
qed

lemma FrameParser_at_most:
  assumes "holds_at_most k rb" and "FrameParser_parse P (p, rb) = (x, (p', rb'))"
  shows "holds_at_most k rb'"
  using assms by (cases p) (auto dest: mbap_at_most rtu_at_most split: prod.splits)

lemma mbap_at_header_load:
  assumes "rb_wf rb" and "MbapParser_parse_at_header h n (p, rb) = (Ok x, (p', rb'))" and "mp_state p = Mbap_Header h n"
  shows "load (Parser_Tcp p') rb' \<le> load (Parser_Tcp p) rb \<and> (x \<noteq> None \<longrightarrow> load (Parser_Tcp p') rb' < load (Parser_Tcp p) rb)"
proof -
  have "length (rb_view rb') \<le> length (rb_view rb)"
    using mbap_at_header_at_most [OF _ assms(2), of "length (rb_view rb)"] assms(1) by (simp add: holds_at_most_def)
  then show ?thesis
    using assms by (auto simp: MbapParser_parse_at_header_def load_def split: if_splits prod.splits result.splits)
qed

lemma mbap_load:
  assumes "rb_wf rb" and "MbapParser_parse (p, rb) = (Ok x, (p', rb'))"
  shows "load (Parser_Tcp p') rb' \<le> load (Parser_Tcp p) rb \<and> (x \<noteq> None \<longrightarrow> load (Parser_Tcp p') rb' < load (Parser_Tcp p) rb)"
proof (cases "mp_state p")
  case (Mbap_Header h n)
  then show ?thesis using assms mbap_at_header_load by (auto simp: MbapParser_parse_def)
next
  case Mbap_Begin
  show ?thesis
  proof (cases "ReadBuffer_len rb < tcp_HEADER_LENGTH")
    case False
    then have "7 \<le> length (rb_view rb)" using assms(1) by (simp add: length_rb_view conv_defs)
    then obtain t1 t2 p1 p2 l1 l2 u rest where v: "rb_view rb = t1 # t2 # p1 # p2 # l1 # l2 # u # rest"
      by (auto simp: numeral_eq_Suc Suc_le_length_iff)
    obtain y where y: "MbapParser_parse_header rb = (y, rb_skip 7 rb)"
      using MbapParser_parse_header_eq [OF assms(1) v] by simp
    obtain h n where h: "y = Ok (h, n)" using assms(2) Mbap_Begin False y by (cases y) (auto simp: MbapParser_parse_def)
    let ?p = "p\<lparr>mp_state := Mbap_Header h n\<rparr>"
    have skip: "rb_wf (rb_skip 7 rb)" "load (Parser_Tcp ?p) (rb_skip 7 rb) < load (Parser_Tcp p) rb"
      using rb_skip_props [OF assms(1), of 7] v Mbap_Begin by (simp_all add: load_def)
    have "MbapParser_parse_at_header h n (?p, rb_skip 7 rb) = (Ok x, (p', rb'))"
      using assms(2) Mbap_Begin False y h by (simp add: MbapParser_parse_def)
    from mbap_at_header_load [OF skip(1) this] skip(2) show ?thesis by auto
  qed (use assms Mbap_Begin in \<open>simp add: MbapParser_parse_def\<close>)
qed

lemma rtu_full_body_load:
  assumes "rb_wf rb" and "RtuParser_parse_full_body P d n (p, rb) = (Ok x, (p', rb'))" and "busy (Parser_Rtu p) = 1"
  shows "load (Parser_Rtu p') rb' \<le> load (Parser_Rtu p) rb \<and> (x \<noteq> None \<longrightarrow> load (Parser_Rtu p') rb' < load (Parser_Rtu p) rb)"
proof -
  have "length (rb_view rb') \<le> length (rb_view rb)"
    using rtu_full_body_at_most [OF _ assms(2), of "length (rb_view rb)"] assms(1) by (simp add: holds_at_most_def)
  then show ?thesis
    using assms by (auto simp: RtuParser_parse_full_body_def load_def Let_def split: if_splits result.splits prod.splits)
qed

lemma rtu_to_offset_load:
  assumes "rb_wf rb" and "RtuParser_parse_to_offset P d n (p, rb) = (Ok x, (p', rb'))" and "busy (Parser_Rtu p) = 1"
  shows "load (Parser_Rtu p') rb' \<le> load (Parser_Rtu p) rb \<and> (x \<noteq> None \<longrightarrow> load (Parser_Rtu p') rb' < load (Parser_Rtu p) rb)"
proof (cases "ReadBuffer_len rb < FUNCTION_CODE_LENGTH + n")
  case False
  obtain y rb1 where y: "buf_peek (FUNCTION_CODE_LENGTH + n - 1) rb = (y, rb1)" by fastforce
  note same = peek_same [OF y]
  obtain b where b: "y = Ok b" using assms(2) y False by (cases y) (auto simp: RtuParser_parse_to_offset_def)
  let ?p = "p\<lparr>rp_state := ReadFullBody d (n + unat b)\<rparr>"
  have "RtuParser_parse_full_body P d (n + unat b) (?p, rb) = (Ok x, (p', rb'))"
    using assms(2) y b same False by (simp add: RtuParser_parse_to_offset_def Let_def)
  from rtu_full_body_load [OF assms(1) this] assms(3) show ?thesis by (simp add: load_def)
qed (use assms in \<open>simp add: RtuParser_parse_to_offset_def\<close>)

lemma rtu_start_load:
  assumes "rb_wf rb" and "RtuParser_parse_start P (p, rb) = (Ok x, (p', rb'))" and "rp_state p = Rtu_Start"
  shows "load (Parser_Rtu p') rb' \<le> load (Parser_Rtu p) rb \<and> (x \<noteq> None \<longrightarrow> load (Parser_Rtu p') rb' < load (Parser_Rtu p) rb)"
proof (cases "ReadBuffer_len rb < 2")
  case False
  obtain y rb1 where y: "buf_u8 rb = (y, rb1)" by fastforce
  obtain b where b: "y = Ok b" using assms(2) y False by (cases y) (auto simp: RtuParser_parse_start_def)
  note rb1 = read_u8_consumes [OF assms(1) y [unfolded b]]
  obtain z rb2 where z: "buf_peek 0 rb1 = (z, rb2)" by fastforce
  note same = peek_same [OF z]
  obtain fc where fc: "z = Ok fc"
    using assms(2) y b z False by (cases z) (auto simp: RtuParser_parse_start_def Let_def)
  define d where "d = (if UnitId_new b = UnitId_broadcast then Broadcast else Dest_UnitId (UnitId_new b))"
  have run: "RtuParser_parse_start P (p, rb) = (case RtuParser_length_mode (rp_parser_type p) fc of
      Fixed len \<Rightarrow> RtuParser_parse_full_body P d len (p\<lparr>rp_state := ReadFullBody d len\<rparr>, rb1)
    | Offset offset \<Rightarrow> RtuParser_parse_to_offset P d offset (p\<lparr>rp_state := ReadToOffsetForLength d offset\<rparr>, rb1)
    | Unknown \<Rightarrow> (Err (BadFrame (UnknownFunctionCode fc)), (p, rb1)))"
    using False y b z fc same
    by (simp add: RtuParser_parse_start_def Let_def d_def split: LengthMode.split)
  have less: "load (Parser_Rtu (p\<lparr>rp_state := st\<rparr>)) rb1 < load (Parser_Rtu p) rb" for st
    using rb1 assms(3) by (cases st) (simp_all add: load_def)
  show ?thesis
  proof (cases "RtuParser_length_mode (rp_parser_type p) fc")
    case (Fixed len)
    then show ?thesis
      using rtu_full_body_load [of rb1 P d len "p\<lparr>rp_state := ReadFullBody d len\<rparr>" x p' rb']
        less [of "ReadFullBody d len"] assms(2) run rb1 by auto
  next
    case (Offset k)
    then show ?thesis
      using rtu_to_offset_load [of rb1 P d k "p\<lparr>rp_state := ReadToOffsetForLength d k\<rparr>" x p' rb']
        less [of "ReadToOffsetForLength d k"] assms(2) run rb1 by auto
  qed (use assms run in simp)
qed (use assms in \<open>simp add: RtuParser_parse_start_def\<close>)

lemma FrameParser_load:
  assumes "rb_wf rb" and "FrameParser_parse P (p, rb) = (Ok x, (p', rb'))"
  shows "load p' rb' \<le> load p rb \<and> (x \<noteq> None \<longrightarrow> load p' rb' < load p rb)"
proof (cases p)
  case (Parser_Tcp q)
  obtain y q' rb1 where "MbapParser_parse (q, rb) = (y, (q', rb1))" using prod_cases3 by blast
  then show ?thesis using assms Parser_Tcp mbap_load [OF assms(1), of q x q' rb1] by auto
next
  case (Parser_Rtu q)
  obtain y q' rb1 where y: "RtuParser_parse P (q, rb) = (y, (q', rb1))" using prod_cases3 by blast
  then have eqs: "y = Ok x" "p' = Parser_Rtu q'" "rb' = rb1" using assms(2) Parser_Rtu by auto
  show ?thesis
  proof (cases "rp_state q")
    case Rtu_Start
    then show ?thesis
      using rtu_start_load [OF assms(1), of P q x q' rb1] y eqs Parser_Rtu by (simp add: RtuParser_parse_def)
  next
    case (ReadToOffsetForLength d n)
    then show ?thesis
      using rtu_to_offset_load [OF assms(1), of P d n q x q' rb1] y eqs Parser_Rtu by (simp add: RtuParser_parse_def)
  next
    case (ReadFullBody d n)
    then show ?thesis
      using rtu_full_body_load [OF assms(1), of P d n q x q' rb1] y eqs Parser_Rtu by (simp add: RtuParser_parse_def)
  qed
qed

section \<open>Every call of the reader\<close>

text \<open>The bytes still to come; nothing counts after the end of the stream.\<close>

fun unread :: "segment list \<Rightarrow> nat" where
  "unread (Data bs # segs) = length bs + unread segs"
| "unread _ = 0"

fun proper :: "segment list \<Rightarrow> bool" where
  "proper (Data bs # segs) \<longleftrightarrow> bs \<noteq> [] \<and> proper segs"
| "proper _ \<longleftrightarrow> True"

context byte_stream
begin

lemma read_some_unread:
  assumes "rb_wf rb" and "proper (incoming io)" and "ReadBuffer_read_some P rb io = (r, rb', io')"
    and "r = Pending \<or> r = Ready (Ok n)"
  shows "proper (incoming io') \<and> length (rb_view rb') + unread (incoming io') = length (rb_view rb) + unread (incoming io)"
proof -
  let ?rb = "ReadBuffer_rewind rb"
  let ?cap = "length (rb_buffer ?rb) - rb_end ?rb"
  note rw = ReadBuffer_rewind_props [OF assms(1)]
  note wf = read_some_wf [OF assms(1,3)]
  have no: "\<not> length (rb_buffer ?rb) < rb_end ?rb" using rw(1) by (simp add: rb_wf_def)
  obtain y io1 where y: "io_read P ?cap io = (y, io1)" by fastforce
  have io1: "io' = io1" "r = Pending \<longleftrightarrow> y = Pending" "\<And>bs. y = Ready (Ok bs) \<Longrightarrow> n = length bs \<and> bs \<noteq> []"
    using assms(3,4) y no by (auto simp: ReadBuffer_read_some_def Let_def split: poll.splits result.splits if_splits)
  have ok: "y = Pending \<or> (\<exists>bs. y = Ready (Ok bs))"
    using assms(3,4) y no by (auto simp: ReadBuffer_read_some_def Let_def split: poll.splits result.splits if_splits)
  show ?thesis
  proof (cases "incoming io")
    case Nil
    then show ?thesis using io_read_Nil [OF Nil, of ?cap] y io1 wf by auto
  next
    case (Cons seg rest)
    show ?thesis
    proof (cases seg)
      case (Data bs)
      then have d: "incoming io = Data bs # rest" "bs \<noteq> []" "proper rest" using assms(2) Cons by auto
      show ?thesis
      proof (cases "?cap = 0")
        case True
        then have "y \<noteq> Ready (Ok cs) \<or> cs = []" for cs using io_read_le [of ?cap io cs io1] y by auto
        then have "y = Pending" using ok io1(3) by blast
        then show ?thesis using io_read_Pending [of ?cap io io1] y io1(1,2) wf assms(2) by simp
      next
        case False
        then show ?thesis using io_read_Data [OF d(1,2), of ?cap] y d wf io1 assms(4) by (auto split: if_splits)
      qed
    next
      case Hangup
      then show ?thesis using io_read_Hangup [of io rest ?cap] Cons y io1(3) by auto
    next
      case (Fails k)
      then show ?thesis using io_read_Fails [of io k rest ?cap] Cons y ok by auto
    qed
  qed
qed

end

text \<open>The results after which the stream is still in use: all but an I/O error, which ends the session.\<close>

fun io_failure :: "RequestError \<Rightarrow> bool" where
  "io_failure (Io _) = True"
| "io_failure _ = False"

fun settled :: "('a, RequestError) result poll \<Rightarrow> bool" where
  "settled (Ready (Err e)) = (\<not> io_failure e)"
| "settled (Ready Panic) = False"
| "settled _ = True"

lemma io_failure_ends: "io_failure e \<Longrightarrow> \<exists>k. SessionError_from_request_err e = Some (IoError k)"
  by (cases e) simp_all

text \<open>An upper bound on the frames that a reader and its stream can still give.\<close>

definition pending_input :: "('io \<Rightarrow> segment list) \<Rightarrow> FramedReader \<Rightarrow> 'io \<Rightarrow> nat" where
  "pending_input inc r io = 2 * (length (rb_view (fdr_buffer r)) + unread (inc io)) + 1"

context byte_stream
begin

definition backlog :: "FramedReader \<Rightarrow> 'io \<Rightarrow> nat" where
  "backlog r io = load (fdr_parser r) (fdr_buffer r) + 2 * unread (incoming io)"

lemma next_frame_backlog:
  assumes "rb_wf (fdr_buffer r)" and "proper (incoming io)" and "FramedReader_next_frame P r io = Some (x, r', io')"
    and "settled x"
  shows "proper (incoming io') \<and> backlog r' io' \<le> backlog r io \<and> (\<forall>f. x = Ready (Ok f) \<longrightarrow> backlog r' io' < backlog r io)"
  using assms
proof (induction "parser_stage (fdr_parser r) * 261 + (260 - length (rb_view (fdr_buffer r)))"
    arbitrary: r io rule: less_induct)
  case less
  note step = FramedReader_next_frame.simps [of P r io]
  obtain y p rb where y: "FrameParser_parse P (fdr_parser r, fdr_buffer r) = (y, (p, rb))"
    using prod_cases3 by blast
  note prog = FrameParser_progress [OF less.prems(1) y]
  show ?case
  proof (cases y)
    case (Err e)
    have "length (rb_view rb) \<le> length (rb_view (fdr_buffer r))"
      using FrameParser_at_most [OF _ y, of "length (rb_view (fdr_buffer r))"] less.prems(1) by (simp add: holds_at_most_def)
    then have "load (FrameParser_reset p) rb \<le> load (fdr_parser r) (fdr_buffer r)"
      by (cases p) (simp_all add: load_def MbapParser_reset_def RtuParser_reset_def)
    then show ?thesis using less.prems y Err by (auto simp: step backlog_def)
  next
    case Panic
    then show ?thesis using less.prems(3,4) y by (auto simp: step)
  next
    case z: (Ok z)
    note le = FrameParser_load [OF less.prems(1) y [unfolded z]]
    show ?thesis
  proof (cases z)
    case (Some g)
    then show ?thesis using less.prems y z le by (auto simp: step backlog_def)
  next
    case None
    obtain q rb1 io1 where q: "ReadBuffer_read_some P rb io = (q, rb1, io1)" using prod_cases3 by blast
    have rs: "rb_wf rb1" and grow: "\<And>n. q = Ready (Ok n) \<Longrightarrow> 0 < n \<and> length (rb_view rb1) = length (rb_view rb) + n"
      using read_some_wf [of rb io q rb1 io1] prog q by auto
    have q': "q = Pending \<or> (\<exists>n. q = Ready (Ok n))"
      using less.prems(3,4) y z None q by (auto simp: step RequestError_from_io_def split: poll.splits result.splits)
    let ?r = "\<lparr>fdr_parser = p, fdr_buffer = rb1\<rparr>"
    have io1: "proper (incoming io1)" "backlog ?r io1 \<le> backlog r io"
      using read_some_unread [of rb io q rb1 io1] prog less.prems(2) q q' le by (auto simp: backlog_def load_def)
    show ?thesis
    proof (cases "q = Pending")
      case True
      then show ?thesis using less.prems y z None q io1 by (auto simp: step)
    next
      case False
      have run: "FramedReader_next_frame P ?r io1 = Some (x, r', io')"
        using less.prems(3) y z None q q' False by (auto simp: step)
      have "length (rb_view rb1) \<le> 260"
        using rs length_rb_view [OF rs] by (auto simp: rb_wf_def ReadBuffer_len_def)
      then have "parser_stage (fdr_parser ?r) * 261 + (260 - length (rb_view (fdr_buffer ?r))) <
          parser_stage (fdr_parser r) * 261 + (260 - length (rb_view (fdr_buffer r)))"
        using prog z None False q' grow by auto
      from less.hyps [OF this _ io1(1) run less.prems(4)] rs io1(2) show ?thesis by auto
    qed
  qed
  qed
qed

text \<open>What the loops need of a reader and its stream, and the two results together.\<close>

definition bounded :: "nat \<Rightarrow> FramedReader \<Rightarrow> 'io \<Rightarrow> bool" where
  "bounded n r io \<longleftrightarrow> rb_wf (fdr_buffer r) \<and> proper (incoming io) \<and> backlog r io \<le> n"

lemma bounded_input:
  "rb_wf (fdr_buffer r) \<Longrightarrow> proper (incoming io) \<Longrightarrow> bounded (pending_input incoming r io) r io"
  by (cases "fdr_parser r")
    (auto simp: bounded_def pending_input_def backlog_def load_def split: MbapParseState.split RtuParseState.split)

lemma next_frame_bounded:
  assumes "bounded n r io"
  obtains x r' io' where "FramedReader_next_frame P r io = Some (x, r', io')"
    and "settled x \<Longrightarrow> bounded n r' io'" and "\<And>f. x = Ready (Ok f) \<Longrightarrow> 0 < n \<and> bounded (n - 1) r' io'"
proof -
  have b: "rb_wf (fdr_buffer r)" "proper (incoming io)" "backlog r io \<le> n" using assms by (simp_all add: bounded_def)
  obtain x r' io' where x: "FramedReader_next_frame P r io = Some (x, r', io')" "rb_wf (fdr_buffer r')"
    using next_frame_returns [OF b(1)] by blast
  show thesis
    using next_frame_backlog [OF b(1,2) x(1)] x b(3) by (intro that [OF x(1)]) (auto simp: bounded_def)
qed

end

section \<open>A request whose deadline has passed is settled\<close>

context byte_stream
begin

lemma await_response_returns:
  assumes "bounded n (cl_reader (cw_loop w)) (cw_io w)" and "n < length ts"
  shows "\<exists>x w'. ClientLoop_await_response P tx fired ts w = Some (x, w') \<and> (fired \<longrightarrow> x \<noteq> Pending) \<and>
    (settled x \<longrightarrow> bounded n (cl_reader (cw_loop w')) (cw_io w'))"
  using assms
proof (induction ts arbitrary: n w)
  case (Cons t ts)
  show ?case
  proof (cases "t \<and> fired")
    case False
    obtain x r io where x: "FramedReader_next_frame P (cl_reader (cw_loop w)) (cw_io w) = Some (x, r, io)"
      and p: "settled x \<Longrightarrow> bounded n r io" and f: "\<And>f. x = Ready (Ok f) \<Longrightarrow> 0 < n \<and> bounded (n - 1) r io"
      using next_frame_bounded [OF Cons.prems(1)] by blast
    let ?w = "w\<lparr>cw_loop := (cw_loop w)\<lparr>cl_reader := r\<rparr>, cw_io := io\<rparr>"
    note run = False x
    show ?thesis
    proof (cases "\<exists>g y. x = Ready (Ok g) \<and> fh_tx_id (fr_header g) = Some y \<and> y \<noteq> tx")
      case True
      then obtain g y where g: "x = Ready (Ok g)" "fh_tx_id (fr_header g) = Some y" "y \<noteq> tx" by blast
      have "ClientLoop_await_response P tx fired (t # ts) w = ClientLoop_await_response P tx fired ts ?w"
        using run g by auto
      moreover have "bounded n r' io'" if "bounded (n - 1) r' io'" for r' io' using that by (auto simp: bounded_def)
      moreover have "n - 1 < length ts" using f [OF g(1)] Cons.prems(2) by auto
      ultimately show ?thesis
        using Cons.IH [of "n - 1" ?w] f [OF g(1)] by fastforce
    next
      case no: False
      show ?thesis
      proof (cases x)
        case (Ready res)
        then show ?thesis using run p no by (cases res) (auto simp: Let_def split: option.split)
      qed (use run p in \<open>auto simp: Let_def\<close>)
    qed
  qed (use Cons.prems in auto)
qed simp

abbreviation client_bounded :: "nat \<Rightarrow> 'io client \<Rightarrow> bool" where
  "client_bounded n w \<equiv> bounded n (cl_reader (cw_loop w)) (cw_io w)"

text \<open>The session goes on after a request unless its outcome was an I/O error or a bad frame.\<close>

lemma finish_bounded:
  assumes "ClientLoop_finish_request req res w = (r, w')"
  shows "cw_loop w' = cw_loop w \<and> cw_io w' = cw_io w \<and> (r = Ok () \<longrightarrow> settled (Ready res))"
  using assms
  using io_failure_ends
  by (cases res) (fastforce simp: ClientLoop_finish_request_def Let_def split: prod.splits option.splits)+

lemma handle_response_bounded:
  assumes "ClientLoop_handle_response P req frame w = (r, w')"
  shows "cw_loop w' = cw_loop w \<and> cw_io w' = cw_io w"
  using assms finish_bounded by (fastforce simp: ClientLoop_handle_response_def split: prod.splits)

lemma poll_request_returns:
  assumes "client_bounded n w" and "n < length ts"
  shows "\<exists>x w'. ClientLoop_poll_request P fired ts req tx w = Some (x, w') \<and> (fired \<longrightarrow> x \<noteq> Pending) \<and>
    (x = Pending \<or> x = Ready (Ok ()) \<longrightarrow> client_bounded n w')"
proof -
  obtain y w1 where y: "ClientLoop_await_response P tx fired ts w = Some (y, w1)" "fired \<longrightarrow> y \<noteq> Pending"
    "settled y \<longrightarrow> client_bounded n w1" using await_response_returns [OF assms] by blast
  show ?thesis
  proof (cases y)
    case Pending
    then show ?thesis using y by (simp add: ClientLoop_poll_request_def)
  next
    case (Ready res)
    show ?thesis
    proof (cases res)
      case (Ok frame)
      obtain r w2 where r: "ClientLoop_handle_response P req frame w1 = (r, w2)" by fastforce
      then show ?thesis using y Ready Ok handle_response_bounded [OF r] by (simp add: ClientLoop_poll_request_def)
    next
      case (Err e)
      obtain r w2 where r: "ClientLoop_finish_request req (result.Err e) w1 = (r, w2)" by fastforce
      then show ?thesis using y Ready Err finish_bounded [OF r] by (auto simp: ClientLoop_poll_request_def)
    next
      case Panic
      obtain r w2 where r: "ClientLoop_finish_request req result.Panic w1 = (r, w2)" by fastforce
      then show ?thesis using y Ready Panic finish_bounded [OF r] by (auto simp: ClientLoop_poll_request_def)
    qed
  qed
qed

lemma send_request_bounded:
  assumes "client_bounded n w" and "ClientLoop_send_request P req tx w = (res, w')" and "settled (Ready res)"
  shows "client_bounded n w'"
proof -
  let ?fmt = "FrameWriter_format_request P (FrameHeader_new_tcp_header (cr_id req) tx)
    (RequestDetails_function (cr_details req)) (RequestDetails_serialize P (cr_details req)) (cl_writer (cw_loop w))"
  obtain y fw where y: "?fmt = (y, fw)" by fastforce
  show ?thesis
  proof (cases y)
    case (Ok bytes)
    obtain z io where z: "io_write P bytes (cw_io w) = (z, io)" by fastforce
    have "incoming io = incoming (cw_io w) \<and> w' = w\<lparr>cw_loop := (cw_loop w)\<lparr>cl_writer := fw\<rparr>, cw_io := io\<rparr>"
      using assms(2,3) y Ok z io_write_Ok [of bytes "cw_io w" io]
      by (cases z) (auto simp: ClientLoop_send_request_def Let_def conv_err_def RequestError_from_io_def)
    then show ?thesis using assms(1) by (simp add: bounded_def backlog_def)
  qed (use assms y in \<open>auto simp: ClientLoop_send_request_def\<close>)
qed

lemma run_one_request_returns:
  assumes "client_bounded n w" and "n < length ts"
  shows "\<exists>x w'. ClientLoop_run_one_request P fired ts req w = Some (x, w') \<and> (fired \<longrightarrow> x \<noteq> Pending) \<and>
    (x = Pending \<or> x = Ready (Ok ()) \<longrightarrow> client_bounded n w')"
proof -
  let ?tx = "cl_tx_id (cw_loop w)"
  let ?w1 = "w\<lparr>cw_loop := (cw_loop w)\<lparr>cl_tx_id := TxId (tx_value ?tx + 1)\<rparr>\<rparr>"
  obtain y w2 where y: "ClientLoop_send_request P req ?tx ?w1 = (y, w2)" by fastforce
  have b: "settled (Ready y) \<Longrightarrow> client_bounded n w2" using send_request_bounded [OF _ y] assms(1) by simp
  have run: "ClientLoop_run_one_request P fired ts req w = (case y of
      Ok _ \<Rightarrow> ClientLoop_poll_request P fired ts req ?tx w2
    | Err e \<Rightarrow> (case ClientLoop_finish_request req (Err e) w2 of (r, w3) \<Rightarrow> Some (Ready r, w3))
    | Panic \<Rightarrow> (case ClientLoop_finish_request req Panic w2 of (r, w3) \<Rightarrow> Some (Ready r, w3)))"
    using y by (simp add: ClientLoop_run_one_request_def TxId_next_eq split: result.split)
  show ?thesis
  proof (cases y)
    case (Ok u)
    then show ?thesis using poll_request_returns [OF _ assms(2), of w2 fired req ?tx] b run by simp
  next
    case (Err e)
    obtain r w3 where r: "ClientLoop_finish_request req (result.Err e) w2 = (r, w3)" by fastforce
    then show ?thesis using finish_bounded [OF r] run Err b by auto
  next
    case Panic
    obtain r w3 where r: "ClientLoop_finish_request req result.Panic w2 = (r, w3)" by fastforce
    then show ?thesis using finish_bounded [OF r] run Panic b by auto
  qed
qed

lemma poll_command_returns:
  assumes "client_bounded n w" and "n < length ts"
  shows "\<exists>x w'. ClientLoop_poll_command P fired ts recv w = Some (x, w') \<and>
    (x = Pending \<or> x = Ready (Ok ()) \<longrightarrow> client_bounded n w')"
proof -
  have setting: "client_bounded n (w\<lparr>cw_loop := ClientLoop_change_setting x (cw_loop w)\<rparr>)" for x
    using assms(1) by (cases x) simp_all
  show ?thesis
  proof (cases recv)
    case (Ready c)
    show ?thesis
    proof (cases c)
      case (Some cmd)
      then have run: "ClientLoop_poll_command P fired ts recv w = ClientLoop_run_cmd P fired ts cmd w"
        using Ready by (simp add: ClientLoop_poll_command_def Receiver_recv_def)
      show ?thesis
      proof (cases cmd)
        case (Cmd_Request req)
        then show ?thesis using run run_one_request_returns [OF assms, of fired req] by (auto simp: ClientLoop_run_cmd_def)
      qed (use run setting in \<open>simp add: ClientLoop_run_cmd_def Let_def\<close>)
    qed (simp add: Ready ClientLoop_poll_command_def Receiver_recv_def)
  qed (use assms in \<open>simp add: ClientLoop_poll_command_def Receiver_recv_def\<close>)
qed

lemma poll_idle_returns:
  assumes "client_bounded n w"
  shows "\<exists>x w'. ClientLoop_poll_idle_frame P w = Some (x, w') \<and> (x = Pending \<or> x = Ready (Ok ()) \<longrightarrow> client_bounded n w')"
proof -
  obtain x r io where x: "FramedReader_next_frame P (cl_reader (cw_loop w)) (cw_io w) = Some (x, r, io)"
    and b: "settled x \<Longrightarrow> bounded n r io"
    using next_frame_bounded [OF assms] by metis
  have err: "SessionError_from_request_err e = None \<Longrightarrow> \<not> io_failure e" for e by (cases e) simp_all
  show ?thesis
    using x b err
    by (cases x rule: settled.cases) (auto simp: ClientLoop_poll_idle_frame_def Let_def split: option.split)
qed

lemma poll_returns:
  assumes "client_bounded n w" and "n < length ts"
  shows "\<exists>x w'. ClientLoop_poll P ff recv fired ts w = Some (x, w') \<and> (x = Pending \<or> x = Ready (Ok ()) \<longrightarrow> client_bounded n w')"
proof (cases "cw_current w")
  case None
  obtain x w1 where x: "ClientLoop_poll_idle_frame P w = Some (x, w1)" "x = Pending \<or> x = Ready (Ok ()) \<longrightarrow> client_bounded n w1"
    using poll_idle_returns [OF assms(1)] by blast
  obtain y w2 where y: "ClientLoop_poll_command P fired ts recv w = Some (y, w2)" "y = Pending \<or> y = Ready (Ok ()) \<longrightarrow> client_bounded n w2"
    using poll_command_returns [OF assms] by blast
  show ?thesis
  proof (cases ff)
    case True
    show ?thesis
    proof (cases "x = Pending")
      case True
      then show ?thesis
        using poll_command_returns [OF _ assms(2), of w1 fired recv] x None \<open>ff\<close> by (simp add: ClientLoop_poll_def)
    qed (use x None True in \<open>auto simp: ClientLoop_poll_def split: poll.splits\<close>)
  next
    case False
    show ?thesis
    proof (cases "y = Pending")
      case True
      then show ?thesis
        using poll_idle_returns [of n w2] y None \<open>\<not> ff\<close> by (simp add: ClientLoop_poll_def)
    qed (use y None False in \<open>auto simp: ClientLoop_poll_def split: poll.splits\<close>)
  qed
next
  case (Some c)
  then show ?thesis
    using poll_request_returns [OF assms, of fired "fst c" "snd c"] by (cases c) (auto simp: ClientLoop_poll_def)
qed

lemma run_returns:
  assumes "client_bounded n w" and "\<forall>(ff, recv, fired, ts) \<in> set es. n < length ts"
  shows "\<exists>x w'. ClientLoop_run P es w = Some (x, w')"
  using assms
proof (induction es arbitrary: w)
  case (Cons e es)
  obtain ff recv fired ts where e: "e = (ff, recv, fired, ts)" by (cases e) auto
  obtain x w1 where x: "ClientLoop_poll P ff recv fired ts w = Some (x, w1)" "x = Pending \<or> x = Ready (Ok ()) \<longrightarrow> client_bounded n w1"
    using poll_returns [OF Cons.prems(1), of ts ff recv fired] Cons.prems(2) e by fastforce
  then show ?case
    using Cons.IH [of w1] Cons.prems(2) e by (auto split: poll.split result.split)
qed simp

end

text \<open>What a session takes from the channel was sent to it.\<close>

lemma all_taken_open:
  assumes "\<forall>(ff, recv, fired, ts) \<in> set es. open_requests (received recv)"
  shows "open_requests (all_taken P es w)"
  using assms
proof (induction es arbitrary: w)
  case (Cons e es)
  obtain ff recv fired ts where e: "e = (ff, recv, fired, ts)" by (cases e) auto
  have "open_requests (taken P e w)"
    using Cons.prems e by (auto simp: open_requests_def split: option.split poll.split)
  moreover have "open_requests (all_taken P es w1)" for w1 using Cons by simp
  moreover have "\<exists>w1. all_taken P (e # es) w = taken P e w @ all_taken P es w1 \<or> all_taken P (e # es) w = taken P e w"
    by (simp add: e del: taken.simps split: option.split poll.split result.split) blast
  ultimately show ?case unfolding open_requests_def by (metis Un_iff set_append)
qed (simp add: open_requests_def)

section \<open>A server session serves what it has received and then waits\<close>

text \<open>The number of turns in which the channel of settings has something to say.\<close>

definition interruptions :: "(bool \<times> ServerSetting option poll) list \<Rightarrow> nat" where
  "interruptions cs = length (filter (\<lambda>(c, recv). recv \<noteq> Pending) cs)"

lemma for_list_keeps:
  assumes "\<And>a s. f (snd (body a s)) = f s"
  shows "f (snd (for_list body as s)) = f s"
proof (induction as arbitrary: s)
  case (Cons a as)
  obtain r s1 where "body a s = (r, s1)" by (meson surj_pair)
  then show ?case using Cons assms [of a s] by (cases r) simp_all
qed simp

lemma for_list_execute_keeps:
  "ss_io (snd (for_list (session_execute m) rs s)) = ss_io s" "ss_task (snd (for_list (session_execute m) rs s)) = ss_task s"
  by (rule for_list_keeps, simp add: session_execute_def split: prod.splits)+

context byte_stream
begin

text \<open>A step that succeeds reads nothing: the reader and the input are as before.\<close>

definition reads_nothing :: "(('h, 'io) session, 'a, 'e) se \<Rightarrow> bool" where
  "reads_nothing m \<longleftrightarrow> (\<forall>s a s'. m s = (Ok a, s') \<longrightarrow>
     st_reader (ss_task s') = st_reader (ss_task s) \<and> incoming (ss_io s') = incoming (ss_io s))"

lemma reads_nothing_steps [intro]:
  "reads_nothing (ret a)" "reads_nothing (session_writer m)" "reads_nothing (session_write P bytes)"
  "reads_nothing (session_reply r m')" "reads_nothing (\<lambda>s. for_list (session_execute m'') (rs s) s)"
proof -
  show "reads_nothing (session_write P bytes)"
    using io_write_Ok
    by (fastforce simp: reads_nothing_def session_write_def conv_err_def split: prod.splits result.splits)
  show "reads_nothing (\<lambda>s. for_list (session_execute m'') (rs s) s)"
    unfolding reads_nothing_def by (metis for_list_execute_keeps snd_conv)
qed (auto simp: reads_nothing_def ret_def session_writer_def session_reply_def split: prod.splits)

lemma reads_nothing_bnd [intro]: "reads_nothing m \<Longrightarrow> (\<And>a. reads_nothing (k a)) \<Longrightarrow> reads_nothing (bnd m k)"
  unfolding reads_nothing_def bnd_def by (fastforce split: prod.splits result.splits)

lemma reads_nothing_reply: "reads_nothing (SessionTask_reply_with_error_generic P header func ex)"
  unfolding SessionTask_reply_with_error_generic_def by (auto intro: reads_nothing_bnd)

text \<open>Which step runs depends on the state; each of them reads nothing.\<close>

lemma like_nothing_intros:
  "reads_nothing m \<Longrightarrow> \<exists>m'. reads_nothing m' \<and> m s = m' s"
  "\<exists>m'. reads_nothing m' \<and> (Ok a, s) = m' s" "\<exists>m'. reads_nothing m' \<and> (Panic, s) = m' s"
  by (blast, rule exI [of _ "Pair (Ok a)"], simp add: reads_nothing_def, rule exI [of _ "Pair Panic"], simp add: reads_nothing_def)

lemma reads_nothingI: "(\<And>s. \<exists>m'. reads_nothing m' \<and> m s = m' s) \<Longrightarrow> reads_nothing m"
  unfolding reads_nothing_def by metis

lemma reads_nothing_request: "reads_nothing (SessionTask_handle_request P H header request)"
  by (rule reads_nothingI, cases "fh_destination header")
    (auto simp: SessionTask_handle_request_def intro!: like_nothing_intros reads_nothing_bnd split: option.split)

lemma reads_nothing_frame: "reads_nothing (SessionTask_handle_frame P H frame)"
  by (rule reads_nothingI)
    (auto simp: SessionTask_handle_frame_def SessionTask_reply_with_error_def Let_def
      intro!: like_nothing_intros reads_nothing_bnd reads_nothing_reply reads_nothing_request
      split: prod.split result.split option.split Authorization.split)

abbreviation session_bounded :: "nat \<Rightarrow> ('h, 'io) session \<Rightarrow> bool" where
  "session_bounded n s \<equiv> bounded n (st_reader (ss_task s)) (ss_io s)"

lemma poll_frame_returns:
  assumes "session_bounded n s"
  shows "\<exists>x s'. SessionTask_poll_frame P H s = Some (x, s') \<and> (x = Pending \<longrightarrow> session_bounded n s') \<and>
    (x = Ready (Ok ()) \<longrightarrow> 0 < n \<and> session_bounded (n - 1) s')"
proof -
  obtain x r io where x: "FramedReader_next_frame P (st_reader (ss_task s)) (ss_io s) = Some (x, r, io)"
    and p: "settled x \<Longrightarrow> bounded n r io" and f: "\<And>f. x = Ready (Ok f) \<Longrightarrow> 0 < n \<and> bounded (n - 1) r io"
    using next_frame_bounded [OF assms] by metis
  let ?s = "s\<lparr>ss_task := (ss_task s)\<lparr>st_reader := r\<rparr>, ss_io := io\<rparr>"
  show ?thesis
  proof (cases "\<exists>g. x = Ready (Ok g)")
    case True
    then obtain g where g: "x = Ready (Ok g)" by blast
    obtain y s1 where y: "SessionTask_handle_frame P H g ?s = (y, s1)" by (meson surj_pair)
    have "y = Ok () \<Longrightarrow> session_bounded (n - 1) s1"
      using reads_nothing_frame [of H g] f [OF g] y by (auto simp: reads_nothing_def bounded_def backlog_def)
    then show ?thesis using x g y f [OF g] by (simp add: SessionTask_poll_frame_def Let_def)
  qed (use x p in \<open>auto simp: SessionTask_poll_frame_def Let_def split: poll.split result.split\<close>)
qed

lemma run_one_returns:
  assumes "session_bounded n s"
  shows "\<exists>x s'. SessionTask_run_one P H c recv s = Some (x, s') \<and>
    (x = Ready (Ok ()) \<longrightarrow> (if recv = Pending then 0 < n \<and> session_bounded (n - 1) s' else session_bounded n s'))"
proof -
  have setting: "session_bounded n (snd (SessionTask_poll_command recv s1)) \<and>
      (recv = Pending \<longrightarrow> SessionTask_poll_command recv s1 = (Pending, s1))"
    if "session_bounded n s1" for s1 :: "('a, 'io) session"
  proof -
    have "st_reader (SessionTask_apply_setting x t) = st_reader t" for x t by (cases x) simp
    then show ?thesis using that by (auto simp: SessionTask_poll_command_def split: poll.split option.split)
  qed
  have weaker: "session_bounded (n - 1) s1 \<Longrightarrow> session_bounded n s1" for s1 :: "('a, 'io) session"
    by (auto simp: bounded_def)
  obtain x s1 where x: "SessionTask_poll_frame P H s = Some (x, s1)" "x = Pending \<longrightarrow> session_bounded n s1"
    "x = Ready (Ok ()) \<longrightarrow> 0 < n \<and> session_bounded (n - 1) s1" using poll_frame_returns [OF assms] by blast
  obtain y s2 where y: "SessionTask_poll_command recv s = (y, s2)" by (meson surj_pair)
  note y' = setting [OF assms, unfolded y, simplified]
  show ?thesis
  proof (cases c)
    case True
    show ?thesis
    proof (cases "x = Pending")
      case wait: True
      obtain z s3 where z: "SessionTask_poll_command recv s1 = (z, s3)" by (meson surj_pair)
      then show ?thesis using setting [of s1] x wait True by (auto simp: SessionTask_run_one_def)
    qed (use x True weaker [of s1] in \<open>auto simp: SessionTask_run_one_def split: poll.split\<close>)
  next
    case False
    show ?thesis
    proof (cases "y = Pending")
      case wait: True
      then have "recv = Pending" using y by (auto simp: SessionTask_poll_command_def split: poll.splits option.splits)
      then show ?thesis using x y y' wait False by (auto simp: SessionTask_run_one_def)
    qed (use y y' False in \<open>auto simp: SessionTask_run_one_def split: poll.split\<close>)
  qed
qed

lemma session_run_returns:
  assumes "session_bounded n s" and "n + interruptions cs < length cs"
  shows "\<exists>x s'. SessionTask_run P H cs s = Some (x, s') \<and> x \<noteq> Ready (Ok ())"
  using assms
proof (induction cs arbitrary: n s)
  case (Cons e cs)
  obtain c recv where e: "e = (c, recv)" by (cases e)
  obtain x s1 where x: "SessionTask_run_one P H c recv s = Some (x, s1)"
    "x = Ready (Ok ()) \<longrightarrow> (if recv = Pending then 0 < n \<and> session_bounded (n - 1) s1 else session_bounded n s1)"
    using run_one_returns [OF Cons.prems(1)] by blast
  show ?case
  proof (cases "x = Ready (Ok ())")
    case True
    define m where "m = (if recv = Pending then n - 1 else n)"
    have "session_bounded m s1" "m + interruptions cs < length cs"
      using x True Cons.prems(2) e by (auto simp: m_def interruptions_def split: if_splits)
    from Cons.IH [OF this] show ?thesis using e x True by simp
  qed (use e x in \<open>auto split: poll.split result.split\<close>)
qed simp

end

end
