(* ===== verification/ChannelProgress.thy ===== *)
theory ChannelProgress
  imports ChannelTask Progress
begin

text \<open>
  Liveness of the tasks that keep a connection (\<open>ChannelTask\<close>): every session they run
  returns, so each run comes to a result or waits. A reader survives from one session to the
  next, with whatever is left in its buffer, which therefore counts in the bound.
\<close>

section \<open>The buffer stays well formed\<close>

abbreviation loop_wf :: "ClientLoop \<Rightarrow> bool" where
  "loop_wf c \<equiv> rb_wf (fdr_buffer (cl_reader c))"

lemma rb_view_bound: "rb_wf rb \<Longrightarrow> length (rb_view rb) \<le> 260"
  using length_rb_view [of rb] by (auto simp: rb_wf_def ReadBuffer_len_def)

lemma change_setting_reader [simp]: "cl_reader (ClientLoop_change_setting x c) = cl_reader c"
  by (cases x) simp_all

lemma fail_next_reader: "ClientLoop_fail_next_request recv s = (r, s') \<Longrightarrow> cl_reader (fst s') = cl_reader (fst s)"
  by (auto simp: ClientLoop_fail_next_request_def Let_def split: prod.splits option.splits Command.splits if_splits)

lemma wait_for_enabled_reader:
  "ClientLoop_wait_for_enabled rs s = (x, s', q) \<Longrightarrow> cl_reader (fst s') = cl_reader (fst s)"
  by (induction rs s rule: ClientLoop_wait_for_enabled.induct)
    (auto dest: fail_next_reader split: if_splits prod.splits result.splits StateChange.splits)

lemma fail_requests_reader:
  "ClientLoop_fail_requests rs s = (x, s', q) \<Longrightarrow> cl_reader (fst s') = cl_reader (fst s)"
  by (induction rs s rule: ClientLoop_fail_requests.induct)
    (auto dest: fail_next_reader split: prod.splits result.splits)

lemma fail_requests_for_reader:
  "ClientLoop_fail_requests_for rs s = (x, s', q) \<Longrightarrow> cl_reader (fst s') = cl_reader (fst s)"
  by (auto simp: ClientLoop_fail_requests_for_def dest: fail_requests_reader split: prod.splits poll.splits)

lemma finish_loop: "cw_loop (snd (ClientLoop_finish_request req res w)) = cw_loop w"
  by (auto simp: ClientLoop_finish_request_def Let_def split: result.split prod.split option.split)

lemma handle_response_loop: "cw_loop (snd (ClientLoop_handle_response P req frame w)) = cw_loop w"
  by (simp add: ClientLoop_handle_response_def finish_loop split: prod.split)

lemma send_request_reader: "cl_reader (cw_loop (snd (ClientLoop_send_request P req tx w))) = cl_reader (cw_loop w)"
  by (simp add: ClientLoop_send_request_def Let_def split: prod.split result.split)

context byte_stream
begin

lemma next_frame_wf:
  "rb_wf (fdr_buffer r) \<Longrightarrow> FramedReader_next_frame P r io = Some (x, r', io') \<Longrightarrow> rb_wf (fdr_buffer r')"
  using next_frame_returns [of r io] by auto

lemma await_response_wf:
  "loop_wf (cw_loop w) \<Longrightarrow> ClientLoop_await_response P tx fired ts w = Some (x, w') \<Longrightarrow> loop_wf (cw_loop w')"
proof (induction ts arbitrary: w)
  case (Cons t ts)
  show ?case
  proof (cases "t \<and> fired")
    case False
    then obtain y r io where y: "FramedReader_next_frame P (cl_reader (cw_loop w)) (cw_io w) = Some (y, r, io)"
      using Cons.prems(2) by (auto split: option.splits)
    then show ?thesis
      using Cons.prems next_frame_wf [OF Cons.prems(1) y] False
        Cons.IH [of "w\<lparr>cw_loop := (cw_loop w)\<lparr>cl_reader := r\<rparr>, cw_io := io\<rparr>"]
      by (auto simp: Let_def split: poll.splits result.splits option.splits if_splits)
  qed (use Cons.prems in auto)
qed simp

lemma poll_request_wf:
  assumes "loop_wf (cw_loop w)" and "ClientLoop_poll_request P fired ts req tx w = Some (x, w')"
  shows "loop_wf (cw_loop w')"
proof -
  obtain y w1 where y: "ClientLoop_await_response P tx fired ts w = Some (y, w1)"
    using assms(2) by (auto simp: ClientLoop_poll_request_def split: option.splits)
  have "cw_loop w' = cw_loop w1"
    using assms(2) y by (auto simp: ClientLoop_poll_request_def split: poll.splits result.splits prod.splits)
      (metis finish_loop handle_response_loop snd_conv)+
  then show ?thesis using await_response_wf [OF assms(1) y] by simp
qed

lemma run_one_request_wf:
  assumes "loop_wf (cw_loop w)" and "ClientLoop_run_one_request P fired ts req w = Some (x, w')"
  shows "loop_wf (cw_loop w')"
proof -
  let ?tx = "cl_tx_id (cw_loop w)"
  let ?w1 = "w\<lparr>cw_loop := (cw_loop w)\<lparr>cl_tx_id := TxId (tx_value ?tx + 1)\<rparr>\<rparr>"
  obtain y w2 where y: "ClientLoop_send_request P req ?tx ?w1 = (y, w2)" by fastforce
  have w2: "loop_wf (cw_loop w2)" using send_request_reader [of P req ?tx ?w1] y assms(1) by simp
  have "y \<noteq> Ok () \<Longrightarrow> cw_loop w' = cw_loop w2"
    using assms(2) y by (auto simp: ClientLoop_run_one_request_def TxId_next_eq split: result.splits prod.splits)
      (metis finish_loop snd_conv)+
  moreover have "y = Ok () \<Longrightarrow> ClientLoop_poll_request P fired ts req ?tx w2 = Some (x, w')"
    using assms(2) y by (simp add: ClientLoop_run_one_request_def TxId_next_eq)
  ultimately show ?thesis using w2 poll_request_wf [OF w2] by metis
qed

lemma poll_command_wf:
  assumes "loop_wf (cw_loop w)" and "ClientLoop_poll_command P fired ts recv w = Some (x, w')"
  shows "loop_wf (cw_loop w')"
  using assms run_one_request_wf [OF assms(1)]
  by (auto simp: ClientLoop_poll_command_def ClientLoop_run_cmd_def Let_def
      split: poll.splits result.splits Command.splits if_splits)

lemma poll_idle_wf:
  assumes "loop_wf (cw_loop w)" and "ClientLoop_poll_idle_frame P w = Some (x, w')"
  shows "loop_wf (cw_loop w')"
  using assms next_frame_wf [OF assms(1)]
  by (auto simp: ClientLoop_poll_idle_frame_def Let_def split: option.splits poll.splits result.splits)

lemma poll_wf:
  assumes "loop_wf (cw_loop w)" and "ClientLoop_poll P ff recv fired ts w = Some (x, w')"
  shows "loop_wf (cw_loop w')"
  using assms
  by (auto simp: ClientLoop_poll_def intro: poll_request_wf poll_command_wf poll_idle_wf
      split: option.splits poll.splits if_splits prod.splits)

lemma run_wf: "loop_wf (cw_loop w) \<Longrightarrow> ClientLoop_run P es w = Some (x, w') \<Longrightarrow> loop_wf (cw_loop w')"
proof (induction es arbitrary: w)
  case (Cons e es)
  obtain ff recv fired ts where e: "e = (ff, recv, fired, ts)" by (cases e) auto
  then obtain y w1 where y: "ClientLoop_poll P ff recv fired ts w = Some (y, w1)"
    using Cons.prems(2) by (auto split: option.splits)
  then show ?case
    using Cons.prems(2) e Cons.IH [of w1] poll_wf [OF Cons.prems(1) y] by (auto split: poll.splits result.splits)
qed simp

end

section \<open>Enough turns for a session\<close>

text \<open>
  What an attempt needs of its environment: a stream that never delivers an empty read, and in
  each turn more choices than the frames that the stream and a full buffer can hold.
\<close>

definition enough_turns :: "segment list \<Rightarrow> turn list \<Rightarrow> bool" where
  "enough_turns segs es \<longleftrightarrow> proper segs \<and>
     (\<forall>(ff, recv, fired, ts) \<in> set es. 2 * (MAX_FRAME_LENGTH + unread segs) + 1 < length ts)"

definition attempt_bounded :: "('io \<Rightarrow> segment list) \<Rightarrow> 'io attempt \<Rightarrow> bool" where
  "attempt_bounded inc a \<longleftrightarrow> (case at_handshake a of Ok phys \<Rightarrow> enough_turns (inc phys) (at_turns a) | _ \<Rightarrow> True)"

definition opening_bounded :: "('io \<Rightarrow> segment list) \<Rightarrow> 'io open_attempt \<Rightarrow> bool" where
  "opening_bounded inc a \<longleftrightarrow> (case oa_open a of Ok phys \<Rightarrow> enough_turns (inc phys) (oa_turns a) | _ \<Rightarrow> True)"

context byte_stream
begin

lemma session_returns:
  assumes "loop_wf (cw_loop w)" and "enough_turns (incoming (cw_io w)) es"
  shows "\<exists>x w'. ClientLoop_run P es w = Some (x, w') \<and> loop_wf (cw_loop w')"
proof -
  let ?n = "pending_input incoming (cl_reader (cw_loop w)) (cw_io w)"
  have "?n \<le> 2 * (MAX_FRAME_LENGTH + unread (incoming (cw_io w))) + 1"
    using rb_view_bound [OF assms(1)] by (simp add: pending_input_def conv_defs)
  then have "\<forall>(ff, recv, fired, ts) \<in> set es. ?n < length ts"
    using assms(2) by (fastforce simp: enough_turns_def)
  then show ?thesis
    using run_returns [OF bounded_input [OF assms(1)]] run_wf [OF assms(1)] assms(2) by (metis enough_turns_def)
qed

end

section \<open>The TCP channel\<close>

text \<open>The run returns, and the reader is in order for the next round.\<close>

definition returns_tcp :: "('x \<times> 's TcpChannelTask) option \<Rightarrow> bool" where
  "returns_tcp r \<longleftrightarrow> (\<exists>x t. r = Some (x, t) \<and> loop_wf (tc_loop t))"

lemma tcp_wait_wf:
  "loop_wf (tc_loop t) \<Longrightarrow> TcpChannelTask_wait y st rs t = (res, t') \<Longrightarrow> loop_wf (tc_loop t')"
  using fail_requests_for_reader
  by (fastforce simp: TcpChannelTask_wait_def TcpChannelTask_update_def Let_def split: prod.splits result.splits)

context byte_stream
begin

lemma tcp_connected_returns:
  assumes "loop_wf (tc_loop t)" and "enough_turns (incoming phys) (at_turns a)"
  shows "returns_tcp (TcpChannelTask_run_connected P R a phys t)"
proof -
  define t2 where "t2 = (TcpChannelTask_update CS_Connected t)\<lparr>tc_retry := rs_reset R (tc_retry t)\<rparr>"
  have t2: "TcpChannelTask_update CS_Connected t
      \<lparr>tc_retry := rs_reset R (tc_retry (TcpChannelTask_update CS_Connected t))\<rparr> = t2" "loop_wf (tc_loop t2)"
    using assms(1) by (simp_all add: t2_def TcpChannelTask_update_def)
  obtain x w where x: "ClientLoop_run P (at_turns a)
      \<lparr>cw_loop = tc_loop t2, cw_io = phys, cw_log = tc_log t2, cw_current = None\<rparr> = Some (x, w)" "loop_wf (cw_loop w)"
    using session_returns [of "\<lparr>cw_loop = tc_loop t2, cw_io = phys, cw_log = tc_log t2, cw_current = None\<rparr>" "at_turns a"] t2(2) assms(2)
    by auto
  define t3 where "t3 = t2\<lparr>tc_loop := cw_loop w, tc_log := cw_log w, tc_current := cw_current w\<rparr>"
  have t3: "loop_wf (tc_loop t3)" using x(2) by (simp add: t3_def)
  show ?thesis
    using t3 tcp_wait_wf [OF t3] unfolding TcpChannelTask_run_connected_def Let_def t2(1) x(1) option.case prod.case t3_def [symmetric]
    by (auto simp: returns_tcp_def split: poll.splits result.splits SessionError.splits prod.splits)
qed

lemma tcp_attempt_returns:
  assumes "loop_wf (tc_loop t)" and "attempt_bounded incoming a"
  shows "returns_tcp (TcpChannelTask_try_connect_and_run P R a t)"
proof -
  obtain y t1 where y: "TcpChannelTask_connect a (TcpChannelTask_update CS_Connecting t) = (y, t1)" by (meson surj_pair)
  have t1: "loop_wf (tc_loop t1)"
    using y assms(1) fail_requests_reader
    by (fastforce simp: TcpChannelTask_connect_def TcpChannelTask_update_def split: prod.splits poll.splits)
  show ?thesis
  proof (cases y)
    case (Ok connected)
    show ?thesis
    proof (cases "bind_result (map_err (\<lambda>_. ()) connected) (\<lambda>_. at_handshake a)")
      case phys: (Ok phys)
      then have "at_handshake a = Ok phys" by (cases connected) auto
      then show ?thesis
        using y Ok phys tcp_connected_returns [OF t1, of phys a R] assms(2)
        by (simp add: TcpChannelTask_try_connect_and_run_def attempt_bounded_def)
    qed (use y Ok t1 tcp_wait_wf [OF t1] in \<open>auto simp: TcpChannelTask_try_connect_and_run_def returns_tcp_def split: prod.split\<close>)
  qed (use y t1 in \<open>auto simp: TcpChannelTask_try_connect_and_run_def returns_tcp_def\<close>)
qed

lemma tcp_inner_returns:
  "loop_wf (tc_loop t) \<Longrightarrow> \<forall>(rs, a) \<in> set rounds. attempt_bounded incoming a \<Longrightarrow> returns_tcp (TcpChannelTask_run_inner P R rounds t)"
proof (induction rounds arbitrary: t)
  case (Cons y rounds)
  obtain rs a where y: "y = (rs, a)" by (cases y)
  obtain e c log q where e: "ClientLoop_wait_for_enabled rs (tc_loop t, tc_log t) = (e, (c, log), q)"
    by (metis prod.collapse)
  define t1 where "t1 = t\<lparr>tc_loop := c, tc_log := log\<rparr>"
  have t1: "loop_wf (tc_loop t1)" using wait_for_enabled_reader [OF e] Cons.prems(1) by (simp add: t1_def)
  obtain z t2 where z: "TcpChannelTask_try_connect_and_run P R a t1 = Some (z, t2)" "loop_wf (tc_loop t2)"
    using tcp_attempt_returns [OF t1, of a R] Cons.prems(2) y by (auto simp: returns_tcp_def)
  have next': "returns_tcp (TcpChannelTask_run_inner P R rounds
      (if \<not> ClientLoop_is_enabled (tc_loop t2) then TcpChannelTask_update CS_Disabled t2 else t2))"
    using Cons.IH Cons.prems(2) z(2) by (simp add: TcpChannelTask_update_def)
  show ?case
    using t1 z(2) next'
    unfolding y TcpChannelTask_run_inner.simps e prod.case Let_def t1_def [symmetric] z(1) option.case
    by (auto simp: returns_tcp_def split: poll.split result.split StateChange.split Shutdown.split)
qed (simp add: returns_tcp_def)

lemma tcp_run_returns:
  assumes "loop_wf (tc_loop t)" and "\<forall>(rs, a) \<in> set rounds. attempt_bounded incoming a"
  shows "\<exists>x t'. TcpChannelTask_run P R rounds t = Some (x, t')"
  using tcp_inner_returns [OF _ assms(2), of "TcpChannelTask_update CS_Disabled t" R] assms(1)
  by (auto simp: TcpChannelTask_run_def returns_tcp_def TcpChannelTask_update_def split: poll.split result.split)

end

section \<open>The serial channel\<close>

definition returns_serial :: "('x \<times> 's SerialChannelTask) option \<Rightarrow> bool" where
  "returns_serial r \<longleftrightarrow> (\<exists>x t. r = Some (x, t) \<and> loop_wf (sc_loop t))"

lemma serial_wait_wf:
  "loop_wf (sc_loop t) \<Longrightarrow> SerialChannelTask_wait y rs t = (res, t') \<Longrightarrow> loop_wf (sc_loop t')"
  using fail_requests_for_reader
  by (fastforce simp: SerialChannelTask_wait_def SerialChannelTask_update_def Let_def split: prod.splits result.splits)

context byte_stream
begin

lemma serial_attempt_returns:
  assumes "loop_wf (sc_loop t)" and "opening_bounded incoming a"
  shows "returns_serial (SerialChannelTask_try_open_and_run P R a t)"
proof (cases "oa_open a")
  case (Ok phys)
  define t2 where "t2 = SerialChannelTask_update PS_Open (t\<lparr>sc_retry := rs_reset R (sc_retry t)\<rparr>)"
  have t2: "loop_wf (sc_loop t2)" using assms(1) by (simp add: t2_def SerialChannelTask_update_def)
  obtain x w where x: "ClientLoop_run P (oa_turns a)
      \<lparr>cw_loop = sc_loop t2, cw_io = phys, cw_log = sc_log t2, cw_current = None\<rparr> = Some (x, w)" "loop_wf (cw_loop w)"
    using session_returns [of "\<lparr>cw_loop = sc_loop t2, cw_io = phys, cw_log = sc_log t2, cw_current = None\<rparr>" "oa_turns a"] t2 assms(2) Ok
    by (auto simp: opening_bounded_def)
  define t3 where "t3 = t2\<lparr>sc_loop := cw_loop w, sc_log := cw_log w, sc_current := cw_current w\<rparr>"
  have t3: "loop_wf (sc_loop t3)" using x(2) by (simp add: t3_def)
  show ?thesis
    using t3 serial_wait_wf [OF t3]
    unfolding SerialChannelTask_try_open_and_run_def Ok result.case Let_def t2_def [symmetric] x(1) option.case prod.case t3_def [symmetric]
    by (auto simp: returns_serial_def split: poll.splits result.splits SessionError.splits prod.splits)
qed (use assms(1) serial_wait_wf [OF assms(1)] in
  \<open>auto simp: SerialChannelTask_try_open_and_run_def returns_serial_def split: prod.split\<close>)

lemma serial_inner_returns:
  "loop_wf (sc_loop t) \<Longrightarrow> \<forall>(rs, a) \<in> set rounds. opening_bounded incoming a \<Longrightarrow>
   returns_serial (SerialChannelTask_run_inner P R rounds t)"
proof (induction rounds arbitrary: t)
  case (Cons y rounds)
  obtain rs a where y: "y = (rs, a)" by (cases y)
  obtain e c log q where e: "ClientLoop_wait_for_enabled rs (sc_loop t, sc_log t) = (e, (c, log), q)"
    by (metis prod.collapse)
  define t1 where "t1 = t\<lparr>sc_loop := c, sc_log := log\<rparr>"
  have t1: "loop_wf (sc_loop t1)" using wait_for_enabled_reader [OF e] Cons.prems(1) by (simp add: t1_def)
  obtain z t2 where z: "SerialChannelTask_try_open_and_run P R a t1 = Some (z, t2)" "loop_wf (sc_loop t2)"
    using serial_attempt_returns [OF t1, of a R] Cons.prems(2) y by (auto simp: returns_serial_def)
  have next': "returns_serial (SerialChannelTask_run_inner P R rounds
      (if \<not> ClientLoop_is_enabled (sc_loop t2) then SerialChannelTask_update PS_Disabled t2 else t2))"
    using Cons.IH Cons.prems(2) z(2) by (simp add: SerialChannelTask_update_def)
  show ?case
    using t1 z(2) next'
    unfolding y SerialChannelTask_run_inner.simps e prod.case Let_def t1_def [symmetric] z(1) option.case
    by (auto simp: returns_serial_def split: poll.split result.split StateChange.split Shutdown.split)
qed (simp add: returns_serial_def)

lemma serial_run_returns:
  assumes "loop_wf (sc_loop t)" and "\<forall>(rs, a) \<in> set rounds. opening_bounded incoming a"
  shows "\<exists>x t'. SerialChannelTask_run P R rounds t = Some (x, t')"
  using serial_inner_returns [OF _ assms(2), of "SerialChannelTask_update PS_Disabled t" R] assms(1)
  by (auto simp: SerialChannelTask_run_def returns_serial_def SerialChannelTask_update_def split: poll.split result.split)

end

section \<open>What a listener is told\<close>

text \<open>
  C27: The states that the listener of a TCP channel sees form a path of the connection's state
  machine, whatever the commands, connections, sessions and timings. It starts as disabled;
  \<open>Connected\<close> follows only \<open>Connecting\<close>; every wait follows a failed attempt or a lost connection and
  lasts between the two delays of the retry strategy; and \<open>Shutdown\<close> is reported exactly when
  the task ends, as the last state. The run always comes to a result or waits.
\<close>

theorem tcp_channel_reports:
  assumes "byte_stream P incoming sent" and "doubling_inv (tc_retry t)" and "tc_listener t = []"
    and "rb_wf (fdr_buffer (cl_reader (tc_loop t)))" and "\<forall>(rs, a) \<in> set rounds. attempt_bounded incoming a"
  shows "\<exists>x t'. TcpChannelTask_run P doubling_retry_strategy rounds t = Some (x, t') \<and>
    history (db_min (tc_retry t)) (db_max (tc_retry t)) (tc_listener t') \<and>
    (last (tc_listener t') = CS_Shutdown \<longleftrightarrow> x = Ready (Ok Shutdown))"
proof -
  obtain x t' where run: "TcpChannelTask_run P doubling_retry_strategy rounds t = Some (x, t')"
    using byte_stream.tcp_run_returns [OF assms(1,4,5)] by blast
  from dbl.run_ok [OF assms(2,3) run] run show ?thesis by blast
qed

theorem tcp_channel_reports_witness:
  "\<exists>t'. TcpChannelTask_run (list_platform True) doubling_retry_strategy
      [([Some (Cmd_Setting Enable)],
        \<lparr>at_connecting = [], at_connect = Err UnexpectedEof, at_handshake = Panic, at_turns = [], at_waiting = [None]\<rparr>)]
      (TcpChannelTask_new (Doubling_create 5 9) DecodeLevel_default) = Some (Ready (Ok Shutdown), t') \<and>
    tc_listener t' = [CS_Disabled, CS_Connecting, CS_WaitAfterFailedConnect 5, CS_Shutdown] \<and>
    history 5 9 (tc_listener t')"
proof -
  let ?t = "TcpChannelTask_new (Doubling_create 5 9) DecodeLevel_default"
  let ?a = "\<lparr>at_connecting = [], at_connect = Err UnexpectedEof, at_handshake = Panic, at_turns = [],
    at_waiting = [None]\<rparr>"
  have step: "Doubling_after_failed_connect (Doubling_create 5 9) =
      (Ok 5, \<lparr>db_min = 5, db_max = 9, db_current = 9\<rparr>)"
    by (simp add: Doubling_after_failed_connect_def Doubling_create_def Duration_mul_def DURATION_MAX_def)
  have "\<exists>t'. TcpChannelTask_run (list_platform True) doubling_retry_strategy [([Some (Cmd_Setting Enable)], ?a)] ?t =
      Some (Ready (Ok Shutdown), t') \<and>
      tc_listener t' = [CS_Disabled, CS_Connecting, CS_WaitAfterFailedConnect 5, CS_Shutdown]"
    by (simp add: TcpChannelTask_run_def TcpChannelTask_update_def TcpChannelTask_new_def ClientLoop_new_def
        ClientLoop_fail_next_request_def TcpChannelTask_try_connect_and_run_def TcpChannelTask_connect_def
        TcpChannelTask_wait_def doubling_retry_strategy_def step ClientLoop_fail_requests_for_def
        StateChange_from_Shutdown_def Let_def)
  then obtain t' where t': "TcpChannelTask_run (list_platform True) doubling_retry_strategy
      [([Some (Cmd_Setting Enable)], ?a)] ?t = Some (Ready (Ok Shutdown), t')"
    "tc_listener t' = [CS_Disabled, CS_Connecting, CS_WaitAfterFailedConnect 5, CS_Shutdown]" by blast
  have "doubling_inv (tc_retry ?t)"
    by (simp add: TcpChannelTask_new_def doubling_create_inv DURATION_MAX_def)
  then have "history (db_min (tc_retry ?t)) (db_max (tc_retry ?t)) (tc_listener t')"
    using tcp_channel_reports [OF lp.byte_stream_axioms [of True], of ?t "[([Some (Cmd_Setting Enable)], ?a)]"] t'(1)
    by (auto simp: TcpChannelTask_new_def ClientLoop_new_def FramedReader_tcp_def FramedReader_new_def attempt_bounded_def)
  then show ?thesis using t' by (auto simp: TcpChannelTask_new_def Doubling_create_def)
qed

text \<open>
  C28: The same for a serial port: an open port is reported again only after a wait or
  after the channel has been disabled, every wait lasts between the two delays, and
  \<open>Shutdown\<close> is reported exactly when the task ends. The run always comes to a result or waits.
\<close>

theorem serial_channel_reports:
  assumes "byte_stream P incoming sent" and "doubling_inv (sc_retry t)" and "sc_listener t = []"
    and "rb_wf (fdr_buffer (cl_reader (sc_loop t)))" and "\<forall>(rs, a) \<in> set rounds. opening_bounded incoming a"
  shows "\<exists>x t'. SerialChannelTask_run P doubling_retry_strategy rounds t = Some (x, t') \<and>
    port_history (db_min (sc_retry t)) (db_max (sc_retry t)) (sc_listener t') \<and>
    (last (sc_listener t') = PS_Shutdown \<longleftrightarrow> x = Ready (Ok Shutdown))"
proof -
  obtain x t' where run: "SerialChannelTask_run P doubling_retry_strategy rounds t = Some (x, t')"
    using byte_stream.serial_run_returns [OF assms(1,4,5)] by blast
  from dbl.port_run_ok [OF assms(2,3) run] run show ?thesis by blast
qed

theorem serial_channel_reports_witness:
  "\<exists>t'. SerialChannelTask_run (list_platform True) doubling_retry_strategy
      [([Some (Cmd_Setting Enable)],
        \<lparr>oa_open = Ok ([], []), oa_turns = [(False, Ready (Some (Cmd_Setting Disable)), False, replicate 600 True)], oa_waiting = []\<rparr>),
       ([None], \<lparr>oa_open = Panic, oa_turns = [], oa_waiting = []\<rparr>)]
      (SerialChannelTask_new (Doubling_create 5 9) DecodeLevel_default) = Some (Ready (Ok Shutdown), t') \<and>
    sc_listener t' = [PS_Disabled, PS_Open, PS_Disabled, PS_Shutdown] \<and> port_history 5 9 (sc_listener t')"
proof -
  let ?t = "SerialChannelTask_new (Doubling_create 5 9) DecodeLevel_default"
  let ?rounds = "[([Some (Cmd_Setting Enable)],
        \<lparr>oa_open = Ok ([], []), oa_turns = [(False, Ready (Some (Cmd_Setting Disable)), False, replicate 600 True)], oa_waiting = []\<rparr>),
       ([None], \<lparr>oa_open = Panic, oa_turns = [], oa_waiting = []\<rparr>)]
      :: (Command option list \<times> queue_stream open_attempt) list"
  have "\<exists>t'. SerialChannelTask_run (list_platform True) doubling_retry_strategy ?rounds ?t =
      Some (Ready (Ok Shutdown), t') \<and> sc_listener t' = [PS_Disabled, PS_Open, PS_Disabled, PS_Shutdown]"
    by (simp add: SerialChannelTask_run_def SerialChannelTask_update_def SerialChannelTask_new_def ClientLoop_new_def
        ClientLoop_fail_next_request_def SerialChannelTask_try_open_and_run_def ClientLoop_poll_def
        ClientLoop_poll_command_def Receiver_recv_def ClientLoop_run_cmd_def ClientLoop_is_enabled_def
        StateChange_from_Shutdown_def Let_def)
  then obtain t' where t': "SerialChannelTask_run (list_platform True) doubling_retry_strategy ?rounds ?t =
      Some (Ready (Ok Shutdown), t')" "sc_listener t' = [PS_Disabled, PS_Open, PS_Disabled, PS_Shutdown]" by blast
  have "doubling_inv (sc_retry ?t)"
    by (simp add: SerialChannelTask_new_def doubling_create_inv DURATION_MAX_def)
  then have "port_history (db_min (sc_retry ?t)) (db_max (sc_retry ?t)) (sc_listener t')"
    using serial_channel_reports [OF lp.byte_stream_axioms [of True], of ?t ?rounds] t'(1)
    by (auto simp: SerialChannelTask_new_def ClientLoop_new_def FramedReader_rtu_response_def FramedReader_new_def
        opening_bounded_def enough_turns_def conv_defs)
  then show ?thesis using t' by (auto simp: SerialChannelTask_new_def Doubling_create_def)
qed

end
