(* ===== verification/ChannelConserves.thy ===== *)
theory ChannelConserves
  imports ChannelProgress
begin

text \<open>
  No request is lost or answered twice by a channel task, over all its rounds: while the channel is
  disabled, while it connects, in the sessions and in the waits between them. The requests that a task has
  taken from its queue are read off its run by functions that follow it.
\<close>

section \<open>Requests that arrive while there is no connection\<close>

definition requests_of :: "Command option list \<Rightarrow> ClientRequest list" where
  "requests_of rs = concat (map (\<lambda>r. received (Ready r)) rs)"

text \<open>What has been taken from \<open>rs\<close> when \<open>q\<close> is left.\<close>

definition asked :: "Command option list \<Rightarrow> Command option list \<Rightarrow> ClientRequest list" where
  "asked rs q = requests_of (take (length rs - length q) rs)"

lemma asked_simps [simp]: "asked rs rs = []" "asked (u @ q) q = requests_of u"
  by (simp_all add: asked_def requests_of_def)

lemma requests_of_simps [simp]:
  "requests_of [] = []" "requests_of (r # rs) = received (Ready r) @ requests_of rs" "requests_of (rs @ us) = requests_of rs @ requests_of us"
  by (simp_all add: requests_of_def)

lemma open_requests_append [simp]: "open_requests (xs @ ys) \<longleftrightarrow> open_requests xs \<and> open_requests ys"
  by (auto simp: open_requests_def)

lemma open_requests_Nil [simp]: "open_requests []"
  by (simp add: open_requests_def)

text \<open>Each of them is failed at once, in order.\<close>

definition fails_all :: "ClientRequest list \<Rightarrow> completions \<Rightarrow> completions \<Rightarrow> bool" where
  "fails_all reqs log log' \<longleftrightarrow> log' = log @ map (\<lambda>cb. (cb, Err NoConnection)) (callbacks reqs)"

lemma callbacks_append [simp]: "callbacks (xs @ ys) = callbacks xs @ callbacks ys" "callbacks [] = []"
  by (simp_all add: callbacks_def)

lemma fails_all_trans: "fails_all xs l m \<Longrightarrow> fails_all ys m n \<Longrightarrow> fails_all (xs @ ys) l n"
  by (simp add: fails_all_def)

lemma fails_all_Nil [simp]: "fails_all [] l m \<longleftrightarrow> m = l"
  by (simp add: fails_all_def callbacks_def)

lemma fail_next_fails:
  assumes "open_requests (received (Ready r))" and "ClientLoop_fail_next_request r s = (x, s')"
  shows "fails_all (received (Ready r)) (snd s) (snd s')"
proof (cases "\<exists>req. r = Some (Cmd_Request req)")
  case True
  then obtain req where req: "r = Some (Cmd_Request req)" by blast
  then obtain cb where cb: "request_callback req = Some cb" using assms(1) by (auto simp: open_requests_def)
  obtain d' where "RequestDetails_fail NoConnection (cr_details req) (snd s) = (d', snd s @ [(cb, Err NoConnection)])"
    "pr_callback (details_promise d') = None" using request_ops(2) [OF cb] by blast
  then show ?thesis
    using assms(2) req cb
    by (cases s) (auto simp: ClientLoop_fail_next_request_def fails_all_def callbacks_def Request_drop_done)
next
  case False
  then have "received (Ready r) = []" by (cases "Ready r" rule: received.cases) auto
  then show ?thesis
    using assms(2) False by (cases s) (auto simp: ClientLoop_fail_next_request_def Let_def split: option.splits Command.splits if_splits)
qed

lemma wait_for_enabled_fails:
  assumes "open_requests (requests_of rs)" and "ClientLoop_wait_for_enabled rs s = (x, s', q)"
  shows "\<exists>u. rs = u @ q \<and> fails_all (requests_of u) (snd s) (snd s')"
  using assms
proof (induction rs s rule: ClientLoop_wait_for_enabled.induct)
  case (2 r rs s)
  show ?case
  proof (cases "cl_enabled (fst s)")
    case False
    obtain y s1 where y: "ClientLoop_fail_next_request r s = (y, s1)" by (meson surj_pair)
    have one: "fails_all (received (Ready r)) (snd s) (snd s1)" using fail_next_fails [OF _ y] 2 by simp
    show ?thesis
    proof (cases "y = Err Change_Shutdown \<or> y = Panic")
      case True
      then show ?thesis using 2 False y one by (intro exI [of _ "[r]"]) auto
    next
      case no: False
      then have "ClientLoop_wait_for_enabled rs s1 = (x, s', q)"
        using 2 False y by (auto split: result.splits StateChange.splits)
      moreover have "\<exists>u. rs = u @ q \<and> fails_all (requests_of u) (snd s1) (snd s')"
        using 2 False y no calculation by (cases y; cases "y = Err Change_Disable") (auto split: StateChange.splits)
      ultimately obtain u where "rs = u @ q" "fails_all (requests_of u) (snd s1) (snd s')" by blast
      then show ?thesis using fails_all_trans [OF one] by (intro exI [of _ "r # u"]) auto
    qed
  qed (use 2 in auto)
qed (auto split: if_splits)

lemma fail_requests_fails:
  assumes "open_requests (requests_of rs)" and "ClientLoop_fail_requests rs s = (x, s', q)"
  shows "\<exists>u. rs = u @ q \<and> fails_all (requests_of u) (snd s) (snd s')"
  using assms
proof (induction rs arbitrary: s)
  case (Cons r rs)
  obtain y s1 where y: "ClientLoop_fail_next_request r s = (y, s1)" by (meson surj_pair)
  have one: "fails_all (received (Ready r)) (snd s) (snd s1)" using fail_next_fails [OF _ y] Cons.prems by simp
  show ?case
  proof (cases "\<exists>e. y = Err e")
    case True
    then show ?thesis using Cons.prems y one by (intro exI [of _ "[r]"]) auto
  next
    case False
    then have "ClientLoop_fail_requests rs s1 = (x, s', q)" using Cons.prems y by (auto split: result.splits)
    then obtain u where "rs = u @ q" "fails_all (requests_of u) (snd s1) (snd s')"
      using Cons.IH [of s1] Cons.prems by auto
    then show ?thesis using fails_all_trans [OF one] by (intro exI [of _ "r # u"]) auto
  qed
qed simp

lemma fail_requests_for_fails:
  assumes "open_requests (requests_of rs)" and "ClientLoop_fail_requests_for rs s = (x, s', q)"
  shows "\<exists>u. rs = u @ q \<and> fails_all (requests_of u) (snd s) (snd s')"
proof -
  obtain y where "ClientLoop_fail_requests rs s = (y, s', q)"
    using assms(2) by (auto simp: ClientLoop_fail_requests_for_def split: prod.splits poll.splits)
  from fail_requests_fails [OF assms(1) this] show ?thesis .
qed

section \<open>A session that has ended holds no request\<close>

lemma finish_idle: "cw_current (snd (ClientLoop_finish_request req res w)) = None"
  by (auto simp: ClientLoop_finish_request_def Let_def split: result.split prod.split option.split)

lemma handle_response_idle: "cw_current (snd (ClientLoop_handle_response P req frame w)) = None"
  by (simp add: ClientLoop_handle_response_def finish_idle split: prod.split)

lemma poll_request_idle:
  assumes "ClientLoop_poll_request P fired ts req tx w = Some (Ready r, w')"
  shows "cw_current w' = None"
  using assms by (auto simp: ClientLoop_poll_request_def split: option.splits poll.splits result.splits prod.splits)
    (metis finish_idle handle_response_idle snd_conv)+

lemma run_one_request_idle:
  assumes "ClientLoop_run_one_request P fired ts req w = Some (Ready r, w')"
  shows "cw_current w' = None"
  using assms
  by (auto simp: ClientLoop_run_one_request_def Let_def intro: poll_request_idle split: prod.splits result.splits)
    (metis finish_idle snd_conv)+

lemma poll_command_idle:
  assumes "cw_current w = None" and "ClientLoop_poll_command P fired ts recv w = Some (x, w')" and "x \<noteq> Pending"
  shows "cw_current w' = None"
proof -
  obtain r where "x = Ready r" using assms(3) by (cases x) auto
  then show ?thesis
    using assms(1,2)
    by (auto simp: ClientLoop_poll_command_def ClientLoop_run_cmd_def Let_def dest: run_one_request_idle
        split: poll.splits result.splits Command.splits if_splits)
qed

lemma poll_idle:
  assumes "ClientLoop_poll P ff recv fired ts w = Some (Ready r, w')"
  shows "cw_current w' = None"
proof (cases "cw_current w")
  case (Some y)
  then show ?thesis using assms by (cases y) (auto simp: ClientLoop_poll_def dest: poll_request_idle)
next
  case None
  show ?thesis
  proof (cases ff)
    case True
    obtain z w1 where z: "ClientLoop_poll_idle_frame P w = Some (z, w1)"
      using assms None True by (auto simp: ClientLoop_poll_def split: option.splits)
    then have "cw_current w1 = None" using poll_idle_keeps None by metis
    then show ?thesis
      using assms None True z poll_command_idle [of w1 P fired ts recv "Ready r" w']
      by (cases "z = Pending") (auto simp: ClientLoop_poll_def split: poll.splits)
  next
    case False
    obtain z w1 where z: "ClientLoop_poll_command P fired ts recv w = Some (z, w1)"
      using assms None False by (auto simp: ClientLoop_poll_def split: option.splits)
    show ?thesis
    proof (cases "z = Pending")
      case True
      then show ?thesis
        using assms None False z poll_idle_keeps [of P w1 "Ready r" w'] by (auto simp: ClientLoop_poll_def split: if_splits)
    next
      case no: False
      then show ?thesis
        using assms None False z poll_command_idle [OF None z no] by (auto simp: ClientLoop_poll_def split: poll.splits)
    qed
  qed
qed

lemma run_idle: "ClientLoop_run P es w = Some (Ready r, w') \<Longrightarrow> cw_current w' = None"
proof (induction es arbitrary: w)
  case (Cons e es)
  obtain ff recv fired ts where e: "e = (ff, recv, fired, ts)" by (cases e) auto
  then show ?case
    using Cons by (auto dest: poll_idle split: option.splits prod.splits poll.splits result.splits)
qed simp

section \<open>What a TCP channel has taken\<close>

definition taken_waiting :: "(Duration, unit) result \<times> 'r \<Rightarrow> Command option list \<Rightarrow> loop_state \<Rightarrow> ClientRequest list" where
  "taken_waiting x rs s = (case x of
      (Ok _, _) \<Rightarrow> (case ClientLoop_fail_requests_for rs s of (_, _, q) \<Rightarrow> asked rs q)
    | _ \<Rightarrow> [])"

definition taken_connected ::
    "('r, 'w, 'd, 'io) platform \<Rightarrow> 's RetryStrategy \<Rightarrow> 'io attempt \<Rightarrow> 'io \<Rightarrow> 's TcpChannelTask \<Rightarrow> ClientRequest list" where
  "taken_connected P R a phys t =
     (let w = \<lparr>cw_loop = tc_loop t, cw_io = phys, cw_log = tc_log t, cw_current = None\<rparr> in
      all_taken P (at_turns a) w @
      (case ClientLoop_run P (at_turns a) w of
         Some (Ready (Ok e), w') \<Rightarrow>
           if e = Session_Shutdown then []
           else taken_waiting (rs_after_disconnect R (rs_reset R (tc_retry t))) (at_waiting a) (cw_loop w', cw_log w')
       | _ \<Rightarrow> []))"

definition taken_attempt ::
    "('r, 'w, 'd, 'io) platform \<Rightarrow> 's RetryStrategy \<Rightarrow> 'io attempt \<Rightarrow> 's TcpChannelTask \<Rightarrow> ClientRequest list" where
  "taken_attempt P R a t = (case ClientLoop_fail_requests (at_connecting a) (tc_loop t, tc_log t) of
      (x, (c, log), q) \<Rightarrow> asked (at_connecting a) q @
        (let t' = t\<lparr>tc_loop := c, tc_log := log\<rparr> in
         case x of
           Ready _ \<Rightarrow> []
         | Pending \<Rightarrow> (case bind_result (map_err (\<lambda>_. ()) (at_connect a)) (\<lambda>_. at_handshake a) of
             Ok phys \<Rightarrow> taken_connected P R a phys t'
           | Err _ \<Rightarrow> taken_waiting (rs_after_failed_connect R (tc_retry t)) (at_waiting a) (c, log)
           | Panic \<Rightarrow> [])))"

fun channel_taken ::
    "('r, 'w, 'd, 'io) platform \<Rightarrow> 's RetryStrategy \<Rightarrow> (Command option list \<times> 'io attempt) list \<Rightarrow> 's TcpChannelTask \<Rightarrow>
     ClientRequest list" where
  "channel_taken P R [] t = []"
| "channel_taken P R ((rs, a) # rounds) t =
     (case ClientLoop_wait_for_enabled rs (tc_loop t, tc_log t) of
        (x, (c, log), q) \<Rightarrow> asked rs q @
          (let t1 = t\<lparr>tc_loop := c, tc_log := log\<rparr> in
           case x of
             Ready (Ok _) \<Rightarrow> taken_attempt P R a t1 @
               (case TcpChannelTask_try_connect_and_run P R a t1 of
                  Some (Ready (Ok _), t2) \<Rightarrow> channel_taken P R rounds
                    (if \<not> ClientLoop_is_enabled (tc_loop t2) then TcpChannelTask_update CS_Disabled t2 else t2)
                | Some (Ready (Err Change_Disable), t2) \<Rightarrow> channel_taken P R rounds
                    (if \<not> ClientLoop_is_enabled (tc_loop t2) then TcpChannelTask_update CS_Disabled t2 else t2)
                | _ \<Rightarrow> [])
           | _ \<Rightarrow> []))"

text \<open>The requests that can arrive, all with their callbacks.\<close>

definition attempt_open :: "'io attempt \<Rightarrow> bool" where
  "attempt_open a \<longleftrightarrow> open_requests (requests_of (at_connecting a)) \<and> open_requests (requests_of (at_waiting a)) \<and>
     (\<forall>(ff, recv, fired, ts) \<in> set (at_turns a). open_requests (received recv))"

section \<open>Conservation\<close>

definition tcp_flight :: "'s TcpChannelTask \<Rightarrow> ClientRequest list" where
  "tcp_flight t = (case tc_current t of None \<Rightarrow> [] | Some (req, _) \<Rightarrow> [req])"

text \<open>\<open>accounts reqs t t'\<close>: from an idle task, the callbacks that have run and the request in flight are those taken.\<close>

definition accounts :: "ClientRequest list \<Rightarrow> 's TcpChannelTask \<Rightarrow> 's TcpChannelTask \<Rightarrow> bool" where
  "accounts reqs t t' \<longleftrightarrow> open_requests (tcp_flight t') \<and>
     (\<exists>new. tc_log t' = tc_log t @ new \<and> map fst new @ callbacks (tcp_flight t') = callbacks reqs)"

lemma accounts_trans:
  "accounts xs t u \<Longrightarrow> tc_current u = None \<Longrightarrow> accounts ys u v \<Longrightarrow> accounts (xs @ ys) t v"
  by (auto simp: accounts_def tcp_flight_def callbacks_def)

lemma accounts_offline:
  "fails_all reqs (tc_log t) (tc_log t') \<Longrightarrow> tc_current t' = None \<Longrightarrow> accounts reqs t t'"
  by (auto simp: accounts_def tcp_flight_def fails_all_def callbacks_def comp_def)

lemma wait_accounts:
  assumes "open_requests (requests_of rs)" and "tc_current t = None" and "TcpChannelTask_wait x st rs t = (res, t')"
  shows "accounts (taken_waiting x rs (tc_loop t, tc_log t)) t t' \<and> tc_current t' = None"
proof (cases "\<exists>d r. x = (Ok d, r)")
  case True
  then obtain d r where x: "x = (Ok d, r)" by blast
  obtain y c log q where y: "ClientLoop_fail_requests_for rs (tc_loop t, tc_log t) = (y, (c, log), q)" by (metis prod.collapse)
  obtain u where u: "rs = u @ q" "fails_all (requests_of u) (tc_log t) log" using fail_requests_for_fails [OF assms(1) y] by auto
  have "tc_log t' = log \<and> tc_current t' = None"
    using assms(2,3) x y by (auto simp: TcpChannelTask_wait_def TcpChannelTask_update_def Let_def)
  then show ?thesis using u x y accounts_offline [of _ t t'] by (simp add: taken_waiting_def)
next
  case False
  then have "taken_waiting x rs (tc_loop t, tc_log t) = []" "tc_log t' = tc_log t" "tc_current t' = None"
    using assms(2,3) by (auto simp: TcpChannelTask_wait_def taken_waiting_def split: prod.splits result.splits)
  then show ?thesis using accounts_offline [of "[]" t t'] by simp
qed

context platform
begin

lemma connected_accounts:
  assumes "attempt_open a" and "TcpChannelTask_run_connected P R a phys t = Some (x, t')"
  shows "accounts (taken_connected P R a phys t) t t' \<and> (x \<noteq> Pending \<longrightarrow> tc_current t' = None)"
proof -
  let ?w = "\<lparr>cw_loop = tc_loop t, cw_io = phys, cw_log = tc_log t, cw_current = None\<rparr>"
  define t2 where "t2 = (TcpChannelTask_update CS_Connected t)\<lparr>tc_retry := rs_reset R (tc_retry t)\<rparr>"
  have t2: "tc_loop t2 = tc_loop t" "tc_log t2 = tc_log t" "tc_retry t2 = rs_reset R (tc_retry t)"
    "TcpChannelTask_update CS_Connected t\<lparr>tc_retry := rs_reset R (tc_retry (TcpChannelTask_update CS_Connected t))\<rparr> = t2"
    by (simp_all add: t2_def TcpChannelTask_update_def)
  note run = assms(2) [unfolded TcpChannelTask_run_connected_def Let_def t2(4), unfolded t2(1,2)]
  obtain y w where y: "ClientLoop_run P (at_turns a) ?w = Some (y, w)" using run by (auto split: option.splits)
  define t3 where "t3 = t2\<lparr>tc_loop := cw_loop w, tc_log := cw_log w, tc_current := cw_current w\<rparr>"
  note run' = run [unfolded y option.case prod.case, folded t3_def]
  have "open_requests (all_taken P (at_turns a) ?w)" by (rule all_taken_open) (use assms(1) in \<open>auto simp: attempt_open_def\<close>)
  from run_conserves [OF _ this y] have s: "accounts (all_taken P (at_turns a) ?w) t t3"
    by (auto simp: conserves_def accounts_def in_flight_def tcp_flight_def t3_def)
  show ?thesis
  proof (cases "\<exists>e. y = Ready (Ok e) \<and> e \<noteq> Session_Shutdown")
    case True
    then obtain e where e: "y = Ready (Ok e)" "e \<noteq> Session_Shutdown" by blast
    have idle: "tc_current t3 = None" using run_idle y e by (simp add: t3_def)
    obtain res t4 where w: "TcpChannelTask_wait (rs_after_disconnect R (tc_retry t3)) CS_WaitAfterDisconnect (at_waiting a) t3 = (res, t4)"
      by (meson surj_pair)
    have "t' = t4" using run' e w by (cases e) auto
    moreover have "accounts (taken_waiting (rs_after_disconnect R (rs_reset R (tc_retry t))) (at_waiting a) (cw_loop w, cw_log w)) t3 t4 \<and>
        tc_current t4 = None"
      using wait_accounts [OF _ idle w] assms(1) t2(3) by (simp add: attempt_open_def t3_def)
    ultimately show ?thesis using accounts_trans [OF s idle] y e by (simp add: taken_connected_def)
  next
    case False
    then have "t' = t3" "x \<noteq> Pending \<Longrightarrow> y \<noteq> Pending" using run' by (auto split: poll.splits result.splits SessionError.splits)
    moreover have "taken_connected P R a phys t = all_taken P (at_turns a) ?w"
      using False y by (auto simp: taken_connected_def split: poll.splits result.splits)
    moreover have "y \<noteq> Pending \<Longrightarrow> tc_current t3 = None" using run_idle y by (cases y) (auto simp: t3_def)
    ultimately show ?thesis using s by simp
  qed
qed

lemma attempt_accounts:
  assumes "attempt_open a" and "tc_current t = None" and "TcpChannelTask_try_connect_and_run P R a t = Some (x, t')"
  shows "accounts (taken_attempt P R a t) t t' \<and> (x \<noteq> Pending \<longrightarrow> tc_current t' = None)"
proof -
  define t0 where "t0 = TcpChannelTask_update CS_Connecting t"
  obtain y c log q where y: "ClientLoop_fail_requests (at_connecting a) (tc_loop t, tc_log t) = (y, (c, log), q)" by (metis prod.collapse)
  obtain u where u: "at_connecting a = u @ q" "fails_all (requests_of u) (tc_log t) log"
    using fail_requests_fails [OF _ y] assms(1) by (auto simp: attempt_open_def)
  define t1 where "t1 = t0\<lparr>tc_loop := c, tc_log := log\<rparr>"
  have t1: "tc_loop t1 = c" "tc_log t1 = log" "tc_retry t1 = tc_retry t" "tc_current t1 = None"
    using assms(2) by (simp_all add: t1_def t0_def TcpChannelTask_update_def)
  have s: "accounts (asked (at_connecting a) q) t t1" using accounts_offline [of "requests_of u" t t1] u t1 by simp
  have conn: "TcpChannelTask_connect a t0 = ((case y of Pending \<Rightarrow> Ok (at_connect a) | Ready sc \<Rightarrow> Err sc), t1)"
    using y by (simp add: TcpChannelTask_connect_def t1_def t0_def TcpChannelTask_update_def split: poll.split)
  note run = assms(3) [unfolded TcpChannelTask_try_connect_and_run_def, folded t0_def, unfolded conn prod.case]
  let ?c = "bind_result (map_err (\<lambda>_. ()) (at_connect a)) (\<lambda>_. at_handshake a)"
  have same: "taken_connected P R a phys (t\<lparr>tc_loop := c, tc_log := log\<rparr>) = taken_connected P R a phys t1" for phys
  proof -
    have f: "tc_retry (t\<lparr>tc_loop := c, tc_log := log\<rparr>) = tc_retry t" "tc_loop (t\<lparr>tc_loop := c, tc_log := log\<rparr>) = c"
      "tc_log (t\<lparr>tc_loop := c, tc_log := log\<rparr>) = log" by simp_all
    show ?thesis unfolding taken_connected_def f t1(1-3) ..
  qed
  show ?thesis
  proof (cases "y = Pending \<and> ?c \<noteq> Panic")
    case False
    then have "t' = t1" "taken_attempt P R a t = asked (at_connecting a) q"
      using run y by (auto simp: taken_attempt_def split: poll.splits)
    then show ?thesis using s t1 by simp
  next
    case True
    show ?thesis
    proof (cases "\<exists>phys. ?c = Ok phys")
      case phys: True
      then obtain phys where phys: "?c = Ok phys" by blast
      then have "TcpChannelTask_run_connected P R a phys t1 = Some (x, t')" using run True by simp
      from connected_accounts [OF assms(1) this] show ?thesis
        using accounts_trans [OF s t1(4)] True phys y same by (simp add: taken_attempt_def)
    next
      case no: False
      then obtain e where e: "?c = Err e" using True by (cases ?c) auto
      obtain res t2 where w: "TcpChannelTask_wait (rs_after_failed_connect R (tc_retry t1)) CS_WaitAfterFailedConnect (at_waiting a) t1 = (res, t2)"
        by (meson surj_pair)
      have "t' = t2" using run True e w by simp
      then show ?thesis
        using accounts_trans [OF s t1(4)] wait_accounts [OF _ t1(4) w] assms(1) True e y t1
        by (simp add: taken_attempt_def attempt_open_def)
    qed
  qed
qed

lemma channel_accounts:
  assumes "\<forall>(rs, a) \<in> set rounds. open_requests (requests_of rs) \<and> attempt_open a" and "tc_current t = None"
    and "TcpChannelTask_run_inner P R rounds t = Some (x, t')"
  shows "accounts (channel_taken P R rounds t) t t'"
  using assms
proof (induction rounds arbitrary: t)
  case Nil
  then show ?case using accounts_offline [of "[]" t t] by simp
next
  case (Cons y rounds)
  obtain rs a where y: "y = (rs, a)" by (cases y)
  obtain e c log q where e: "ClientLoop_wait_for_enabled rs (tc_loop t, tc_log t) = (e, (c, log), q)" by (metis prod.collapse)
  obtain u where u: "rs = u @ q" "fails_all (requests_of u) (tc_log t) log"
    using wait_for_enabled_fails [OF _ e] Cons.prems(1) y by auto
  define t1 where "t1 = t\<lparr>tc_loop := c, tc_log := log\<rparr>"
  have t1: "tc_current t1 = None" "tc_log t1 = log" using Cons.prems(2) by (simp_all add: t1_def)
  have s: "accounts (asked rs q) t t1" using accounts_offline [of "requests_of u" t t1] u t1 by simp
  note start = Cons.prems(3) [unfolded y TcpChannelTask_run_inner.simps e prod.case Let_def, folded t1_def]
  note taken = channel_taken.simps(2) [of P R rs a rounds t, unfolded e prod.case Let_def, folded t1_def]
  show ?case
  proof (cases "\<exists>v. e = Ready (Ok v)")
    case False
    then have "t' = t1" "channel_taken P R (y # rounds) t = asked rs q"
      using start taken y by (auto split: poll.splits result.splits Shutdown.splits)
    then show ?thesis using s by simp
  next
    case True
    then obtain z t2 where z: "TcpChannelTask_try_connect_and_run P R a t1 = Some (z, t2)"
      using start by (auto split: option.splits)
    have a: "accounts (taken_attempt P R a t1) t1 t2" "z \<noteq> Pending \<Longrightarrow> tc_current t2 = None"
      using attempt_accounts [OF _ t1(1) z] Cons.prems(1) y by auto
    note s2 = accounts_trans [OF s t1(1) a(1)]
    let ?t = "if \<not> ClientLoop_is_enabled (tc_loop t2) then TcpChannelTask_update CS_Disabled t2 else t2"
    show ?thesis
    proof (cases "(\<exists>v. z = Ready (Ok v)) \<or> z = Ready (Err Change_Disable)")
      case go: True
      then have next': "TcpChannelTask_run_inner P R rounds ?t = Some (x, t')" using start True z by auto
      have idle: "tc_current t2 = None" "tc_current ?t = None" using a(2) go by (auto simp: TcpChannelTask_update_def)
      have "accounts (channel_taken P R rounds ?t) ?t t'" using Cons.IH [OF _ idle(2) next'] Cons.prems(1) by simp
      then have "accounts (channel_taken P R rounds ?t) t2 t'" by (simp add: accounts_def TcpChannelTask_update_def split: if_splits)
      moreover have "channel_taken P R (y # rounds) t = asked rs q @ taken_attempt P R a t1 @ channel_taken P R rounds ?t"
        using taken y True z go by auto
      ultimately show ?thesis using accounts_trans [OF s2 idle(1)] by simp
    next
      case False
      then have "t' = t2" "channel_taken P R (y # rounds) t = asked rs q @ taken_attempt P R a t1"
        using start taken y True z by (auto split: poll.splits result.splits StateChange.splits)
      then show ?thesis using s2 by simp
    qed
  qed
qed

end

text \<open>A run of the task starts by reporting that it is disabled.\<close>

definition tcp_taken ::
    "('r, 'w, 'd, 'io) platform \<Rightarrow> 's RetryStrategy \<Rightarrow> (Command option list \<times> 'io attempt) list \<Rightarrow> 's TcpChannelTask \<Rightarrow>
     ClientRequest list" where
  "tcp_taken P R rounds t = channel_taken P R rounds (TcpChannelTask_update CS_Disabled t)"

context platform
begin

lemma run_accounts:
  assumes "\<forall>(rs, a) \<in> set rounds. open_requests (requests_of rs) \<and> attempt_open a" and "tc_current t = None"
    and "TcpChannelTask_run P R rounds t = Some (x, t')"
  shows "accounts (tcp_taken P R rounds t) t t'"
proof -
  define t0 where "t0 = TcpChannelTask_update CS_Disabled t"
  have t0: "tc_current t0 = None" "tc_log t0 = tc_log t" using assms(2) by (simp_all add: t0_def TcpChannelTask_update_def)
  obtain y t1 where y: "TcpChannelTask_run_inner P R rounds t0 = Some (y, t1)"
    using assms(3) by (auto simp: TcpChannelTask_run_def t0_def split: option.splits)
  have "tc_log t' = tc_log t1" "tc_current t' = tc_current t1"
    using assms(3) y unfolding TcpChannelTask_run_def t0_def [symmetric]
    by (auto simp: TcpChannelTask_update_def split: poll.splits result.splits)
  then show ?thesis
    using channel_accounts [OF assms(1) t0(1) y] t0(2) by (simp add: tcp_taken_def t0_def [symmetric] accounts_def tcp_flight_def)
qed

end

end
