(* ===== verification/CommandLine.thy ===== *)
theory CommandLine
  imports FfiClient
begin

text \<open>
  The command line client \<open>rodbus-client/src/main.rs\<close>: the arguments it declares, the command
  it makes of them and its calls of the asynchronous channel. The crate \<open>clap\<close>, which
  parses the command line against the declared arguments, is a parameter; strings are sequences of
  8-bit characters.
\<close>

section \<open>Errors and commands\<close>

datatype CliError =
    Cli_BadRange InvalidRange
  | BadAddr
  | BadInt IntErrorKind
  | BadBool
  | BadCharInBitString char
  | Cli_Request RequestError
  | MissingSubCommand
  | Cli_Shutdown

definition CliError_from_RequestError :: "RequestError \<Rightarrow> CliError" where
  [conv_defs]: "CliError_from_RequestError err = Cli_Request err"

definition CliError_from_AddrParseError :: "unit \<Rightarrow> CliError" where
  [conv_defs]: "CliError_from_AddrParseError err = BadAddr"

definition CliError_from_ParseIntError :: "IntErrorKind \<Rightarrow> CliError" where
  [conv_defs]: "CliError_from_ParseIntError err = BadInt err"

definition CliError_from_ParseBoolError :: "unit \<Rightarrow> CliError" where
  [conv_defs]: "CliError_from_ParseBoolError err = BadBool"

definition CliError_from_InvalidRange :: "InvalidRange \<Rightarrow> CliError" where
  [conv_defs]: "CliError_from_InvalidRange err = Cli_BadRange err"

definition CliError_from_InvalidRequest :: "InvalidRequest \<Rightarrow> CliError" where
  [conv_defs]: "CliError_from_InvalidRequest err = Cli_Request (RequestError_from_InvalidRequest err)"

definition CliError_from_Shutdown :: "Shutdown \<Rightarrow> CliError" where
  [conv_defs]: "CliError_from_Shutdown x = Cli_Shutdown"

datatype CliCommand =
    Cli_ReadCoils AddressRange
  | Cli_ReadDiscreteInputs AddressRange
  | Cli_ReadHoldingRegisters AddressRange
  | Cli_ReadInputRegisters AddressRange
  | Cli_WriteSingleRegister "u16 Indexed"
  | Cli_WriteSingleCoil "bool Indexed"
  | Cli_WriteMultipleCoils "bool WriteMultiple"
  | Cli_WriteMultipleRegisters "u16 WriteMultiple"

record CliArgs =
  ca_address :: "IpAddr \<times> u16"
  ca_id :: UnitId
  ca_command :: CliCommand
  ca_period :: "Duration option"

definition CliArgs_new :: "IpAddr \<times> u16 \<Rightarrow> UnitId \<Rightarrow> CliCommand \<Rightarrow> Duration option \<Rightarrow> CliArgs" where
  "CliArgs_new address i command period =
     \<lparr>ca_address = address, ca_id = i, ca_command = command, ca_period = period\<rparr>"

section \<open>Arguments\<close>

text \<open>The operations of \<open>clap::ArgMatches\<close> that the program uses.\<close>

record 'm clap =
  value_of :: "'m \<Rightarrow> string \<Rightarrow> string option"
  subcommand_matches :: "'m \<Rightarrow> string \<Rightarrow> 'm option"

text \<open>\<open>value_of(..).unwrap()\<close>\<close>

definition unwrap_value :: "'m clap \<Rightarrow> string \<Rightarrow> 'm \<Rightarrow> (string, 'e) result" where
  "unwrap_value C nm m = (case value_of C m nm of Some s \<Rightarrow> Ok s | None \<Rightarrow> Panic)"

definition get_index :: "'m clap \<Rightarrow> 'm \<Rightarrow> (u16, IntErrorKind) result" where
  "get_index C arg = bind_result (unwrap_value C ''index'' arg) u16_from_str"

definition get_start :: "'m clap \<Rightarrow> 'm \<Rightarrow> (u16, IntErrorKind) result" where
  "get_start C arg = bind_result (unwrap_value C ''start'' arg) u16_from_str"

definition get_value :: "'m clap \<Rightarrow> 'm \<Rightarrow> (u16, IntErrorKind) result" where
  "get_value C arg = bind_result (unwrap_value C ''value'' arg) u16_from_str"

fun push_bits :: "bool list \<Rightarrow> string \<Rightarrow> (bool list, CliError) result" where
  "push_bits values [] = Ok values"
| "push_bits values (c # cs) =
     (if c = CHR ''0'' then push_bits (values @ [False]) cs
      else if c = CHR ''1'' then push_bits (values @ [True]) cs
      else Err (BadCharInBitString c))"

definition get_bit_values :: "'m clap \<Rightarrow> 'm \<Rightarrow> (bool list, CliError) result" where
  "get_bit_values C arg = bind_result (unwrap_value C ''values'' arg) (\<lambda>str. push_bits [] (rev str))"

fun push_registers :: "u16 list \<Rightarrow> string list \<Rightarrow> (u16 list, IntErrorKind) result" where
  "push_registers values [] = Ok values"
| "push_registers values (p # ps) = bind_result (u16_from_str p) (\<lambda>v. push_registers (values @ [v]) ps)"

definition get_register_values :: "'m clap \<Rightarrow> 'm \<Rightarrow> (u16 list, IntErrorKind) result" where
  "get_register_values C arg =
     bind_result (unwrap_value C ''values'' arg) (\<lambda>str. push_registers [] (split_at_char CHR '','' str))"

definition get_quantity :: "'m clap \<Rightarrow> 'm \<Rightarrow> (u16, IntErrorKind) result" where
  "get_quantity C arg = bind_result (unwrap_value C ''quantity'' arg) u16_from_str"

definition get_period_ms :: "string \<Rightarrow> (Duration, IntErrorKind) result" where
  "get_period_ms s = bind_result (usize_from_str s) (\<lambda>num. Ok (num * 1000000))"

definition get_address_range :: "'m clap \<Rightarrow> 'm \<Rightarrow> (AddressRange, CliError) result" where
  "get_address_range C arg =
     bind_result (map_err CliError_from_ParseIntError (get_start C arg)) (\<lambda>start.
     bind_result (map_err CliError_from_ParseIntError (get_quantity C arg)) (\<lambda>quantity.
       map_err CliError_from_InvalidRange (AddressRange_try_from start quantity)))"

definition get_indexed_register_value :: "'m clap \<Rightarrow> 'm \<Rightarrow> (u16 Indexed, CliError) result" where
  "get_indexed_register_value C arg =
     bind_result (map_err CliError_from_ParseIntError (get_index C arg)) (\<lambda>index.
     bind_result (map_err CliError_from_ParseIntError (get_value C arg)) (\<lambda>value.
       Ok (Indexed_new index value)))"

definition get_command :: "'m clap \<Rightarrow> 'm \<Rightarrow> (CliCommand, CliError) result" where
  "get_command C matches =
    (case subcommand_matches C matches ''rc'' of
       Some m \<Rightarrow> bind_result (get_address_range C m) (\<lambda>r. Ok (Cli_ReadCoils r))
     | None \<Rightarrow>
    (case subcommand_matches C matches ''rdi'' of
       Some m \<Rightarrow> bind_result (get_address_range C m) (\<lambda>r. Ok (Cli_ReadDiscreteInputs r))
     | None \<Rightarrow>
    (case subcommand_matches C matches ''rhr'' of
       Some m \<Rightarrow> bind_result (get_address_range C m) (\<lambda>r. Ok (Cli_ReadHoldingRegisters r))
     | None \<Rightarrow>
    (case subcommand_matches C matches ''rir'' of
       Some m \<Rightarrow> bind_result (get_address_range C m) (\<lambda>r. Ok (Cli_ReadInputRegisters r))
     | None \<Rightarrow>
    (case subcommand_matches C matches ''wsr'' of
       Some m \<Rightarrow> bind_result (get_indexed_register_value C m) (\<lambda>x. Ok (Cli_WriteSingleRegister x))
     | None \<Rightarrow>
    (case subcommand_matches C matches ''wsc'' of
       Some m \<Rightarrow>
         bind_result (map_err CliError_from_ParseIntError (get_index C m)) (\<lambda>index.
         bind_result (unwrap_value C ''value'' m) (\<lambda>s.
         bind_result (map_err CliError_from_ParseBoolError (bool_from_str s)) (\<lambda>value.
           Ok (Cli_WriteSingleCoil (Indexed_new index value)))))
     | None \<Rightarrow>
    (case subcommand_matches C matches ''wmc'' of
       Some m \<Rightarrow>
         bind_result (map_err CliError_from_ParseIntError (get_start C m)) (\<lambda>start.
         bind_result (get_bit_values C m) (\<lambda>values.
         bind_result (map_err CliError_from_InvalidRequest (WriteMultiple_from start values)) (\<lambda>wm.
           Ok (Cli_WriteMultipleCoils wm))))
     | None \<Rightarrow>
    (case subcommand_matches C matches ''wmr'' of
       Some m \<Rightarrow>
         bind_result (map_err CliError_from_ParseIntError (get_start C m)) (\<lambda>start.
         bind_result (map_err CliError_from_ParseIntError (get_register_values C m)) (\<lambda>values.
         bind_result (map_err CliError_from_InvalidRequest (WriteMultiple_from start values)) (\<lambda>wm.
           Ok (Cli_WriteMultipleRegisters wm))))
     | None \<Rightarrow> Err MissingSubCommand))))))))"

text \<open>The arguments that the program declares, with their option letters and names.\<close>

record arg_decl =
  ad_name :: string
  ad_short :: char
  ad_required :: bool
  ad_default :: "string option"

definition required_arg :: "string \<Rightarrow> char \<Rightarrow> arg_decl" where
  "required_arg nm short = \<lparr>ad_name = nm, ad_short = short, ad_required = True, ad_default = None\<rparr>"

definition app_args :: "arg_decl list" where
  "app_args =
    [\<lparr>ad_name = ''host'', ad_short = CHR ''h'', ad_required = False, ad_default = Some ''127.0.0.1:502''\<rparr>,
     \<lparr>ad_name = ''id'', ad_short = CHR ''i'', ad_required = False, ad_default = Some ''1''\<rparr>,
     \<lparr>ad_name = ''period'', ad_short = CHR ''p'', ad_required = False, ad_default = None\<rparr>]"

definition read_args :: "arg_decl list" where
  "read_args = [required_arg ''start'' (CHR ''s''), required_arg ''quantity'' (CHR ''q'')]"

definition write_single_args :: "arg_decl list" where
  "write_single_args = [required_arg ''index'' (CHR ''i''), required_arg ''value'' (CHR ''v'')]"

definition write_multiple_args :: "arg_decl list" where
  "write_multiple_args = [required_arg ''start'' (CHR ''s''), required_arg ''values'' (CHR ''v'')]"

definition app_subcommands :: "(string \<times> arg_decl list) list" where
  "app_subcommands =
    [(''rc'', read_args), (''rdi'', read_args), (''rhr'', read_args), (''rir'', read_args),
     (''wsc'', write_single_args), (''wsr'', write_single_args),
     (''wmc'', write_multiple_args), (''wmr'', write_multiple_args)]"

text \<open>
  \<open>parse_args\<close> after \<open>get_matches\<close>, which ends the program itself when the command line
  does not fit the declarations. \<open>SocketAddr::from_str\<close> is the argument \<open>parse_addr\<close>.
\<close>

definition parse_args ::
    "(string \<Rightarrow> (IpAddr \<times> u16) option) \<Rightarrow> 'm clap \<Rightarrow> 'm \<Rightarrow> (CliArgs, CliError) result" where
  "parse_args parse_addr C matches =
     bind_result (unwrap_value C ''host'' matches) (\<lambda>host.
     bind_result (map_err CliError_from_AddrParseError
         (case parse_addr host of Some a \<Rightarrow> Ok a | None \<Rightarrow> Err ())) (\<lambda>address.
     bind_result (unwrap_value C ''id'' matches) (\<lambda>s.
     bind_result (map_err CliError_from_ParseIntError (u8_from_str s)) (\<lambda>i.
     bind_result (case value_of C matches ''period'' of
           Some s \<Rightarrow> bind_result (map_err CliError_from_ParseIntError (get_period_ms s)) (\<lambda>p. Ok (Some p))
         | None \<Rightarrow> Ok None) (\<lambda>period.
     bind_result (get_command C matches) (\<lambda>command.
       Ok (CliArgs_new address (UnitId_new i) command period)))))))"

section \<open>Running a command\<close>

text \<open>
  \<open>run_command\<close> is cut at its await: the call that sends the request, then the outcome
  that the channel delivers and the lines that are printed.
\<close>

fun run_command :: "bool \<Rightarrow> CliCommand \<Rightarrow> RequestParam \<Rightarrow> callback \<Rightarrow> (port, unit, CliError) se" where
  "run_command is_open (Cli_ReadCoils r) params tx =
     conv_err CliError_from_RequestError (Channel_read_coils is_open params r tx)"
| "run_command is_open (Cli_ReadDiscreteInputs r) params tx =
     conv_err CliError_from_RequestError (Channel_read_discrete_inputs is_open params r tx)"
| "run_command is_open (Cli_ReadHoldingRegisters r) params tx =
     conv_err CliError_from_RequestError (Channel_read_holding_registers is_open params r tx)"
| "run_command is_open (Cli_ReadInputRegisters r) params tx =
     conv_err CliError_from_RequestError (Channel_read_input_registers is_open params r tx)"
| "run_command is_open (Cli_WriteSingleRegister arg) params tx =
     conv_err CliError_from_RequestError (Channel_write_single_register is_open params arg tx)"
| "run_command is_open (Cli_WriteSingleCoil arg) params tx =
     conv_err CliError_from_RequestError (Channel_write_single_coil is_open params arg tx)"
| "run_command is_open (Cli_WriteMultipleCoils arg) params tx =
     conv_err CliError_from_RequestError (Channel_write_multiple_coils is_open params arg tx)"
| "run_command is_open (Cli_WriteMultipleRegisters arg) params tx =
     conv_err CliError_from_RequestError (Channel_write_multiple_registers is_open params arg tx)"

definition print_line :: "('v \<Rightarrow> string) \<Rightarrow> 'v Indexed \<Rightarrow> string" where
  "print_line f x = ''index: '' @ show_uint (unat (ix_index x)) @ '' value: '' @ f (ix_value x)"

definition print_values ::
    "('v \<Rightarrow> string) \<Rightarrow> ('v Indexed list, RequestError) result poll \<Rightarrow> (string list, CliError) result poll" where
  "print_values f x = (case x of
      Pending \<Rightarrow> Pending
    | Ready r \<Rightarrow> Ready (bind_result (map_err CliError_from_RequestError r) (\<lambda>xs. Ok (map (print_line f) xs))))"

definition receive_done :: "callback \<Rightarrow> completions \<Rightarrow> (string list, CliError) result poll" where
  "receive_done tx log = (case map_of log tx of
      None \<Rightarrow> Pending
    | Some r \<Rightarrow> Ready (bind_result (map_err CliError_from_RequestError r) (\<lambda>_. Ok [])))"

fun run_command_result ::
    "('r, 'w, 'd, 'io) platform \<Rightarrow> CliCommand \<Rightarrow> callback \<Rightarrow> completions \<Rightarrow> (string list, CliError) result poll" where
  "run_command_result P (Cli_ReadCoils r) tx log = print_values show_bool (Channel_receive_bits P tx log)"
| "run_command_result P (Cli_ReadDiscreteInputs r) tx log = print_values show_bool (Channel_receive_bits P tx log)"
| "run_command_result P (Cli_ReadHoldingRegisters r) tx log =
     print_values (\<lambda>v. show_uint (unat v)) (Channel_receive_registers P tx log)"
| "run_command_result P (Cli_ReadInputRegisters r) tx log =
     print_values (\<lambda>v. show_uint (unat v)) (Channel_receive_registers P tx log)"
| "run_command_result P _ tx log = receive_done tx log"

text \<open>\<open>run\<close> up to the first request: the task that is spawned, with a queue of one request, and the channel that is enabled.\<close>

definition run_start ::
    "(usize \<Rightarrow> (unit, CliError) result) \<Rightarrow> CliArgs \<Rightarrow> bool \<Rightarrow>
     (port, RequestParam \<times> HostAddr \<times> Doubling TcpChannelTask, CliError) se" where
  "run_start mpsc args is_open =
     bnd (lift_result (spawn_tcp_client_task mpsc (HostAddr_ip (fst (ca_address args)) (snd (ca_address args))) 1
       default_retry_strategy (DecodeLevel_from_app AppDataValues))) (\<lambda>spawned.
     bnd (conv_err CliError_from_Shutdown (Channel_enable is_open)) (\<lambda>_.
       ret (RequestParam_new (ca_id args) 1000000000, spawned)))"

text \<open>
  The rest of \<open>run\<close>. A round is what the environment decides for one request: whether the
  channel is open, the one-shot channel of the request and the completions that arrive. Without a
  period there is one round.
\<close>

fun run_rounds ::
    "('r, 'w, 'd, 'io) platform \<Rightarrow> CliArgs \<Rightarrow> RequestParam \<Rightarrow> (bool \<times> callback \<times> completions) list \<Rightarrow> port \<Rightarrow>
     (unit, CliError) result poll \<times> string list \<times> port" where
  "run_rounds P args params [] s = (Pending, [], s)"
| "run_rounds P args params ((is_open, tx, arrived) # rounds) s =
     (case run_command is_open (ca_command args) params tx s of
        (Err e, s') \<Rightarrow> (Ready (Err e), [], s')
      | (Panic, s') \<Rightarrow> (Ready Panic, [], s')
      | (Ok _, s') \<Rightarrow>
          let s'' = s'\<lparr>po_log := po_log s' @ arrived\<rparr> in
          (case run_command_result P (ca_command args) tx (po_log s'') of
             Pending \<Rightarrow> (Pending, [], s'')
           | Ready (Err e) \<Rightarrow> (Ready (Err e), [], s'')
           | Ready Panic \<Rightarrow> (Ready Panic, [], s'')
           | Ready (Ok lines) \<Rightarrow>
               (case ca_period args of
                  None \<Rightarrow> (Ready (Ok ()), lines, s'')
                | Some period \<Rightarrow> (case run_rounds P args params rounds s'' of
                    (x, rest, t) \<Rightarrow> (x, lines @ rest, t)))))"

definition cli_run ::
    "('r, 'w, 'd, 'io) platform \<Rightarrow> (usize \<Rightarrow> (unit, CliError) result) \<Rightarrow> (string \<Rightarrow> (IpAddr \<times> u16) option) \<Rightarrow>
     'm clap \<Rightarrow> 'm \<Rightarrow> bool \<Rightarrow> (bool \<times> callback \<times> completions) list \<Rightarrow> port \<Rightarrow> (unit, CliError) result poll \<times> string list \<times> port" where
  "cli_run P mpsc parse_addr C matches is_open rounds s = (case parse_args parse_addr C matches of
      Err e \<Rightarrow> (Ready (Err e), [], s)
    | Panic \<Rightarrow> (Ready Panic, [], s)
    | Ok args \<Rightarrow> (case run_start mpsc args is_open s of
          (Err e, s') \<Rightarrow> (Ready (Err e), [], s')
        | (Panic, s') \<Rightarrow> (Ready Panic, [], s')
        | (Ok (params, _), s') \<Rightarrow> run_rounds P args params rounds s'))"

section \<open>Panics\<close>

lemma bind_panic: "bind_result x k = Panic \<longleftrightarrow> x = Panic \<or> (\<exists>a. x = Ok a \<and> k a = Panic)"
  by (cases x) simp_all

section \<open>Lists of values\<close>

definition show_bits :: "bool list \<Rightarrow> string" where
  "show_bits bs = rev (map (\<lambda>b. if b then CHR ''1'' else CHR ''0'') bs)"

fun show_registers :: "u16 list \<Rightarrow> string" where
  "show_registers [] = []"
| "show_registers [v] = show_uint (unat v)"
| "show_registers (v # vs) = show_uint (unat v) @ CHR '','' # show_registers vs"

lemma push_bits_show: "push_bits acc (map (\<lambda>b. if b then CHR ''1'' else CHR ''0'') bs) = Ok (acc @ bs)"
  by (induction bs arbitrary: acc) auto

lemma show_uint_no_comma: "CHR '','' \<notin> set (show_uint n)"
proof
  assume "CHR '','' \<in> set (show_uint n)"
  then obtain d where d: "d < 10" "CHR '','' = digit d" using show_uint_chars by blast
  then have "digit_value CHR '','' = Some d" using digit_value_digit [of d] by simp
  then show False by (simp add: digit_value_def)
qed

lemma split_show_registers: "vs \<noteq> [] \<Longrightarrow> split_at_char CHR '','' (show_registers vs) = map (\<lambda>v. show_uint (unat v)) vs"
  by (induction vs rule: show_registers.induct) (simp_all add: split_no_sep split_sep show_uint_no_comma)

lemma push_registers_show: "push_registers acc (map (\<lambda>v. show_uint (unat v)) vs) = Ok (acc @ vs)"
  by (induction vs arbitrary: acc) auto

section \<open>Commands\<close>

text \<open>The subcommand and the arguments that stand for a command.\<close>

definition show_range :: "AddressRange \<Rightarrow> (string \<times> string) list" where
  "show_range r = [(''start'', show_uint (unat (ar_start r))), (''quantity'', show_uint (unat (ar_count r)))]"

fun show_command :: "CliCommand \<Rightarrow> string \<times> (string \<times> string) list" where
  "show_command (Cli_ReadCoils r) = (''rc'', show_range r)"
| "show_command (Cli_ReadDiscreteInputs r) = (''rdi'', show_range r)"
| "show_command (Cli_ReadHoldingRegisters r) = (''rhr'', show_range r)"
| "show_command (Cli_ReadInputRegisters r) = (''rir'', show_range r)"
| "show_command (Cli_WriteSingleRegister x) =
     (''wsr'', [(''index'', show_uint (unat (ix_index x))), (''value'', show_uint (unat (ix_value x)))])"
| "show_command (Cli_WriteSingleCoil x) =
     (''wsc'', [(''index'', show_uint (unat (ix_index x))), (''value'', show_bool (ix_value x))])"
| "show_command (Cli_WriteMultipleCoils wm) =
     (''wmc'', [(''start'', show_uint (unat (ar_start (wm_range wm)))), (''values'', show_bits (wm_values wm))])"
| "show_command (Cli_WriteMultipleRegisters wm) =
     (''wmr'', [(''start'', show_uint (unat (ar_start (wm_range wm)))), (''values'', show_registers (wm_values wm))])"

definition range_ok :: "AddressRange \<Rightarrow> bool" where
  "range_ok r \<longleftrightarrow> AddressRange_try_from (ar_start r) (ar_count r) = Ok r"

definition values_ok :: "'a WriteMultiple \<Rightarrow> bool" where
  "values_ok wm \<longleftrightarrow> WriteMultiple_from (ar_start (wm_range wm)) (wm_values wm) = Ok wm"

fun command_ok :: "CliCommand \<Rightarrow> bool" where
  "command_ok (Cli_ReadCoils r) = range_ok r"
| "command_ok (Cli_ReadDiscreteInputs r) = range_ok r"
| "command_ok (Cli_ReadHoldingRegisters r) = range_ok r"
| "command_ok (Cli_ReadInputRegisters r) = range_ok r"
| "command_ok (Cli_WriteMultipleCoils wm) = values_ok wm"
| "command_ok (Cli_WriteMultipleRegisters wm) = values_ok wm"
| "command_ok _ = True"

text \<open>The matches of a command line that consists of one subcommand with its arguments.\<close>

definition gives_command :: "'m clap \<Rightarrow> 'm \<Rightarrow> string \<times> (string \<times> string) list \<Rightarrow> bool" where
  "gives_command C m sub \<longleftrightarrow> (\<exists>m'. (\<forall>nm. subcommand_matches C m nm = (if nm = fst sub then Some m' else None)) \<and>
     (\<forall>nm. value_of C m' nm = map_of (snd sub) nm))"

lemma values_ok_ne: "values_ok wm \<Longrightarrow> wm_values wm \<noteq> []"
  by (auto simp: values_ok_def WriteMultiple_from_def u16_try_from_def AddressRange_try_from_def)

lemma get_address_range_show:
  assumes "range_ok r" and "\<forall>nm. value_of C m nm = map_of (show_range r) nm"
  shows "get_address_range C m = Ok r"
  using assms by (simp add: get_address_range_def get_start_def get_quantity_def unwrap_value_def show_range_def range_ok_def)

lemma get_command_show:
  assumes "command_ok cmd" and "gives_command C m (show_command cmd)"
  shows "get_command C m = Ok cmd"
proof -
  obtain m' where m: "\<forall>nm. subcommand_matches C m nm = (if nm = fst (show_command cmd) then Some m' else None)"
    "\<forall>nm. value_of C m' nm = map_of (snd (show_command cmd)) nm"
    using assms(2) by (auto simp: gives_command_def)
  show ?thesis
  proof (cases cmd)
    case (Cli_WriteMultipleCoils wm)
    then show ?thesis
      using assms(1) m by (simp add: get_command_def get_start_def get_bit_values_def unwrap_value_def show_bits_def
          push_bits_show values_ok_def)
  next
    case (Cli_WriteMultipleRegisters wm)
    then have "values_ok wm" using assms(1) by simp
    then show ?thesis
      using Cli_WriteMultipleRegisters m values_ok_ne [of wm]
      by (simp add: get_command_def get_start_def get_register_values_def unwrap_value_def
          split_show_registers push_registers_show) (simp add: values_ok_def)
  qed (use assms(1) m get_address_range_show [of _ C m'] in \<open>simp_all add: get_command_def get_index_def get_value_def
    get_indexed_register_value_def unwrap_value_def Indexed_new_def\<close>)
qed

lemma get_period_ms_show: "n < 2 ^ 64 \<Longrightarrow> get_period_ms (show_uint n) = Ok (n * 1000000)"
  using uint_round_trip [of n "2 ^ 64 - 1"] by (simp add: get_period_ms_def usize_from_str_def)

lemma parse_args_show:
  assumes "command_ok cmd" and "gives_command C m (show_command cmd)"
    and "value_of C m ''host'' = Some host" and "parse_addr host = Some addr"
    and "value_of C m ''id'' = Some (show_uint (unat i))"
    and "value_of C m ''period'' = map_option show_uint ms" and "\<forall>n. ms = Some n \<longrightarrow> n < 2 ^ 64"
  shows "parse_args parse_addr C m =
    Ok \<lparr>ca_address = addr, ca_id = UnitId i, ca_command = cmd, ca_period = map_option (\<lambda>n. n * 1000000) ms\<rparr>"
  using assms(3-7) u8_round_trip [of i] get_period_ms_show get_command_show [OF assms(1,2)]
  by (cases ms) (simp_all add: parse_args_def unwrap_value_def CliArgs_new_def UnitId_new_def)

text \<open>The call of the channel that a command makes.\<close>

fun cli_call :: "CliCommand \<Rightarrow> api_call" where
  "cli_call (Cli_ReadCoils r) = Call_ReadCoils r"
| "cli_call (Cli_ReadDiscreteInputs r) = Call_ReadDiscreteInputs r"
| "cli_call (Cli_ReadHoldingRegisters r) = Call_ReadHoldingRegisters r"
| "cli_call (Cli_ReadInputRegisters r) = Call_ReadInputRegisters r"
| "cli_call (Cli_WriteSingleRegister x) = Call_WriteSingleRegister x"
| "cli_call (Cli_WriteSingleCoil x) = Call_WriteSingleCoil x"
| "cli_call (Cli_WriteMultipleCoils x) = Call_WriteMultipleCoils x"
| "cli_call (Cli_WriteMultipleRegisters x) = Call_WriteMultipleRegisters x"

lemma run_command_call:
  "run_command b cmd p tx = conv_err CliError_from_RequestError (Channel_call b p (cli_call cmd) tx)"
  by (cases cmd) simp_all

lemma command_ok_args: "command_ok cmd \<Longrightarrow> call_args_ok (cli_call cmd)"
  by (cases cmd) (auto simp: range_ok_def values_ok_def WriteMultiple_from_ok AddressRange_try_from_Ok_iff)

lemma pending_result: "map_of log tx = None \<Longrightarrow> run_command_result P cmd tx log = Pending"
  by (cases cmd) (simp_all add: print_values_def receive_done_def Channel_receive_bits_def Channel_receive_registers_def)

lemma cli_run_sends:
  assumes "command_ok cmd" and "gives_command C m (show_command cmd)"
    and "value_of C m ''host'' = Some host" and "parse_addr host = Some addr"
    and "value_of C m ''id'' = Some (show_uint (unat i))"
    and "value_of C m ''period'' = map_option show_uint ms" and "\<forall>n. ms = Some n \<longrightarrow> n < 2 ^ 64"
    and "map_of (po_log s) tx = None" and "mpsc 1 = Ok ()"
  shows "case call_range (cli_call cmd) of
      Ok _ \<Rightarrow> \<exists>d. server_request d = call_request (cli_call cmd) \<and> details_ok d \<and>
        pr_callback (details_promise d) = Some tx \<and>
        cli_run P mpsc parse_addr C m True [(True, tx, [])] s = (Pending, [],
          s\<lparr>po_queue := po_queue s @ [Cmd_Setting Enable, Cmd_Request (Request_new (UnitId i) 1000000000 d)]\<rparr>)
    | Err e \<Rightarrow> cli_run P mpsc parse_addr C m True [(True, tx, [])] s =
        (Ready (Err (Cli_Request (RequestError_from_InvalidRange e))), [], s\<lparr>po_queue := po_queue s @ [Cmd_Setting Enable]\<rparr>)
    | Panic \<Rightarrow> False"
proof -
  let ?params = "RequestParam_new (UnitId i) 1000000000"
  let ?s = "s\<lparr>po_queue := po_queue s @ [Cmd_Setting Enable]\<rparr>"
  let ?args = "\<lparr>ca_address = addr, ca_id = UnitId i, ca_command = cmd, ca_period = map_option (\<lambda>n. n * 1000000) ms\<rparr>"
  have run: "cli_run P mpsc parse_addr C m True [(True, tx, [])] s = run_rounds P ?args ?params [(True, tx, [])] ?s"
    using parse_args_show [where parse_addr = parse_addr, OF assms(1-7)] assms(9)
    by (simp add: cli_run_def run_start_def spawn_defs lift_result_def Channel_enable_def sender_send_def bnd_def conv_err_def ret_def)
  show ?thesis
  proof (cases "call_range (cli_call cmd)")
    case (Ok u)
    then have ok: "call_range (cli_call cmd) = result.Ok ()" by simp
    let ?d = "built (cli_call cmd) tx"
    have "run_rounds P ?args ?params [(True, tx, [])] ?s = (Pending, [],
        s\<lparr>po_queue := po_queue s @ [Cmd_Setting Enable, Cmd_Request (Request_new (UnitId i) 1000000000 ?d)]\<rparr>)"
      using assms(8) by (simp add: run_command_call call_built(1) [OF ok] Channel_send_def sender_send_def conv_err_def
          wrap_def RequestParam_new_def pending_result)
    then show ?thesis
      using run Ok built_ok [OF command_ok_args [OF assms(1)] ok, of tx] by (auto simp: call_details_def)
  next
    case (Err e)
    then show ?thesis using run by (simp add: run_command_call call_refused(1) conv_err_def conv_defs)
  next
    case Panic
    then show ?thesis by (cases "cli_call cmd") (auto simp: bind_panic of_read_Ok)
  qed
qed

text \<open>The help text asks for \<open>ON\<close> or \<open>OFF\<close> as the value of a coil; the program reads it as a boolean and refuses both.\<close>

definition help_form :: "bool Indexed \<Rightarrow> string \<times> (string \<times> string) list" where
  "help_form x = (''wsc'', [(''index'', show_uint (unat (ix_index x))), (''value'', if ix_value x then ''ON'' else ''OFF'')])"

lemma coil_value_on_refused:
  assumes "gives_command C m (help_form x)"
  shows "get_command C m = Err BadBool"
  using assms by (auto simp: gives_command_def help_form_def get_command_def get_index_def unwrap_value_def bool_from_str_def
      CliError_from_ParseBoolError_def split: if_splits)

lemma help_form_differs: "help_form x \<noteq> show_command cmd"
  by (cases cmd) (simp_all add: help_form_def show_bool_def)

text \<open>
  C32: What is written on the command line is what is requested, in the forms that the program reads. A valid command,
  written as its subcommand with decimal numbers, \<open>true\<close> or \<open>false\<close> for a single coil, a string of bits whose last character
  is the first coil, or registers separated by commas, together with a unit id, makes the program enable its
  channel and send one request to that unit: the request that the server reads as the command. A
  range that is too large for the protocol is reported, and nothing is sent. The form that the program's own help gives for a
  single coil, \<open>ON\<close> or \<open>OFF\<close>, is not among them: it is refused before the channel is even enabled.
\<close>

theorem command_line_sends_request:
  assumes "command_ok cmd" and "gives_command C m sub"
    and "sub = show_command cmd \<or> (\<exists>x. cmd = Cli_WriteSingleCoil x \<and> sub = help_form x)"
    and "value_of C m ''host'' = Some host" and "parse_addr host = Some addr"
    and "value_of C m ''id'' = Some (show_uint (unat i))"
    and "value_of C m ''period'' = map_option show_uint ms" and "\<forall>n. ms = Some n \<longrightarrow> n < 2 ^ 64"
    and "map_of (po_log s) tx = None" and "mpsc 1 = Ok ()"
  shows "if sub = show_command cmd
    then case call_range (cli_call cmd) of
        Ok _ \<Rightarrow> \<exists>d. server_request d = call_request (cli_call cmd) \<and> details_ok d \<and>
          pr_callback (details_promise d) = Some tx \<and>
          cli_run P mpsc parse_addr C m True [(True, tx, [])] s = (Pending, [],
            s\<lparr>po_queue := po_queue s @ [Cmd_Setting Enable, Cmd_Request (Request_new (UnitId i) 1000000000 d)]\<rparr>)
      | Err e \<Rightarrow> cli_run P mpsc parse_addr C m True [(True, tx, [])] s =
          (Ready (Err (Cli_Request (RequestError_from_InvalidRange e))), [], s\<lparr>po_queue := po_queue s @ [Cmd_Setting Enable]\<rparr>)
      | Panic \<Rightarrow> False
    else cli_run P mpsc parse_addr C m True [(True, tx, [])] s = (Ready (Err BadBool), [], s)"
proof (cases "sub = show_command cmd")
  case True
  then show ?thesis using cli_run_sends [where parse_addr = parse_addr and mpsc = mpsc and P = P, OF assms(1) _ assms(4-10)] assms(2) by simp
next
  case False
  then obtain x where "gives_command C m (help_form x)" using assms(2,3) by blast
  from coil_value_on_refused [OF this] have "parse_args parse_addr C m = Err BadBool"
    using assms(4-8) u8_round_trip [of i] get_period_ms_show
    by (cases ms) (simp_all add: parse_args_def unwrap_value_def)
  then show ?thesis using False by (simp add: cli_run_def)
qed

text \<open>Matches as lists of options, with at most one subcommand.\<close>

definition list_clap :: "((string \<times> string) list \<times> (string \<times> (string \<times> string) list) option) clap" where
  "list_clap = \<lparr>value_of = (\<lambda>m. map_of (fst m)),
     subcommand_matches = (\<lambda>m nm. case snd m of Some (sub, opts) \<Rightarrow> if nm = sub then Some (opts, None) else None | None \<Rightarrow> None)\<rparr>"

theorem command_line_sends_request_witness:
  "\<exists>d. server_request d = Req_WriteSingleRegister \<lparr>ix_index = 7, ix_value = 1000\<rparr> \<and>
    cli_run (list_platform True) (\<lambda>_. Ok ()) (\<lambda>h. Some (V4 127 0 0 1, 502)) list_clap
      ([(''host'', ''127.0.0.1:502''), (''id'', ''1'')], Some (''wsr'', [(''index'', ''7''), (''value'', ''1000'')]))
      True [(True, 5, [])] \<lparr>po_queue = [], po_log = []\<rparr> =
    (Pending, [], \<lparr>po_queue = [Cmd_Setting Enable, Cmd_Request (Request_new (UnitId 1) 1000000000 d)], po_log = []\<rparr>)"
proof -
  let ?m = "([(''host'', ''127.0.0.1:502''), (''id'', ''1'')], Some (''wsr'', [(''index'', ''7''), (''value'', ''1000'')]))"
  let ?cmd = "Cli_WriteSingleRegister \<lparr>ix_index = 7, ix_value = 1000\<rparr>"
  have n: "show_uint 7 = ''7''" "show_uint 1000 = ''1000''" "show_uint 1 = ''1''"
    by (simp_all add: show_uint.simps digit_def char_of_def bit_0)
  have "gives_command list_clap ?m (show_command ?cmd)"
    by (auto simp: gives_command_def list_clap_def n)
  moreover have "value_of list_clap ?m ''id'' = Some (show_uint (unat (1 :: u8)))" by (simp add: list_clap_def n(3) [unfolded One_nat_def])
  ultimately show ?thesis
    using command_line_sends_request [of ?cmd list_clap ?m "show_command ?cmd" "''127.0.0.1:502''" "\<lambda>h. Some (V4 127 0 0 1, 502)"
        "(V4 127 0 0 1, 502)" 1 None "\<lparr>po_queue = [], po_log = []\<rparr>" 5 "\<lambda>_. Ok ()"
        "list_platform True"]
    by (auto simp: list_clap_def)
qed

section \<open>Every argument that is read is declared\<close>

text \<open>
  What \<open>get_matches\<close> ensures: an argument with a default has a value, only declared
  subcommands occur, and their required arguments have values.
\<close>

definition honours :: "'m clap \<Rightarrow> 'm \<Rightarrow> bool" where
  "honours C m \<longleftrightarrow> (\<forall>d \<in> set app_args. ad_default d \<noteq> None \<longrightarrow> value_of C m (ad_name d) \<noteq> None) \<and>
     (\<forall>nm m'. subcommand_matches C m nm = Some m' \<longrightarrow>
       (\<exists>ds. map_of app_subcommands nm = Some ds \<and> (\<forall>d \<in> set ds. ad_required d \<longrightarrow> value_of C m' (ad_name d) \<noteq> None)))"

lemma digits_no_panic: "digits_from_str bound acc s \<noteq> Panic"
  by (induction bound acc s rule: digits_from_str.induct) (auto split: option.split)

lemma uint_no_panic [simp]: "uint_from_str bound s \<noteq> Panic"
  by (simp add: uint_from_str_def digits_no_panic split: list.split)

lemma unwrap_panic: "unwrap_value C nm m = Panic \<longleftrightarrow> value_of C m nm = None"
  by (simp add: unwrap_value_def split: option.split)

lemma map_err_panic: "map_err f x = Panic \<longleftrightarrow> x = Panic"
  by (cases x) simp_all

lemma number_no_panic [simp]: "u16_from_str s \<noteq> Panic" "u8_from_str s \<noteq> Panic" "get_period_ms s \<noteq> Panic"
  by (simp_all add: u16_from_str_def u8_from_str_def get_period_ms_def usize_from_str_def bind_panic)

lemma push_bits_no_panic [simp]: "push_bits acc s \<noteq> Panic"
  by (induction acc s rule: push_bits.induct) auto

lemma push_registers_no_panic [simp]: "push_registers acc ps \<noteq> Panic"
  by (induction acc ps rule: push_registers.induct) (auto simp: bind_panic)

lemma constructors_no_panic [simp]: "AddressRange_try_from a n \<noteq> Panic" "WriteMultiple_from a vs \<noteq> Panic" "bool_from_str s \<noteq> Panic"
  by (auto simp: AddressRange_try_from_def WriteMultiple_from_def bool_from_str_def Let_def bind_panic map_err_panic
      split: option.split)

lemmas panics = bind_panic map_err_panic unwrap_panic

lemma argument_panics:
  "get_start C m = Panic \<longleftrightarrow> value_of C m ''start'' = None"
  "get_quantity C m = Panic \<longleftrightarrow> value_of C m ''quantity'' = None"
  "get_index C m = Panic \<longleftrightarrow> value_of C m ''index'' = None"
  "get_value C m = Panic \<longleftrightarrow> value_of C m ''value'' = None"
  "get_bit_values C m = Panic \<longleftrightarrow> value_of C m ''values'' = None"
  "get_register_values C m = Panic \<longleftrightarrow> value_of C m ''values'' = None"
  by (simp_all add: get_start_def get_quantity_def get_index_def get_value_def get_bit_values_def get_register_values_def panics)

lemma compound_no_panic:
  "value_of C m ''start'' \<noteq> None \<Longrightarrow> value_of C m ''quantity'' \<noteq> None \<Longrightarrow> get_address_range C m \<noteq> Panic"
  "value_of C m ''index'' \<noteq> None \<Longrightarrow> value_of C m ''value'' \<noteq> None \<Longrightarrow> get_indexed_register_value C m \<noteq> Panic"
  by (simp_all add: get_address_range_def get_indexed_register_value_def panics argument_panics)

lemma declared_values:
  assumes "honours C m"
  shows "value_of C m ''host'' \<noteq> None" "value_of C m ''id'' \<noteq> None"
    and "subcommand_matches C m nm = Some m' \<Longrightarrow> nm \<in> {''rc'', ''rdi'', ''rhr'', ''rir''} \<Longrightarrow>
      value_of C m' ''start'' \<noteq> None \<and> value_of C m' ''quantity'' \<noteq> None"
    and "subcommand_matches C m nm = Some m' \<Longrightarrow> nm \<in> {''wsr'', ''wsc''} \<Longrightarrow>
      value_of C m' ''index'' \<noteq> None \<and> value_of C m' ''value'' \<noteq> None"
    and "subcommand_matches C m nm = Some m' \<Longrightarrow> nm \<in> {''wmr'', ''wmc''} \<Longrightarrow>
      value_of C m' ''start'' \<noteq> None \<and> value_of C m' ''values'' \<noteq> None"
proof -
  have sub: "subcommand_matches C m nm = Some m' \<Longrightarrow> map_of app_subcommands nm = Some ds \<Longrightarrow>
      \<forall>d \<in> set ds. ad_required d \<longrightarrow> value_of C m' (ad_name d) \<noteq> None" for ds
    using assms by (fastforce simp: honours_def)
  show "value_of C m ''host'' \<noteq> None" "value_of C m ''id'' \<noteq> None" using assms by (auto simp: honours_def app_args_def)
  show "value_of C m' ''start'' \<noteq> None \<and> value_of C m' ''quantity'' \<noteq> None"
    if "subcommand_matches C m nm = Some m'" "nm \<in> {''rc'', ''rdi'', ''rhr'', ''rir''}"
    using sub [OF that(1), of read_args] that(2) by (auto simp: app_subcommands_def read_args_def required_arg_def)
  show "value_of C m' ''index'' \<noteq> None \<and> value_of C m' ''value'' \<noteq> None"
    if "subcommand_matches C m nm = Some m'" "nm \<in> {''wsr'', ''wsc''}"
    using sub [OF that(1), of write_single_args] that(2)
    by (auto simp: app_subcommands_def write_single_args_def required_arg_def)
  show "value_of C m' ''start'' \<noteq> None \<and> value_of C m' ''values'' \<noteq> None"
    if "subcommand_matches C m nm = Some m'" "nm \<in> {''wmr'', ''wmc''}"
    using sub [OF that(1), of write_multiple_args] that(2)
    by (auto simp: app_subcommands_def write_multiple_args_def required_arg_def)
qed

lemma get_command_no_panic:
  assumes "honours C m"
  shows "get_command C m \<noteq> Panic"
proof -
  note d = declared_values(3-5) [OF assms]
  have "subcommand_matches C m nm = Some m' \<Longrightarrow> nm \<in> {''rc'', ''rdi'', ''rhr'', ''rir''} \<Longrightarrow> get_address_range C m' \<noteq> Panic"
    "subcommand_matches C m ''wsr'' = Some m' \<Longrightarrow> get_indexed_register_value C m' \<noteq> Panic" for nm m'
    using d(1,2) compound_no_panic by (metis, metis insertI1)
  then show ?thesis
    using d(2,3) by (simp add: get_command_def panics argument_panics split: option.split)
qed

lemma parse_args_no_panic:
  assumes "honours C m"
  shows "parse_args parse_addr C m \<noteq> Panic"
  using declared_values(1,2) [OF assms] get_command_no_panic [OF assms]
  by (simp add: parse_args_def panics split: option.split)

end
