(* ===== verification/SerialLine.thy ===== *)
theory SerialLine
  imports CommandLine
begin

text \<open>
  The physical layer, \<open>rodbus/src/common/phys.rs\<close>: the delay between frames on a serial line,
  reads and writes, and the text of the log. Times are nanoseconds since some instant. The
  streams and the timer of \<open>tokio\<close> are parameters. A layer over a stream with the laws of
  \<open>byte_stream\<close> keeps these laws.
\<close>

section \<open>The delay between frames\<close>

definition Duration_div :: "Duration \<Rightarrow> nat \<Rightarrow> (Duration, 'e) result" where
  "Duration_div d k = (if k = 0 then Panic else Ok (d div k))"

definition NUM_BITS_IN_CHAR :: nat where [conv_defs]: "NUM_BITS_IN_CHAR = 11"
definition MAX_BAUD_RATE :: nat where [conv_defs]: "MAX_BAUD_RATE = 19200"
definition MIN_DELAY :: Duration where [conv_defs]: "MIN_DELAY = 1750 * 1000"

definition calculate_inter_character_delay :: "(u32, unit) result \<Rightarrow> (Duration, unit) result" where
  "calculate_inter_character_delay baud = (case baud of
      Ok baud_rate \<Rightarrow>
        if unat baud_rate \<le> MAX_BAUD_RATE
        then bind_result (Duration_div (NUM_BITS_IN_CHAR * 1000000000) (unat baud_rate)) (\<lambda>character_time.
             bind_result (Duration_mul 35 character_time) (\<lambda>d. Duration_div d 10))
        else Ok MIN_DELAY
    | Err _ \<Rightarrow> Ok MIN_DELAY
    | Panic \<Rightarrow> Panic)"

section \<open>Layers\<close>

text \<open>A serial layer keeps its delay and the time of its last write.\<close>

datatype 'io PhysLayer = Phys_Tcp 'io | Phys_Serial 'io Duration "Duration option" | Phys_Tls 'io

definition PhysLayer_new_tcp :: "'io \<Rightarrow> 'io PhysLayer" where
  "PhysLayer_new_tcp socket = Phys_Tcp socket"

definition PhysLayer_new_serial :: "(u32, unit) result \<Rightarrow> 'io \<Rightarrow> ('io PhysLayer, unit) result" where
  "PhysLayer_new_serial baud stream =
     bind_result (calculate_inter_character_delay baud) (\<lambda>d. Ok (Phys_Serial stream d None))"

definition PhysLayer_new_tls :: "'io \<Rightarrow> 'io PhysLayer" where
  "PhysLayer_new_tls socket = Phys_Tls socket"

fun PhysLayer_read ::
    "('r, 'w, 'd, 'io) platform \<Rightarrow> usize \<Rightarrow> 'io PhysLayer \<Rightarrow> (u8 list, ErrorKind) result poll \<times> 'io PhysLayer" where
  "PhysLayer_read P n (Phys_Tcp x) = (case io_read P n x of (r, x') \<Rightarrow> (r, Phys_Tcp x'))"
| "PhysLayer_read P n (Phys_Serial x d last_activity) = (case io_read P n x of (r, x') \<Rightarrow> (r, Phys_Serial x' d last_activity))"
| "PhysLayer_read P n (Phys_Tls x) = (case io_read P n x of (r, x') \<Rightarrow> (r, Phys_Tls x'))"

text \<open>
  \<open>sleep_until now deadline\<close> is the time at which the timer returns. A write also returns the
  time at which its bytes are handed to the stream.
\<close>

fun PhysLayer_write ::
    "('r, 'w, 'd, 'io) platform \<Rightarrow> (Duration \<Rightarrow> Duration \<Rightarrow> Duration) \<Rightarrow> Duration \<Rightarrow> u8 list \<Rightarrow> 'io PhysLayer \<Rightarrow>
     (unit, ErrorKind) result \<times> 'io PhysLayer \<times> Duration" where
  "PhysLayer_write P sleep_until now data (Phys_Tcp x) = (case io_write P data x of (r, x') \<Rightarrow> (r, Phys_Tcp x', now))"
| "PhysLayer_write P sleep_until now data (Phys_Serial x inter_char_delay last_activity) =
     (let t = (case last_activity of
           Some last_activity \<Rightarrow> sleep_until now (last_activity + inter_char_delay)
         | None \<Rightarrow> now)
      in case io_write P data x of (r, x') \<Rightarrow> (r, Phys_Serial x' inter_char_delay (Some t), t))"
| "PhysLayer_write P sleep_until now data (Phys_Tls x) = (case io_write P data x of (r, x') \<Rightarrow> (r, Phys_Tls x', now))"

section \<open>Text for the log\<close>

definition hex_digit :: "nat \<Rightarrow> char" where
  "hex_digit n = (if n < 10 then char_of (48 + n) else char_of (55 + n))"

definition hex_byte :: "u8 \<Rightarrow> string" where
  "hex_byte b = [hex_digit (unat b div 16), hex_digit (unat b mod 16)]"

function chunks :: "nat \<Rightarrow> 'a list \<Rightarrow> 'a list list" where
  "chunks n xs = (if n = 0 \<or> xs = [] then [] else take n xs # chunks n (drop n xs))"
  by auto
termination by (relation "measure (\<lambda>(n, xs). length xs)") auto

declare chunks.simps [simp del]

definition BYTES_PER_DECODE_LINE :: nat where "BYTES_PER_DECODE_LINE = 18"

fun format_chunk :: "bool \<Rightarrow> u8 list \<Rightarrow> string" where
  "format_chunk first [] = []"
| "format_chunk first (b # bs) = (if first then [] else '' '') @ hex_byte b @ format_chunk False bs"

definition format_bytes :: "u8 list \<Rightarrow> string" where
  "format_bytes bytes = concat (map (\<lambda>chunk. [char_of (10 :: nat)] @ format_chunk True chunk) (chunks BYTES_PER_DECODE_LINE bytes))"

definition PhysDisplay_fmt :: "PhysDecodeLevel \<Rightarrow> u8 list \<Rightarrow> string" where
  "PhysDisplay_fmt level data =
     show_uint (length data) @ '' bytes'' @ (if phys_data_enabled level then format_bytes data else [])"

text \<open>The bytes can be read back from the text: nothing is dropped at the ends of lines.\<close>

definition hex_value :: "char \<Rightarrow> nat option" where
  "hex_value c = (let n = of_char c in
     if 48 \<le> n \<and> n \<le> 57 then Some (n - 48) else if 65 \<le> n \<and> n \<le> 70 then Some (n - 55) else None)"

fun read_hex :: "string \<Rightarrow> u8 list" where
  "read_hex (a # b # cs) = (case (hex_value a, hex_value b) of
      (Some x, Some y) \<Rightarrow> of_nat (16 * x + y) # read_hex cs
    | (None, _) \<Rightarrow> read_hex (b # cs)
    | _ \<Rightarrow> read_hex cs)"
| "read_hex _ = []"

lemma hex_value_digit: "n < 16 \<Longrightarrow> hex_value (hex_digit n) = Some n"
  by (simp add: hex_value_def hex_digit_def Let_def)

lemma hex_value_space: "hex_value CHR '' '' = None" "hex_value (char_of (10 :: nat)) = None"
  by (simp_all add: hex_value_def)

lemma read_hex_byte: "read_hex (hex_byte b @ cs) = b # read_hex cs"
proof -
  have "unat b < 256" using unsigned_less [where 'a = nat, of b] by simp
  then show ?thesis by (simp add: hex_byte_def hex_value_digit)
qed

lemma read_hex_skip: "hex_value c = None \<Longrightarrow> read_hex (c # cs) = read_hex cs"
  by (cases cs) (auto split: option.split)

lemma read_hex_chunk: "read_hex (format_chunk first bs @ cs) = bs @ read_hex cs"
  by (induction first bs rule: format_chunk.induct) (simp_all add: read_hex_byte read_hex_skip hex_value_space)

lemma concat_chunks: "n \<noteq> 0 \<Longrightarrow> concat (chunks n xs) = xs"
  by (induction n xs rule: chunks.induct) (simp add: chunks.simps)

lemma format_bytes_read: "read_hex (format_bytes bytes) = bytes"
proof -
  have "read_hex (concat (map (\<lambda>chunk. [char_of (10 :: nat)] @ format_chunk True chunk) css)) = concat css" for css
    by (induction css) (simp_all add: read_hex_chunk read_hex_skip hex_value_space)
  then show ?thesis by (simp add: format_bytes_def concat_chunks BYTES_PER_DECODE_LINE_def)
qed

section \<open>How far apart frames are\<close>

text \<open>Three and a half characters, rounded down twice, or the fixed delay; a baud rate of 0 panics.\<close>

definition char_delay :: "nat \<Rightarrow> nat" where
  "char_delay b = 35 * (11000000000 div b) div 10"

lemma delay_value:
  assumes "unat b \<le> MAX_BAUD_RATE" and "b \<noteq> 0"
  shows "calculate_inter_character_delay (Ok b) = Ok (char_delay (unat b))"
proof -
  have "35 * c \<le> DURATION_MAX" if "c \<le> 11000000000" for c :: nat using that by (simp add: DURATION_MAX_def)
  from this [of "11000000000 div unat b"] have "35 * (11000000000 div unat b) \<le> DURATION_MAX" by simp
  then show ?thesis
    using assms by (simp add: calculate_inter_character_delay_def Duration_div_def Duration_mul_def char_delay_def conv_defs unat_eq_0
        del: div_mult_mult1)
qed

lemma char_delay_bounds:
  assumes "0 < b"
  shows "10 * b * char_delay b \<le> 385000000000" and "385000000000 < 10 * b * (char_delay b + 5)"
proof -
  define c where "c = 11000000000 div b"
  define d where "d = 35 * c div 10"
  have d_eq: "char_delay b = d" by (simp only: char_delay_def c_def d_def)
  have "11000000000 = b * c + 11000000000 mod b" unfolding c_def by (simp only: mult_div_mod_eq)
  then have c: "b * c \<le> 11000000000" "11000000000 < b * c + b"
    using mod_less_divisor [OF assms, of 11000000000] by linarith+
  have d: "10 * d \<le> 35 * c" "35 * c + 35 < 10 * d + 50" unfolding d_def by presburger+
  have "b * (10 * d) \<le> b * (35 * c)" using d(1) by (rule mult_le_mono2)
  moreover have "b * (35 * c) = 35 * (b * c)" "b * (10 * d) = 10 * b * d" by simp_all
  ultimately show "10 * b * char_delay b \<le> 385000000000" using c(1) unfolding d_eq by linarith
  have "385000000000 < 35 * (b * c + b)" using c(2) by simp
  also have "\<dots> = b * (35 * c + 35)" by (simp add: algebra_simps)
  also have "\<dots> < b * (10 * d + 50)" using d(2) assms by (rule mult_less_mono2)
  also have "\<dots> = 10 * b * (d + 5)" by (simp add: algebra_simps)
  finally show "385000000000 < 10 * b * (char_delay b + 5)" unfolding d_eq .
qed

text \<open>The times at which a sequence of writes hands over its bytes.\<close>

fun write_times ::
    "('r, 'w, 'd, 'io) platform \<Rightarrow> (Duration \<Rightarrow> Duration \<Rightarrow> Duration) \<Rightarrow> (Duration \<times> u8 list) list \<Rightarrow> 'io PhysLayer \<Rightarrow>
     Duration list" where
  "write_times P sleep_until [] layer = []"
| "write_times P sleep_until ((now, data) # ws) layer =
     (case PhysLayer_write P sleep_until now data layer of
        (r, layer', t) \<Rightarrow> t # write_times P sleep_until ws layer')"

lemma write_times_spaced:
  assumes "\<forall>now deadline. deadline \<le> sleep_until now deadline"
  shows "successively (\<lambda>a b. a + d \<le> b) (write_times P sleep_until ws (Phys_Serial x d l)) \<and>
    (\<forall>t ts u. write_times P sleep_until ws (Phys_Serial x d (Some u)) = t # ts \<longrightarrow> u + d \<le> t)"
proof (induction ws arbitrary: x l)
  case (Cons w ws)
  obtain now data where w: "w = (now, data)" by (cases w)
  have IH: "successively (\<lambda>a b. a + d \<le> b) (write_times P sleep_until ws (Phys_Serial x' d l'))"
    "write_times P sleep_until ws (Phys_Serial x' d (Some u)) = t # ts \<Longrightarrow> u + d \<le> t" for x' l' u t ts
    using Cons.IH by blast+
  obtain r x' where x': "io_write P data x = (r, x')" by fastforce
  have "successively (\<lambda>a b. a + d \<le> b) (t # write_times P sleep_until ws (Phys_Serial x' d (Some t)))" for t
    using IH(1) [of x' "Some t"] IH(2) [of x' t]
    by (cases "write_times P sleep_until ws (Phys_Serial x' d (Some t))") auto
  then show ?case using w x' assms by (auto simp: Let_def split: option.split)
qed simp

text \<open>
  C31: Two writes on a serial line never start closer together than the delay of the line, whatever the
  times at which they are asked for. The delay is three and a half characters of 11 bits, short by less
  than 5 nanoseconds, up to 19200 baud, and 1.75 milliseconds above or when the rate
  is unknown. With a rate of 0 the layer cannot be created: the division panics.
\<close>

theorem serial_writes_spaced:
  assumes "\<forall>now deadline. deadline \<le> sleep_until now deadline"
  shows "case PhysLayer_new_serial baud x of
      Ok layer \<Rightarrow> \<exists>d. successively (\<lambda>a b. a + d \<le> b) (write_times P sleep_until ws layer) \<and>
        (case baud of
           Ok b \<Rightarrow> if unat b \<le> 19200
             then 10 * unat b * d \<le> 35 * 11 * 10 ^ 9 \<and> 35 * 11 * 10 ^ 9 < 10 * unat b * (d + 5)
             else d = 1750000
         | _ \<Rightarrow> d = 1750000)
    | Err _ \<Rightarrow> False
    | Panic \<Rightarrow> baud = Ok 0 \<or> baud = Panic"
proof -
  have sp: "successively (\<lambda>a b. a + d \<le> b) (write_times P sleep_until ws (Phys_Serial x d None))" for d
    by (rule write_times_spaced [OF assms, THEN conjunct1])
  show ?thesis
  proof (cases baud)
    case (Ok b)
    consider "b = 0" | "b \<noteq> 0" "unat b \<le> MAX_BAUD_RATE" | "\<not> unat b \<le> MAX_BAUD_RATE" by linarith
    then show ?thesis
    proof cases
      case 2
      have "10 * unat b * char_delay (unat b) \<le> 35 * 11 * 10 ^ 9" "35 * 11 * 10 ^ 9 < 10 * unat b * (char_delay (unat b) + 5)"
        using char_delay_bounds [of "unat b"] 2 by (simp_all add: unat_gt_0)
      moreover have "PhysLayer_new_serial baud x = result.Ok (Phys_Serial x (char_delay (unat b)) None)"
        using Ok delay_value [OF 2(2,1)] by (simp add: PhysLayer_new_serial_def)
      ultimately show ?thesis using Ok 2 sp by (auto simp only: result.case MAX_BAUD_RATE_def if_True)
    qed (use Ok sp in
      \<open>auto simp: PhysLayer_new_serial_def calculate_inter_character_delay_def Duration_div_def conv_defs\<close>)
  qed (use sp in \<open>auto simp: PhysLayer_new_serial_def calculate_inter_character_delay_def conv_defs\<close>)
qed

theorem serial_writes_spaced_witness:
  "\<exists>d. successively (\<lambda>a b. a + d \<le> b) (write_times (list_platform True) max [(0, [1]), (5, [2])] (Phys_Serial ([], []) 4010415 None)) \<and>
    10 * 9600 * d \<le> 35 * 11 * 10 ^ 9 \<and> 35 * 11 * 10 ^ 9 < 10 * 9600 * (d + 5 :: nat)"
proof -
  have "PhysLayer_new_serial (Ok 9600) (([], []) :: queue_stream) = Ok (Phys_Serial ([], []) 4010415 None)"
    by (simp add: PhysLayer_new_serial_def delay_value char_delay_def conv_defs)
  then show ?thesis
    using serial_writes_spaced [where sleep_until = max and baud = "Ok 9600" and x = "([], []) :: queue_stream" and P = "list_platform True"
        and ws = "[(0, [1]), (5, [2])]"]
    by (simp del: write_times.simps)
qed

text \<open>
  The delay counts from the start of the previous frame, and receiving does not count. A frame of four
  characters or more takes longer to send than the delay: a second frame asked for when the first one
  has just left the line follows with no silence at all.
\<close>

lemma no_silence_after_long_frame:
  assumes "\<forall>now deadline. deadline \<le> now \<longrightarrow> sleep_until now deadline = now"
    and "10 * b * d \<le> 35 * 11 * 10 ^ 9" and "4 \<le> length data" and "0 < b"
    and "b * (sent_at - start) \<ge> length data * 11 * 10 ^ 9" and "start \<le> sent_at"
  shows "write_times P sleep_until [(start, data), (sent_at, data')] (Phys_Serial x d None) = [start, sent_at]"
proof -
  have "b * d \<le> 38500000000" using assms(2) by simp
  also have "\<dots> \<le> length data * 11 * 10 ^ 9" using assms(3) by simp
  finally have "b * d \<le> b * (sent_at - start)" using assms(5) by (rule le_trans)
  then have "d \<le> sent_at - start" using assms(4) by simp
  then have "start + d \<le> sent_at" using assms(6) by linarith
  then show ?thesis using assms(1) by (auto simp: Let_def split: prod.split)
qed

section \<open>A layer is a stream\<close>

text \<open>
  Sessions are modelled over any stream that keeps the laws of \<open>byte_stream\<close>. A layer over such
  a stream keeps them too, with the delay of a serial line: it neither changes nor drops what passes through.
\<close>

fun phys_stream :: "'io PhysLayer \<Rightarrow> 'io" where
  "phys_stream (Phys_Tcp x) = x"
| "phys_stream (Phys_Serial x d l) = x"
| "phys_stream (Phys_Tls x) = x"

definition over_phys ::
    "(Duration \<Rightarrow> Duration \<Rightarrow> Duration) \<Rightarrow> Duration \<Rightarrow> ('r, 'w, 'd, 'io) platform \<Rightarrow> ('r, 'w, 'd, 'io PhysLayer) platform" where
  "over_phys sleep_until now P =
    \<lparr>overflow_checks = overflow_checks P, rc_new = rc_new P, rc_read_u8 = rc_read_u8 P, rc_read_u16_be = rc_read_u16_be P,
     rc_read_bytes = rc_read_bytes P, rc_expect_empty = rc_expect_empty P, rc_is_empty = rc_is_empty P,
     rc_remaining = rc_remaining P, wc_new = wc_new P, wc_write_u8 = wc_write_u8 P, wc_write_u16_be = wc_write_u16_be P,
     wc_write_u16_le = wc_write_u16_le P, wc_position = wc_position P, wc_skip = wc_skip P, wc_seek_to = wc_seek_to P,
     wc_get = wc_get P, wc_buffer = wc_buffer P, crc_digest = crc_digest P, crc_update = crc_update P,
     crc_finalize = crc_finalize P, crc_checksum = crc_checksum P,
     io_read = PhysLayer_read P,
     io_write = (\<lambda>data layer. case PhysLayer_write P sleep_until now data layer of (r, layer', t) \<Rightarrow> (r, layer'))\<rparr>"

lemma over_phys_read: "io_read (over_phys sl now P) cap s = (r, s') \<Longrightarrow> io_read P cap (phys_stream s) = (r, phys_stream s')"
  by (cases s) (auto simp: over_phys_def split: prod.splits)

lemma over_phys_read_ex:
  "io_read P cap (phys_stream s) = (r, x) \<Longrightarrow> \<exists>s'. io_read (over_phys sl now P) cap s = (r, s') \<and> phys_stream s' = x"
  by (cases s) (auto simp: over_phys_def)

lemma over_phys_read_idle: "io_read P cap (phys_stream s) = (r, phys_stream s) \<Longrightarrow> io_read (over_phys sl now P) cap s = (r, s)"
  by (cases s) (auto simp: over_phys_def)

lemma over_phys_write: "io_write (over_phys sl now P) bs s = (r, s') \<Longrightarrow> io_write P bs (phys_stream s) = (r, phys_stream s')"
  by (cases s) (auto simp: over_phys_def Let_def split: prod.splits)

context byte_stream
begin

lemma over_phys_stream:
  "byte_stream (over_phys sl now P) (\<lambda>s. incoming (phys_stream s)) (\<lambda>s. sent (phys_stream s))"
proof
  fix cap :: usize and s s' :: "'io PhysLayer" and bs rest k
  show "io_read (over_phys sl now P) cap s = (Ready (Ok bs), s') \<Longrightarrow> length bs \<le> cap"
    using io_read_le by (auto dest: over_phys_read)
  show "fst (io_read (over_phys sl now P) cap s) \<noteq> Ready Panic"
    using io_read_no_panic over_phys_read by (metis fst_conv surj_pair)
  show "incoming (phys_stream s) = Data bs # rest \<Longrightarrow> bs \<noteq> [] \<Longrightarrow> 0 < cap \<Longrightarrow>
      \<exists>s'. io_read (over_phys sl now P) cap s = (Ready (Ok (take cap bs)), s') \<and> sent (phys_stream s') = sent (phys_stream s) \<and>
        incoming (phys_stream s') = (if length bs \<le> cap then rest else Data (drop cap bs) # rest)"
    using io_read_Data over_phys_read_ex by metis
  show "incoming (phys_stream s) = Hangup # rest \<Longrightarrow> \<exists>s'. io_read (over_phys sl now P) cap s = (Ready (Ok []), s')"
    using io_read_Hangup over_phys_read_ex by metis
  show "incoming (phys_stream s) = Fails k # rest \<Longrightarrow> \<exists>s'. io_read (over_phys sl now P) cap s = (Ready (Err k), s')"
    using io_read_Fails over_phys_read_ex by metis
  show "incoming (phys_stream s) = [] \<Longrightarrow> io_read (over_phys sl now P) cap s = (Pending, s)"
    using io_read_Nil over_phys_read_idle by metis
  show "io_read (over_phys sl now P) cap s = (Pending, s') \<Longrightarrow>
      incoming (phys_stream s') = incoming (phys_stream s) \<and> sent (phys_stream s') = sent (phys_stream s)"
    using io_read_Pending over_phys_read by metis
  show "io_write (over_phys sl now P) bs s = (Ok (), s') \<Longrightarrow>
      sent (phys_stream s') = sent (phys_stream s) @ bs \<and> incoming (phys_stream s') = incoming (phys_stream s)"
    using io_write_Ok over_phys_write by metis
  show "fst (io_write (over_phys sl now P) bs s) \<noteq> Panic"
    using io_write_no_panic over_phys_write by (metis fst_conv surj_pair)
qed

end

text \<open>So the theorems on sessions hold over a layer, here over the one with the concrete platform below it.\<close>

lemma over_phys_platform:
  assumes "platform P rview wbuf wpos incoming sent"
  shows "platform (over_phys sl now P) rview wbuf wpos (\<lambda>s. incoming (phys_stream s)) (\<lambda>s. sent (phys_stream s))"
proof (rule platform.intro)
  show "read_cursor (over_phys sl now P) rview" "write_cursor (over_phys sl now P) wbuf wpos" "crc_engine (over_phys sl now P)"
    using platform.axioms(1-3) [OF assms]
    by (simp_all add: over_phys_def read_cursor_def write_cursor_def crc_engine_def)
  show "byte_stream (over_phys sl now P) (\<lambda>s. incoming (phys_stream s)) (\<lambda>s. sent (phys_stream s))"
    by (rule byte_stream.over_phys_stream [OF platform.axioms(4) [OF assms]])
qed

interpretation phys: platform "over_phys max now (list_platform checks)" "\<lambda>bs. bs" fst snd "\<lambda>s. fst (phys_stream s)" "\<lambda>s. snd (phys_stream s)"
  by (rule over_phys_platform) (rule lp.platform_axioms)

end
