(* ===== verification/SessionServes.thy ===== *)
theory SessionServes
  imports Progress
begin

text \<open>
  A server session over all the requests that it receives: each of them is served once, in order, and
  then the session waits for more. The reference is the abstract server, applied to one PDU after the other.
\<close>

section \<open>What the peer sends and gets\<close>

text \<open>A TCP request on the wire: transaction id, unit id and PDU.\<close>

type_synonym tcp_request = "TxId \<times> UnitId \<times> u8 list"

text \<open>The requests arrive one after the other, each cut into segments in any way.\<close>

inductive arrive_in_turn :: "tcp_request list \<Rightarrow> segment list \<Rightarrow> bool" where
  nothing: "arrive_in_turn [] []"
| request: "concat segs = mbap_frame_bytes tx u pdu \<Longrightarrow> \<forall>x \<in> set segs. x \<noteq> [] \<Longrightarrow> arrive_in_turn qs rest \<Longrightarrow>
    arrive_in_turn ((tx, u, pdu) # qs) (map Data segs @ rest)"

inductive_simps arrive_in_turn_simps: "arrive_in_turn [] inc" "arrive_in_turn ((tx, u, pdu) # qs) inc"

text \<open>The bytes that answer them, and the handlers afterwards.\<close>

fun served ::
    "'h RequestHandler \<Rightarrow> ServerHandlerMap \<Rightarrow> AuthorizationType \<Rightarrow> tcp_request list \<Rightarrow> 'h handler_store \<Rightarrow>
     u8 list \<times> 'h handler_store" where
  "served H handlers auth [] st = ([], st)"
| "served H handlers auth ((tx, u, pdu) # qs) st =
     (case serve H handlers auth (Dest_UnitId u) pdu st of
        (reply, st1) \<Rightarrow> (case served H handlers auth qs st1 of
          (out, st2) \<Rightarrow> ((case reply of None \<Rightarrow> [] | Some p \<Rightarrow> mbap_frame_bytes tx u p) @ out, st2)))"

text \<open>
  The PDUs for which the session is the abstract server: they fit into a frame, name no range that overflows, and
  with overflow checks no read ends at the last address.
\<close>

definition servable :: "('r, 'w, 'd, 'io) platform \<Rightarrow> u8 list \<Rightarrow> bool" where
  "servable P pdu \<longleftrightarrow> length pdu \<le> MAX_ADU_LENGTH \<and> \<not> overflowing_range pdu \<and>
     (\<forall>f body req. pdu = FunctionCode_get_value f # body \<longrightarrow> decode_request f body = Ok req \<longrightarrow> iterable P req)"

lemma serve_healthy: "healthy st \<Longrightarrow> healthy (snd (serve H handlers auth d pdu st))"
  by (cases "(H, handlers, auth, d, pdu, st)" rule: serve.cases)
    (auto simp: serve_request_def serve_unit_def serve_all_healthy
      split: option.split result.split FrameDestination.split prod.split)

section \<open>One turn\<close>

text \<open>\<open>serves_on s s' out st\<close>: the session goes on as the same server, has written \<open>out\<close> and has the handlers \<open>st\<close>.\<close>

definition serves_on ::
    "('io \<Rightarrow> u8 list) \<Rightarrow> ('h, 'io) session \<Rightarrow> ('h, 'io) session \<Rightarrow> u8 list \<Rightarrow> 'h handler_store \<Rightarrow> bool" where
  "serves_on sent s s' out st \<longleftrightarrow> server_up tcp_idle Format_Tcp s' \<and>
     st_handlers (ss_task s') = st_handlers (ss_task s) \<and> st_auth (ss_task s') = st_auth (ss_task s) \<and>
     sent (ss_io s') = sent (ss_io s) @ out \<and> ss_store s' = st"

lemma tcp_header_bytes: "frame_bytes P Format_Tcp (FrameHeader_new_tcp_header u tx) pdu = mbap_frame_bytes tx u pdu"
  by (simp add: FrameHeader_new_tcp_header_def FrameDestination_into_unit_id_def UnitId_new_def)

context platform
begin

lemma poll_frame_serves:
  assumes "server_up tcp_idle Format_Tcp s" and "handler_total H" and wr: "\<And>bs io. fst (io_write P bs io) = Ok ()"
    and "servable P pdu" and "arrive_in_turn ((tx, u, pdu) # qs) (incoming (ss_io s))"
    and y: "serve H (st_handlers (ss_task s)) (st_auth (ss_task s)) (Dest_UnitId u) pdu (ss_store s) = (reply, st)"
  shows "\<exists>s'. SessionTask_poll_frame P H s = Some (Ready (Ok ()), s') \<and> arrive_in_turn qs (incoming (ss_io s')) \<and>
    serves_on sent s s' (case reply of None \<Rightarrow> [] | Some p \<Rightarrow> mbap_frame_bytes tx u p) st"
proof -
  let ?r = "st_reader (ss_task s)" and ?f = "frame_of (FrameHeader_new_tcp_header u tx) pdu"
  have up: "fw_wf (st_writer (ss_task s))" "fw_format_type (st_writer (ss_task s)) = Format_Tcp" "healthy (ss_store s)"
    "tcp_idle (fdr_parser ?r)" "rb_wf (fdr_buffer ?r)" "rb_view (fdr_buffer ?r) = []"
    using assms(1) by (simp_all add: server_up_def reader_ready_def)
  have len: "length pdu \<le> MAX_ADU_LENGTH" using assms(4) by (simp add: servable_def)
  obtain segs rest where segs: "concat segs = mbap_frame_bytes tx u pdu" "\<forall>x \<in> set segs. x \<noteq> []" "arrive_in_turn qs rest"
    "incoming (ss_io s) = map Data segs @ rest" using assms(5) by (auto simp: arrive_in_turn_simps)
  have exp: "tcp_expects (fdr_parser ?r) (rb_view (fdr_buffer ?r) @ concat segs) ?f"
    using up len segs(1) by (cases "fdr_parser ?r") auto
  have fits: "(if rb_view (fdr_buffer ?r) = [] then 0 else rb_end (fdr_buffer ?r)) + length (concat segs) \<le> MAX_FRAME_LENGTH"
    using up(6) len segs(1) by (simp add: MAX_ADU_LENGTH_def)
  obtain r' io' where nf: "FramedReader_next_frame P ?r (ss_io s) = Some (Ready (Ok ?f), r', io')"
    "reader_ready tcp_idle r'" "incoming io' = rest" "sent io' = sent (ss_io s)"
    using next_tcp_frame [OF up(5) exp fits segs(2,4)] by (auto simp: reader_ready_def)
  define s0 where "s0 = s\<lparr>ss_task := (ss_task s)\<lparr>st_reader := r'\<rparr>, ss_io := io'\<rparr>"
  obtain res s1 where s1: "SessionTask_handle_frame P H ?f s0 = (res, s1)" by fastforce
  have hd: "fr_header ?f = FrameHeader_new_tcp_header u tx" "Frame_payload ?f = pdu" using len by simp_all
  have "replies P (fr_header ?f) s0 (serve H (st_handlers (ss_task s0)) (st_auth (ss_task s0)) (fh_destination (fr_header ?f))
      (Frame_payload ?f) (ss_store s0)) (SessionTask_handle_frame P H ?f s0)"
    by (rule handle_frame_serve)
      (use up assms(2,4) in \<open>auto simp: s0_def hd header_ok_def heard_fields servable_def\<close>)
  then have rep: "replies P (FrameHeader_new_tcp_header u tx) s0 (reply, st) (res, s1)"
    using y s1 unfolding hd by (simp add: s0_def heard_fields)
  have "same_writer (st_writer (ss_task s0)) (st_writer (ss_task s1))" "ss_store s1 = st"
    "ss_task s1 = (ss_task s0)\<lparr>st_writer := st_writer (ss_task s1)\<rparr>" using rep by (simp_all add: replies_def)
  then obtain fw where fw: "ss_task s1 = (ss_task s0)\<lparr>st_writer := fw\<rparr>" "same_writer (st_writer (ss_task s0)) fw" and st: "ss_store s1 = st"
    by blast
  have task: "st_reader (ss_task s1) = r'" "st_handlers (ss_task s1) = st_handlers (ss_task s)"
    "st_auth (ss_task s1) = st_auth (ss_task s)" "fw_wf (st_writer (ss_task s1))" "fw_format_type (st_writer (ss_task s1)) = Format_Tcp"
    using fw(2) up(1,2) unfolding fw(1) by (simp_all add: same_writer_def s0_def)
  have "res = Ok () \<and> incoming (ss_io s1) = rest \<and>
      sent (ss_io s1) = sent (ss_io s) @ (case reply of None \<Rightarrow> [] | Some p \<Rightarrow> mbap_frame_bytes tx u p)"
  proof (cases reply)
    case (Some p)
    obtain io2 where io2: "io_write P (mbap_frame_bytes tx u p) io' = (Ok (), io2)" using wr by (metis prod.collapse)
    then have "res = Ok ()" "ss_io s1 = io2"
      using rep Some up(2) by (simp_all add: replies_def s0_def tcp_header_bytes conv_err_def del: frame_bytes.simps)
    then show ?thesis using io_write_Ok [OF io2] nf Some by simp
  qed (use rep nf in \<open>simp add: replies_def s0_def\<close>)
  moreover have "healthy st" using serve_healthy [OF up(3)] y by (metis snd_conv)
  moreover have "SessionTask_poll_frame P H s = Some (Ready res, s1)"
    using nf(1) s1 by (simp add: SessionTask_poll_frame_def Let_def s0_def)
  ultimately show ?thesis using task st nf(2) segs(3) by (simp add: serves_on_def server_up_def)
qed

lemma next_frame_idle:
  assumes "reader_ready tcp_idle r" and "incoming io = []"
  shows "\<exists>r'. FramedReader_next_frame P r io = Some (Pending, r', io) \<and> reader_ready tcp_idle r'"
proof -
  obtain p where p: "fdr_parser r = Parser_Tcp p" "mp_state p = Mbap_Begin"
    using assms(1) by (cases "fdr_parser r") (auto simp: reader_ready_def)
  have rb: "rb_wf (fdr_buffer r)" "rb_view (fdr_buffer r) = []" using assms(1) by (simp_all add: reader_ready_def)
  note rw = ReadBuffer_rewind_props [OF rb(1)]
  have parse: "FrameParser_parse P (fdr_parser r, fdr_buffer r) = (Ok None, (fdr_parser r, fdr_buffer r))"
    using p length_rb_view [OF rb(1)] rb(2) by (simp add: MbapParser_parse_def conv_defs)
  have "ReadBuffer_read_some P (fdr_buffer r) io = (Pending, ReadBuffer_rewind (fdr_buffer r), io)"
    using rw(1) io_read_Nil [OF assms(2)] by (simp add: ReadBuffer_read_some_def Let_def rb_wf_def)
  then show ?thesis
    using parse rw rb(2) assms(1) by (auto simp: FramedReader_next_frame.simps [of P r io] reader_ready_def)
qed

lemma poll_frame_idle:
  assumes "server_up tcp_idle Format_Tcp s" and "incoming (ss_io s) = []"
  shows "\<exists>s'. SessionTask_poll_frame P H s = Some (Pending, s') \<and> incoming (ss_io s') = [] \<and> serves_on sent s s' [] (ss_store s)"
  using next_frame_idle [of "st_reader (ss_task s)" "ss_io s"] assms
  by (auto simp: SessionTask_poll_frame_def Let_def server_up_def serves_on_def)

section \<open>All turns\<close>

lemma setting_serves_on:
  assumes "server_up tcp_idle Format_Tcp s"
  shows "serves_on sent s (s\<lparr>ss_task := SessionTask_apply_setting x (ss_task s)\<rparr>) [] (ss_store s)"
  using assms by (cases x) (simp add: serves_on_def server_up_def)

lemma serves_on_trans: "serves_on sent s t out st \<Longrightarrow> serves_on sent t v out' st' \<Longrightarrow> serves_on sent s v (out @ out') st'"
  by (simp add: serves_on_def)

lemma session_serves:
  assumes "server_up tcp_idle Format_Tcp s" and "handler_total H" and wr: "\<And>bs io. fst (io_write P bs io) = Ok ()"
    and "\<forall>(tx, u, pdu) \<in> set qs. servable P pdu" and "arrive_in_turn qs (incoming (ss_io s))"
    and "\<forall>(c, recv) \<in> set cs. recv \<noteq> Ready None" and "length qs + interruptions cs < length cs"
  shows "\<exists>s' out st. SessionTask_run P H cs s = Some (Pending, s') \<and> incoming (ss_io s') = [] \<and>
    served H (st_handlers (ss_task s)) (st_auth (ss_task s)) qs (ss_store s) = (out, st) \<and> serves_on sent s s' out st"
  using assms(1,4-7)
proof (induction cs arbitrary: s qs)
  case (Cons cr cs)
  obtain c recv where cr: "cr = (c, recv)" by fastforce
  show ?case
  proof (cases "\<not> c \<and> recv \<noteq> Pending")
    case True
    then obtain x where recv: "recv = Ready (Some x)" using Cons.prems(4) cr by (cases recv) auto
    let ?s = "s\<lparr>ss_task := SessionTask_apply_setting x (ss_task s)\<rparr>"
    note on = setting_serves_on [OF Cons.prems(1), of x]
    obtain s' out st where "SessionTask_run P H cs ?s = Some (Pending, s')" "incoming (ss_io s') = []"
      "served H (st_handlers (ss_task s)) (st_auth (ss_task s)) qs (ss_store s) = (out, st)" "serves_on sent ?s s' out st"
      using Cons.IH [of ?s qs] Cons.prems(2-5) cr recv on by (auto simp: serves_on_def interruptions_def)
    then show ?thesis
      using serves_on_trans [OF on] True cr recv
      by (auto simp: SessionTask_run_one_def SessionTask_poll_command_def)
  next
    case frame: False
    show ?thesis
    proof (cases qs)
      case Nil
      then have "incoming (ss_io s) = []" using Cons.prems(3) by (simp add: arrive_in_turn_simps)
      from poll_frame_idle [OF Cons.prems(1) this] obtain s1 where
        s1: "SessionTask_poll_frame P H s = Some (Pending, s1)" "incoming (ss_io s1) = []" "serves_on sent s s1 [] (ss_store s)" by blast
      show ?thesis
      proof (cases recv)
        case Pending
        then show ?thesis
          using s1 cr Nil frame by (cases c) (auto simp: SessionTask_run_one_def SessionTask_poll_command_def)
      next
        case (Ready y)
        then obtain x where recv: "recv = Ready (Some x)" and c: c using Cons.prems(4) cr frame by (cases y) auto
        let ?s = "s1\<lparr>ss_task := SessionTask_apply_setting x (ss_task s1)\<rparr>"
        have up: "server_up tcp_idle Format_Tcp s1" using s1(3) by (simp add: serves_on_def)
        have on: "serves_on sent s ?s [] (ss_store s)"
          using serves_on_trans [OF s1(3) setting_serves_on [OF up, of x]] s1(3) by (simp add: serves_on_def)
        obtain s' where "SessionTask_run P H cs ?s = Some (Pending, s')" "incoming (ss_io s') = []" "serves_on sent ?s s' [] (ss_store s)"
          using Cons.IH [of ?s "[]"] Cons.prems(4,5) cr recv on s1(2) Nil
          by (auto simp: serves_on_def interruptions_def arrive_in_turn_simps)
        then show ?thesis
          using serves_on_trans [OF on] c cr recv s1(1) Nil
          by (auto simp: SessionTask_run_one_def SessionTask_poll_command_def)
      qed
    next
      case (Cons q qs')
      obtain tx u pdu where q: "q = (tx, u, pdu)" by (cases q)
      obtain reply st1 where y: "serve H (st_handlers (ss_task s)) (st_auth (ss_task s)) (Dest_UnitId u) pdu (ss_store s) = (reply, st1)"
        by fastforce
      let ?out = "case reply of None \<Rightarrow> [] | Some p \<Rightarrow> mbap_frame_bytes tx u p"
      have "servable P pdu" "arrive_in_turn ((tx, u, pdu) # qs') (incoming (ss_io s))"
        using Cons.prems(2,3) \<open>qs = q # qs'\<close> q by simp_all
      from poll_frame_serves [OF Cons.prems(1) assms(2) wr this y] obtain s1 where
        s1: "SessionTask_poll_frame P H s = Some (Ready (Ok ()), s1)" "arrive_in_turn qs' (incoming (ss_io s1))"
          "serves_on sent s s1 ?out st1" by blast
      have run: "SessionTask_run_one P H c recv s = Some (Ready (Ok ()), s1)"
        using frame s1(1) by (cases c) (auto simp: SessionTask_run_one_def SessionTask_poll_command_def)
      have "interruptions cs \<le> interruptions (cr # cs)" by (simp add: interruptions_def)
      then obtain s' out st where "SessionTask_run P H cs s1 = Some (Pending, s')" "incoming (ss_io s') = []"
        "served H (st_handlers (ss_task s)) (st_auth (ss_task s)) qs' st1 = (out, st)" "serves_on sent s1 s' out st"
        using Cons.IH [of s1 qs'] Cons.prems(2,4,5) \<open>qs = q # qs'\<close> s1(2,3) by (auto simp: serves_on_def)
      then show ?thesis
        using serves_on_trans [OF s1(3)] run cr q y \<open>qs = q # qs'\<close> by auto
    qed
  qed
qed simp

end

end
