(* ===== verification/CallbackLife.thy ===== *)
theory CallbackLife
  imports ClientChannel Progress
begin

text \<open>
  The whole life of a callback: from the call that takes it, through the queue, to the one time it runs,
  whether the request is refused, fails without a connection, is dropped with the queue or is sent.
\<close>

section \<open>What can happen to a queued request\<close>

text \<open>
  \<open>outcome_of\<close>: after a poll the request is in flight and its callback has not run, which is possible only
  before the deadline, or the request is gone and the callback has run once.
\<close>

definition outcome_of :: "callback \<Rightarrow> ClientRequest \<Rightarrow> bool \<Rightarrow> 'io client \<Rightarrow> ((unit, SessionError) result poll \<times> 'io client) option \<Rightarrow> bool" where
  "outcome_of cb req fired w y \<longleftrightarrow> (\<exists>x w'. y = Some (x, w') \<and>
     (if x = Pending then \<not> fired \<and> cw_log w' = cw_log w \<and> (\<exists>tx. cw_current w' = Some (req, tx))
      else cw_current w' = None \<and> (\<exists>r. cw_log w' = cw_log w @ [(cb, r)])))"

text \<open>
  \<open>settles\<close>: the task takes the request while there is no connection; the queue is dropped with the request in it;
  a session sends it; a session polls it while it is in flight. A session needs a list of polling choices
  that is longer than the frames in its input.
\<close>

definition settles :: "('r, 'w, 'd, 'io) platform \<Rightarrow> ('io \<Rightarrow> segment list) \<Rightarrow> callback \<Rightarrow> ClientRequest \<Rightarrow> bool" where
  "settles P incoming cb req \<longleftrightarrow>
     (\<forall>c log. ClientLoop_fail_next_request (Some (Cmd_Request req)) (c, log) = (Ok (), (c, log @ [(cb, Err NoConnection)]))) \<and>
     (\<forall>log. Request_drop (cr_details req) log = log @ [(cb, Err RequestShutdown)]) \<and>
     (\<forall>fired ts w. rb_wf (fdr_buffer (cl_reader (cw_loop w))) \<and> proper (incoming (cw_io w)) \<and>
        pending_input incoming (cl_reader (cw_loop w)) (cw_io w) < length ts \<longrightarrow>
        outcome_of cb req fired w (ClientLoop_run_one_request P fired ts req w) \<and>
        (\<forall>tx. outcome_of cb req fired w (ClientLoop_poll_request P fired ts req tx w)))"

context platform
begin

lemma open_request_settles:
  assumes cb: "request_callback req = Some cb"
  shows "settles P incoming cb req"
proof -
  have sent: "outcome_of cb req fired w (ClientLoop_run_one_request P fired ts req w)"
    and polled: "outcome_of cb req fired w (ClientLoop_poll_request P fired ts req tx w)"
    if "rb_wf (fdr_buffer (cl_reader (cw_loop w)))" "proper (incoming (cw_io w))"
      "pending_input incoming (cl_reader (cw_loop w)) (cw_io w) < length ts" for fired ts tx w
  proof -
    note b = bounded_input [OF that(1,2)] and len = that(3)
    obtain x w' where x: "ClientLoop_run_one_request P fired ts req w = Some (x, w')" "fired \<longrightarrow> x \<noteq> Pending"
      using run_one_request_returns [OF b len, of fired req] by blast
    from run_one_request_once [OF cb x(1)] show "outcome_of cb req fired w (ClientLoop_run_one_request P fired ts req w)"
      using x by (auto simp: outcome_of_def split: if_splits)
    obtain y v where y: "ClientLoop_poll_request P fired ts req tx w = Some (y, v)" "fired \<longrightarrow> y \<noteq> Pending"
      using poll_request_returns [OF b len, of fired req tx] by blast
    from poll_request_once [OF cb y(1)] show "outcome_of cb req fired w (ClientLoop_poll_request P fired ts req tx w)"
      using y by (auto simp: outcome_of_def split: if_splits)
  qed
  show ?thesis
    unfolding settles_def using fail_next_request_once [OF cb] request_ops(1) [OF cb] sent polled by blast
qed

end

section \<open>Calls on a callback session\<close>

text \<open>
  C23: The callback of a call on a \<open>CallbackSession\<close> runs exactly once. If the range is too large or the channel is
  closed, nothing is queued and the callback has run with the reason. Otherwise exactly one request is queued; it
  holds the callback, which has not run, and is the one the server is meant to see, with a range and a number of
  values that the protocol allows. From then on, whatever happens to it, the callback runs once: with
  \<open>NoConnection\<close> if it is taken without a connection, with \<open>Shutdown\<close> if the queue is dropped, and if a session sends
  it, with the outcome of the request; until then it is in flight, and once its deadline has passed
  it is no longer.
\<close>

theorem callback_session_once:
  assumes "platform P rview wbuf wpos incoming sent" and "call_args_ok call"
  shows "case call_range call of
      Ok _ \<Rightarrow>
        if is_open then accepts (call_details call) cb s (CallbackSession_call is_open c call cb s) \<and>
          (\<forall>req. po_queue (CallbackSession_call is_open c call cb s) = po_queue s @ [Cmd_Request req] \<longrightarrow> settles P incoming cb req)
        else refuses cb RequestShutdown s (CallbackSession_call is_open c call cb s)
    | Err e \<Rightarrow> refuses cb (BadRequest (BadRange e)) s (CallbackSession_call is_open c call cb s)
    | Panic \<Rightarrow> False"
proof -
  let ?s = "CallbackSession_call is_open c call cb s"
  have "settles P incoming cb req"
    if "accepts (call_details call) cb s ?s" "po_queue ?s = po_queue s @ [Cmd_Request req]" for req
    using that by (intro platform.open_request_settles [OF assms(1)]) (auto simp: accepts_def)
  then show ?thesis
    using callback_session_queues [OF assms(2), of is_open cb s c] by (auto split: result.splits)
qed

theorem callback_session_once_witness:
  "\<exists>req. po_queue (CallbackSession_call True (CallbackSession_new (RequestParam_new (UnitId 1) 500))
      (Call_ReadCoils \<lparr>ar_start = 10, ar_count = 3\<rparr>) 7 \<lparr>po_queue = [], po_log = []\<rparr>) = [Cmd_Request req] \<and>
    settles (list_platform True) fst 7 req"
proof -
  let ?call = "Call_ReadCoils \<lparr>ar_start = 10, ar_count = 3\<rparr>" and ?s = "\<lparr>po_queue = [], po_log = []\<rparr>"
  let ?c = "CallbackSession_new (RequestParam_new (UnitId 1) 500)"
  have ok: "call_args_ok ?call" "call_range ?call = Ok ()"
    by (simp_all add: valid_range_def AddressRange_of_read_bits_def AddressRange_limited_count_def MAX_READ_COILS_COUNT_def)
  from callback_session_once [OF lp.platform_axioms [of True] ok(1), of True 7 ?s ?c] show ?thesis
    unfolding ok(2) by (auto simp: accepts_def)
qed

end
