(* ===== verification/Spec2Isabelle.thy ===== *)
theory Spec2Isabelle
  imports Tls ChannelConserves SerialLine SessionServes CallbackLife
begin

text \<open>
  A verification of \<open>rodbus\<close>, a Modbus library for TCP, TLS and serial lines with a client, a
  server and bindings for C. The root theory holds this description and the properties that span components; every
  other theory models one part of the program and proves what it promises.

  \<^bold>\<open>The program.\<close> Bytes arrive from a stream in a receive buffer; a parser, MBAP on TCP or RTU on a serial
  line, cuts them into frames. A server session turns the PDU of a frame into a request, asks the
  authorization handler, runs the request on the handler of the addressed unit, or on all of them for a
  broadcast, and writes the reply frame. A client takes requests with their callbacks from a
  channel, writes them one at a time, waits for the response with the right transaction id until a deadline, and
  completes the callback. Around these loops, tasks connect or open ports with a retry delay and report their state;
  the TCP server accepts connections, filters addresses, tracks sessions and evicts the oldest. The bindings expose
  both sides to C with device maps, databases of points, callbacks and error codes.

  \<^bold>\<open>The theories and the code they model\<close> (paths under \<open>src/rodbus/src\<close>, unless said otherwise):
  \<^item> \<open>Prelude\<close>: results with a third outcome for a panic, the state and error monad of all fallible code, bytes and words. \<open>StdText\<close>: reading and
    printing numbers, from the standard library.
  \<^item> \<open>Errors\<close> (\<open>error.rs\<close>, \<open>exception.rs\<close>, \<open>decode.rs\<close>, \<open>constants.rs\<close>) and \<open>Types\<close> (\<open>types.rs\<close>, \<open>common/bits.rs\<close>):
    error types and conversions; unit ids, ranges and iterators on 16-bit words, with overflow
    checks as a switch.
  \<^item> \<open>Platform\<close>: what the program takes from other crates, as the record \<open>platform\<close>: read and write cursors, the CRC
    engine and the byte stream. The locales \<open>read_cursor\<close>, \<open>write_cursor\<close>, \<open>crc_engine\<close> and \<open>byte_stream\<close> state what the code relies
    on; \<open>list_platform\<close> is a concrete platform that satisfies them, with the CRC-16 of Modbus.
  \<^item> \<open>Serialize\<close> (\<open>common/serialize.rs\<close>, \<open>common/parse.rs\<close>, \<open>server/response.rs\<close>, \<open>client/requests/write_multiple.rs\<close>): every message part;
    \<open>emits\<close>, \<open>raises\<close> and \<open>reads\<close> relate the code on cursors to byte lists.
  \<^item> \<open>Buffer\<close> (\<open>common/buffer.rs\<close>), \<open>Frame\<close> (\<open>common/frame.rs\<close>, \<open>common/function.rs\<close>), \<open>Mbap\<close> (\<open>tcp/frame.rs\<close>), \<open>Rtu\<close> (\<open>serial/frame.rs\<close>),
    \<open>FrameIO\<close> (reader and writer of \<open>common/frame.rs\<close>): the invariant \<open>rb_wf\<close> and the unread bytes \<open>rb_view\<close>; the locale \<open>frame_codec\<close> is
    what the reader needs of a parser, and both parsers are instances of it.
  \<^item> \<open>Collections\<close>, \<open>Handler\<close> (\<open>server/handler.rs\<close>), \<open>ServerRequest\<close> (\<open>server/request.rs\<close>, \<open>server/types.rs\<close>), \<open>ServerTask\<close> (\<open>server/task.rs\<close>): ordered
    maps, handlers behind mutexes that can be poisoned, requests and replies, and the session. \<open>serve\<close> is the abstract server,
    written from the protocol and the documentation without the functions of the session. \<open>SessionServes\<close>: a session over all the requests that it receives.
  \<^item> \<open>ClientMessage\<close> (\<open>client/message.rs\<close>, \<open>client/requests\<close>), \<open>ClientTask\<close> (\<open>client/task.rs\<close>, \<open>channel.rs\<close>), \<open>ClientChannel\<close> (\<open>client/channel.rs\<close>,
    \<open>client/ffi_channel.rs\<close>): promises and the log of callbacks, the request loop and the three interfaces that feed it. \<open>CallbackLife\<close>: a callback from the call that takes it to the one time it runs.
  \<^item> \<open>EndToEnd\<close>: a client and a server on one link, the locale \<open>link\<close> with its TCP and serial instances. \<open>Progress\<close>:
    every frame uses up input, so the loops of both sides end.
  \<^item> \<open>Retry\<close> (\<open>retry.rs\<close>), \<open>ChannelTask\<close> (\<open>tcp/client.rs\<close>, \<open>serial/client.rs\<close>, \<open>serial/server.rs\<close>, \<open>client/listener.rs\<close>), \<open>AddressFilter\<close>
    (\<open>server/address_filter.rs\<close>), \<open>TcpServer\<close> (\<open>tcp/server.rs\<close>, \<open>tcp/tls/server.rs\<close>, \<open>server/mod.rs\<close>), \<open>Tls\<close> (\<open>tcp/tls\<close>): the tasks, filters, the session tracker and the configurations.
    \<open>ChannelProgress\<close> shows that the runs of the client tasks come to a result or wait, and
    \<open>ChannelConserves\<close> that a channel loses no request over all its rounds.
  \<^item> \<open>SerialPort\<close> (\<open>serial/mod.rs\<close>) and \<open>SerialLine\<close> (\<open>common/phys.rs\<close>): port settings, the delay between frames and the physical layer,
    which keeps the laws of \<open>byte_stream\<close>. \<open>CommandLine\<close> (\<open>src/rodbus-client/src/main.rs\<close>): the command line client, with its declared
    arguments, over the parser of the crate \<open>clap\<close>.
  \<^item> \<open>FfiTypes\<close>, \<open>FfiDatabase\<close>, \<open>FfiServer\<close>, \<open>FfiClient\<close> (\<open>src/ffi/rodbus-ffi/src\<close>, with the declarations of \<open>src/ffi/rodbus-schema/src\<close>): the
    bindings. The locale \<open>point_table\<close> has one instance per table of a database.

  \<^bold>\<open>How state and effects are modelled.\<close> A struct is a record with the fields of the code and an operation a function of the same name
  that returns the new state; a panic is the result \<open>Panic\<close>. Asynchronous code is cut at its waiting points: a poll
  returns \<open>Pending\<close> with the state of the suspended future. What the environment decides is an explicit argument: the segments
  of a stream, what a channel delivers, whether a deadline has passed, the order in which
  \<open>select!\<close> polls, the outcome of connecting, binding and of a handshake, the order in which a hash map is drained.
  Callbacks are numbers, and a log records each call.

  \<^bold>\<open>Loops.\<close> The frame reader is a partial function whose result \<open>None\<close> stands for not returning; \<open>reader_always_returns\<close> shows that it
  does not occur. The loops over \<open>select!\<close> take a list of choices, one for each turn, and are \<open>None\<close>
  or waiting when it is used up; \<open>timed_out_request_settled\<close>, \<open>client_session_conserves\<close> and, for a server with any input, the lemma \<open>session_run_returns\<close> show
  that a list longer than \<open>pending_input\<close>, a bound on the frames in the input, is always enough; \<open>server_session_serves\<close> needs one
  turn more than there are requests and settings. For a task, whose reader goes on with what the last
  session left in its buffer, \<open>enough_turns\<close> takes a full buffer into account.

  \<^bold>\<open>What is shown.\<close> Framing: any segmentation of a frame is read, waiting loses nothing, bad headers and checksums
  are refused. Server: a session implements the abstract server, frame by frame and over all that arrives; broadcasts are silent; denied requests are harmless. Client:
  requests are conserved, settled, matched to their responses and refused when they do not fit. Both together: a request makes its
  round trip. Tasks: reported states follow the life cycle, delays stay in bounds, the number of sessions is
  bounded; writes on a serial line keep their distance. Bindings: tables are maps, device maps become handlers, filters are honoured, callbacks are settled. Command line: what is typed is what is requested. Some theorems show
  where the code falls short: a full buffer that ends a session, a range that ends at the last address, a request too large for a frame. Where the code
  differs from its documentation, the theorem or a lemma beside it says so: the exception for a range that overflows, the limit for
  writing coils, the result of deleting a point, the value of a coil on the command line.

  \<^bold>\<open>Not modelled.\<close> Text for people, apart from the bytes in the log and the lines of the command line client: the \<open>Display\<close> and
  \<open>Loggable\<close> implementations and calls of \<open>tracing\<close>. What other crates do: sockets, ports and timers of \<open>tokio\<close> and \<open>tokio_serial\<close>, the TLS
  handshake and certificates, the parser of \<open>clap\<close>; their outcomes are arguments. \<open>MaybeAsync\<close>, a value or a future of one, is its
  value. The rest of \<open>src/ffi/rodbus-schema\<close> declares names and documentation for the binding generator and has no behaviour;
  what it generates is not in the repository. Destructors, examples and tests are left out. A write to the stream is one step that does not wait; \<open>Instant::now() + timeout\<close> does not
  overflow; a setting reaches a session at once; a connection attempt is over when its arrivals are used up.
\<close>

section \<open>Framing\<close>

text \<open>
  C3: A TCP reader with an empty buffer, whose peer sends one MBAP frame cut into non-empty segments
  in any way, returns that frame: the transaction id, the unit id and the PDU are those that were
  sent. It ends idle with an empty buffer, and nothing after the frame is consumed.
\<close>

theorem tcp_reader_any_segmentation:
  assumes "platform P rview wbuf wpos incoming sent"
    and "fdr_parser r = Parser_Tcp p" and "mp_state p = Mbap_Begin"
    and "rb_wf (fdr_buffer r)" and "rb_view (fdr_buffer r) = []"
    and "concat segs = mbap_frame_bytes tx unit pdu" and "length pdu \<le> MAX_ADU_LENGTH"
    and "\<forall>s \<in> set segs. s \<noteq> []" and "incoming io = map Data segs @ rest"
  shows "\<exists>f r' io'. FramedReader_next_frame P r io = Some (Ready (Ok f), r', io') \<and>
    fr_header f = FrameHeader_new_tcp_header unit tx \<and> Frame_payload f = pdu \<and>
    tcp_idle (fdr_parser r') \<and> rb_wf (fdr_buffer r') \<and> rb_view (fdr_buffer r') = [] \<and>
    incoming io' = rest \<and> sent io' = sent io"
proof -
  let ?f = "frame_of (FrameHeader_new_tcp_header unit tx) pdu"
  have "tcp_expects (fdr_parser r) (rb_view (fdr_buffer r) @ concat segs) ?f"
    using assms(2,3,5,6,7) by auto
  moreover have "(if rb_view (fdr_buffer r) = [] then 0 else rb_end (fdr_buffer r)) + length (concat segs)
      \<le> MAX_FRAME_LENGTH"
    using assms(5,6,7) by (simp add: MAX_ADU_LENGTH_def)
  ultimately show ?thesis
    using platform.next_tcp_frame [OF assms(1,4) _ _ assms(8,9)] assms(7) by fastforce
qed

theorem tcp_reader_any_segmentation_witness:
  "\<exists>f r' io'. FramedReader_next_frame (list_platform True) FramedReader_tcp
      ([Data [0, 7, 0], Data [0, 0, 4, 0x2A, 1], Data [0xCA, 0xFE]], []) = Some (Ready (Ok f), r', io') \<and>
    fr_header f = FrameHeader_new_tcp_header (UnitId 0x2A) (TxId 7) \<and> Frame_payload f = [1, 0xCA, 0xFE] \<and>
    tcp_idle (fdr_parser r') \<and> rb_wf (fdr_buffer r') \<and> rb_view (fdr_buffer r') = [] \<and> fst io' = [] \<and>
    snd io' = []"
  using tcp_reader_any_segmentation [OF lp.platform_axioms, of FramedReader_tcp MbapParser_new
      "[[0, 7, 0], [0, 0, 4, 0x2A, 1], [0xCA, 0xFE]]" "TxId 7" "UnitId 0x2A" "[1, 0xCA, 0xFE]"
      "([Data [0, 7, 0], Data [0, 0, 4, 0x2A, 1], Data [0xCA, 0xFE]], [])" "[]" True]
  by (simp add: FramedReader_tcp_def FramedReader_new_def MbapParser_new_def mbap_frame_bytes_def
      mbap_header_bytes_def be_bytes_def be_hi_def be_lo_def MAX_ADU_LENGTH_def)

text \<open>
  C6: The same on a serial line, for either direction: a frame whose length agrees with its
  function code, cut into segments in any way, is returned whole, under the address it was
  sent to; address 0 is a broadcast.
\<close>

theorem rtu_reader_any_segmentation:
  assumes "platform P rview wbuf wpos incoming sent"
    and "fdr_parser r = Parser_Rtu p" and "rp_state p = Rtu_Start" and "rp_parser_type p = t"
    and "rb_wf (fdr_buffer r)" and "rb_view (fdr_buffer r) = []"
    and "concat segs = rtu_frame_bytes P dest pdu" and "rtu_pdu_ok t pdu"
    and "\<forall>s \<in> set segs. s \<noteq> []" and "incoming io = map Data segs @ rest"
  shows "\<exists>f r' io'. FramedReader_next_frame P r io = Some (Ready (Ok f), r', io') \<and>
    fr_header f = FrameHeader_new_rtu_header (rtu_destination dest) \<and> Frame_payload f = pdu \<and>
    serial_idle t (fdr_parser r') \<and> rb_wf (fdr_buffer r') \<and> rb_view (fdr_buffer r') = [] \<and>
    incoming io' = rest \<and> sent io' = sent io"
proof -
  let ?f = "frame_of (FrameHeader_new_rtu_header (rtu_destination dest)) pdu"
  have pdu: "length pdu \<le> MAX_ADU_LENGTH" using assms(8) by (cases pdu) auto
  have "serial_expects P t (fdr_parser r) (rb_view (fdr_buffer r) @ concat segs) ?f"
    using assms(2,3,4,6,7,8) by auto
  moreover have "(if rb_view (fdr_buffer r) = [] then 0 else rb_end (fdr_buffer r)) + length (concat segs)
      \<le> MAX_FRAME_LENGTH"
    using assms(6,7) pdu by (simp add: MAX_ADU_LENGTH_def)
  ultimately show ?thesis
    using platform.next_rtu_frame [OF assms(1,5) _ _ assms(9,10), of t ?f] pdu by fastforce
qed

theorem rtu_reader_any_segmentation_witness:
  "\<exists>f r' io'. FramedReader_next_frame (list_platform True) FramedReader_rtu_request
      ([Data [0x2A], Data [6, 0, 1, 0, 2], Data (rtu_crc (list_platform True) [0x2A, 6, 0, 1, 0, 2])], []) =
        Some (Ready (Ok f), r', io') \<and>
    fr_header f = FrameHeader_new_rtu_header (Dest_UnitId (UnitId 0x2A)) \<and> Frame_payload f = [6, 0, 1, 0, 2]"
proof -
  let ?crc = "rtu_crc (list_platform True) [0x2A, 6, 0, 1, 0, 2]"
  have "?crc \<noteq> []" by (simp add: rtu_crc_def)
  then show ?thesis
    using rtu_reader_any_segmentation [OF lp.platform_axioms, of FramedReader_rtu_request RtuParser_new_request_parser
        Request "[[0x2A], [6, 0, 1, 0, 2], ?crc]" True "0x2A" "[6, 0, 1, 0, 2]"
        "([Data [0x2A], Data [6, 0, 1, 0, 2], Data ?crc], [])" "[]"]
    by (auto simp: FramedReader_rtu_request_def FramedReader_new_def RtuParser_new_request_parser_def
        rtu_frame_bytes_def MAX_ADU_LENGTH_def RtuParser_length_mode_def FunctionCode_get_def rtu_destination_def
        UnitId_broadcast_def)
qed

text \<open>
  C19: Waiting loses nothing. If the stream runs dry in the middle of a frame, the reader waits;
  when the missing bytes arrive, in whatever pieces, the next call returns the whole frame.
\<close>

theorem tcp_reader_resumes:
  assumes "platform P rview wbuf wpos incoming sent"
    and "tcp_idle (fdr_parser r)" and "rb_wf (fdr_buffer r)" and "rb_view (fdr_buffer r) = []"
    and "concat segs @ concat segs' = mbap_frame_bytes tx unit pdu" and "length pdu \<le> MAX_ADU_LENGTH"
    and "concat segs' \<noteq> []" and "\<forall>s \<in> set (segs @ segs'). s \<noteq> []" and "incoming io = map Data segs"
  shows "\<exists>r1 io1. FramedReader_next_frame P r io = Some (Pending, r1, io1) \<and>
    (\<forall>io2 rest. incoming io2 = map Data segs' @ rest \<longrightarrow>
      (\<exists>f r2 io3. FramedReader_next_frame P r1 io2 = Some (Ready (Ok f), r2, io3) \<and>
        fr_header f = FrameHeader_new_tcp_header unit tx \<and> Frame_payload f = pdu \<and>
        tcp_idle (fdr_parser r2) \<and> rb_view (fdr_buffer r2) = [] \<and> incoming io3 = rest))"
proof -
  let ?f = "frame_of (FrameHeader_new_tcp_header unit tx) pdu"
  have len: "length (concat segs) + length (concat segs') = 7 + length pdu"
    using arg_cong [OF assms(5), of length] by simp
  have "tcp_expects (fdr_parser r) (rb_view (fdr_buffer r) @ concat segs @ concat segs') ?f"
    using assms(2,4,5,6) by (cases "fdr_parser r") auto
  moreover have "(if rb_view (fdr_buffer r) = [] then 0 else rb_end (fdr_buffer r)) + length (concat segs) \<le> MAX_FRAME_LENGTH"
    using assms(4,6) len by (simp add: MAX_ADU_LENGTH_def)
  ultimately obtain r1 io1 where r1: "FramedReader_next_frame P r io = Some (Pending, r1, io1)"
    "rb_wf (fdr_buffer r1)" "tcp_expects (fdr_parser r1) (rb_view (fdr_buffer r1) @ concat segs') ?f"
    "rb_end (fdr_buffer r1) \<le> (if rb_view (fdr_buffer r) = [] then 0 else rb_end (fdr_buffer r)) + length (concat segs)"
    using platform.next_tcp_frame_waits [OF assms(1,3) _ assms(7) _ _ assms(9), of ?f] assms(8) by auto
  have fits: "(if rb_view (fdr_buffer r1) = [] then 0 else rb_end (fdr_buffer r1)) + length (concat segs') \<le> MAX_FRAME_LENGTH"
    using r1(4) assms(4,6) len by (auto simp: MAX_ADU_LENGTH_def)
  have ne: "\<forall>s \<in> set segs'. s \<noteq> []" using assms(8) by simp
  show ?thesis
    using r1(1) platform.next_tcp_frame [OF assms(1) r1(2,3) fits ne] assms(6) by fastforce
qed

theorem tcp_reader_resumes_witness:
  "\<exists>r1 io1. FramedReader_next_frame (list_platform True) FramedReader_tcp ([Data [0, 7, 0, 0, 0, 3]], []) =
      Some (Pending, r1, io1) \<and>
    (\<exists>f r2 io3. FramedReader_next_frame (list_platform True) r1 ([Data [0x2A, 1], Data [2]], []) = Some (Ready (Ok f), r2, io3) \<and>
      Frame_payload f = [1, 2])"
proof -
  have eq: "concat [[0, 7, 0, 0, 0, 3]] @ concat [[0x2A, 1], [2]] = mbap_frame_bytes (TxId 7) (UnitId 0x2A) [1, 2]"
    by (simp add: mbap_frame_bytes_def mbap_header_bytes_def be_bytes_def be_hi_def be_lo_def)
  obtain r1 io1 where "FramedReader_next_frame (list_platform True) FramedReader_tcp ([Data [0, 7, 0, 0, 0, 3]], []) =
      Some (Pending, r1, io1)"
    "\<forall>io2 rest. fst io2 = map Data [[0x2A, 1], [2]] @ rest \<longrightarrow>
      (\<exists>f r2 io3. FramedReader_next_frame (list_platform True) r1 io2 = Some (Ready (Ok f), r2, io3) \<and>
        fr_header f = FrameHeader_new_tcp_header (UnitId 0x2A) (TxId 7) \<and> Frame_payload f = [1, 2] \<and>
        tcp_idle (fdr_parser r2) \<and> rb_view (fdr_buffer r2) = [] \<and> fst io3 = rest)"
    using tcp_reader_resumes [OF lp.platform_axioms, of FramedReader_tcp, OF _ _ _ eq,
        of "([Data [0, 7, 0, 0, 0, 3]], [])" True]
    by (auto simp: FramedReader_tcp_def FramedReader_new_def MbapParser_new_def MAX_ADU_LENGTH_def)
  then show ?thesis by fastforce
qed

text \<open>
  C12: Reading a frame never runs forever and never panics on the buffer. From any state of
  either parser and whatever the peer sends, the loop ends: with a frame, with an error, or
  waiting for the stream; the buffer keeps its invariant.
\<close>

theorem reader_always_returns:
  assumes "byte_stream P incoming sent" and "rb_wf (fdr_buffer r)"
  shows "\<exists>x r' io'. FramedReader_next_frame P r io = Some (x, r', io') \<and> rb_wf (fdr_buffer r')"
  by (rule byte_stream.next_frame_returns [OF assms])

theorem reader_always_returns_witness:
  "\<exists>x r' io'. FramedReader_next_frame (list_platform True) FramedReader_tcp
      ([Data [1, 2, 3], Data [0xFF, 0xFF, 0xFF, 0xFF, 0xFF], Fails (OtherKind ''reset'')], []) = Some (x, r', io') \<and>
    rb_wf (fdr_buffer r')"
  by (rule reader_always_returns [OF queue_byte_stream]) (simp add: FramedReader_tcp_def FramedReader_new_def)

text \<open>
  C22: A complete MBAP header decides at once what happens. A protocol id other than 0, a length
  above 254 and a length of 0 are the errors the protocol names, checked in this order; any other
  header is accepted and announces one byte less than its length field.
\<close>

theorem mbap_header_verdict:
  assumes "rb_wf rb" and "rb_view rb = t1 # t2 # p1 # p2 # l1 # l2 # u # rest"
  shows "fst (MbapParser_parse_header rb) =
    (if u16_be p1 p2 \<noteq> 0 then Err (BadFrame (UnknownProtocolId (u16_be p1 p2)))
     else if unat (u16_be l1 l2) > 254 then Err (BadFrame (FrameLengthTooBig (unat (u16_be l1 l2)) 254))
     else if u16_be l1 l2 = 0 then Err (BadFrame MbapLengthZero)
     else Ok (\<lparr>mh_tx_id = TxId (u16_be t1 t2), mh_len_field = u16_be l1 l2, mh_unit_id = UnitId u\<rparr>,
              unat (u16_be l1 l2) - 1)) \<and>
    rb_view (snd (MbapParser_parse_header rb)) = rest"
  using rb_skip_props(2) [OF assms(1), of 7] assms(2)
  by (simp add: MbapParser_parse_header_eq [OF assms] mbap_check_def)

theorem mbap_header_verdict_witness:
  "fst (MbapParser_parse_header \<lparr>rb_buffer = [0, 1, 0, 0, 0, 0, 9] @ replicate 253 0, rb_begin = 0, rb_end = 7\<rparr>) =
    Err (BadFrame MbapLengthZero)"
  using mbap_header_verdict [of "\<lparr>rb_buffer = [0, 1, 0, 0, 0, 0, 9] @ replicate 253 0, rb_begin = 0, rb_end = 7\<rparr>"
      0 1 0 0 0 0 9 "[]"]
  by (simp add: rb_wf_def rb_view_def u16_be_def)

text \<open>
  C9: No serial frame is accepted with a wrong checksum. Once the whole body is there, the
  frame is returned if and only if the transmitted CRC is the CRC of the address and the body;
  otherwise the error carries both values. The body and the checksum are consumed in both cases.
\<close>

theorem rtu_crc_decides:
  assumes "crc_engine P" and "rb_wf rb" and "rb_view rb = pdu @ lo # hi # extra" and "length pdu = n + 1"
    and "n + 1 \<le> MAX_ADU_LENGTH"
  shows "\<exists>p' rb'. RtuParser_parse_full_body P d n (p, rb) =
      (if u16_be hi lo = crc_checksum P (FrameDestination_value d # pdu)
       then Ok (Some (frame_of (FrameHeader_new_rtu_header d) pdu))
       else Err (BadFrame (CrcValidationFailure (u16_be hi lo) (crc_checksum P (FrameDestination_value d # pdu)))), (p', rb')) \<and>
    rb_view rb' = extra"
  using crc_engine.rtu_full_body_crc [OF assms, of d p] rb_skip_props(2) [OF assms(2), of "n + 3"] assms(3,4)
  by (auto simp: Let_def)

theorem rtu_crc_decides_witness:
  "\<exists>p' rb'. RtuParser_parse_full_body (list_platform True) (Dest_UnitId (UnitId 1)) 1
      (RtuParser_new_response_parser, \<lparr>rb_buffer = [0x83, 2, 0, 0, 5] @ replicate 255 0, rb_begin = 0, rb_end = 5\<rparr>) =
      (Err (BadFrame (CrcValidationFailure 0 0xf1c0)), (p', rb')) \<and> rb_view rb' = [5]"
proof -
  let ?rb = "\<lparr>rb_buffer = [0x83, 2, 0, 0, 5] @ replicate 255 0, rb_begin = 0, rb_end = 5\<rparr> :: ReadBuffer"
  have rb: "rb_wf ?rb" "rb_view ?rb = [0x83, 2] @ 0 # 0 # [5]" by (simp_all add: rb_wf_def rb_view_def)
  have crc: "crc_checksum (list_platform True) (FrameDestination_value (Dest_UnitId (UnitId 1)) # [0x83, 2]) = 0xf1c0" by code_simp
  have be: "u16_be 0 0 = 0" by (simp add: u16_be_def)
  show ?thesis
    using rtu_crc_decides [OF list_crc_engine [of True] rb, of 1 "Dest_UnitId (UnitId 1)" RtuParser_new_response_parser]
    unfolding crc be by (simp add: MAX_ADU_LENGTH_def)
qed

section \<open>The server\<close>

text \<open>
  C2: A server session implements the abstract server. For every frame, on either transport, the
  bytes written are exactly the frame of the reply PDU that the protocol prescribes, under the
  header of the request, or nothing when no reply is due; the handlers end in the state the
  abstract server gives them, whatever the outcome of the write: the addressed one for a single unit, all of them, in order,
  for a broadcast. Two cases are left out. A read that ends at the last address panics with overflow checks.
  And a range that runs past the last address gets an exception other than the documented one, which the abstract
  server gives; this is the lemma after the theorem.
\<close>

theorem session_implements_server:
  assumes "platform P rview wbuf wpos incoming sent"
    and "fw_wf (st_writer (ss_task s))"
    and "header_ok (fw_format_type (st_writer (ss_task s))) (fr_header frame)"
    and "\<not> overflowing_range (Frame_payload frame)"
    and "\<And>f body req. Frame_payload frame = FunctionCode_get_value f # body \<Longrightarrow>
      decode_request f body = Ok req \<Longrightarrow> iterable P req"
    and "handler_total H" and "healthy (ss_store s)"
  shows "replies P (fr_header frame) s
    (serve H (st_handlers (ss_task s)) (st_auth (ss_task s)) (fh_destination (fr_header frame))
      (Frame_payload frame) (ss_store s))
    (SessionTask_handle_frame P H frame s)"
  using platform.handle_frame_serve [OF assms(1-4) _ assms(6,7)] assms(5) by blast

text \<open>
  Where the code and its documentation part: a range that runs past the last address is answered with the exception for an illegal
  value, 3, while the documentation of \<open>RequestHandler\<close> promises the one for an illegal address, 2.
\<close>

lemma overflowing_range_answer:
  assumes "platform P rview wbuf wpos incoming sent"
    and "fw_wf (st_writer (ss_task s))"
    and "header_ok (fw_format_type (st_writer (ss_task s))) (fr_header frame)"
    and "Frame_payload frame = fc # body" and "overflowing_range (fc # body)"
  shows "replies P (fr_header frame) s
    (unless_broadcast (fh_destination (fr_header frame)) [fc OR 0x80, 0x03], ss_store s) (SessionTask_handle_frame P H frame s)"
    and "serve H handlers auth d (fc # body) st = (unless_broadcast d [fc OR 0x80, 0x02], st)"
proof -
  have "fc \<in> {0x01, 0x02, 0x03, 0x04, 0x0F, 0x10}"
    using assms(5) by (cases "fc # body" rule: overflowing_range.cases) auto
  then obtain f where f: "FunctionCode_get fc = Some f" by (auto simp: FunctionCode_get_def)
  then obtain e where "decode_request f body = Err e" using overflowing_undecoded [OF assms(5)] by blast
  from platform.handle_frame_undecoded [OF assms(1-4) f this]
  show "replies P (fr_header frame) s
    (unless_broadcast (fh_destination (fr_header frame)) [fc OR 0x80, 0x03], ss_store s) (SessionTask_handle_frame P H frame s)" .
  show "serve H handlers auth d (fc # body) st = (unless_broadcast d [fc OR 0x80, 0x02], st)"
    using f assms(5) by (simp add: function_table_get)
qed

definition demo_session :: "(unit, queue_stream) session" where
  "demo_session = \<lparr>ss_task = SessionTask_new (ServerHandlerMap_single (UnitId 1) 0) Auth_None FrameWriter_tcp FramedReader_tcp
     DecodeLevel_default, ss_store = (\<lambda>_. RequestHandler_wrap ()), ss_io = ([], [])\<rparr>"

lemma demo_session_ok:
  "fw_wf (st_writer (ss_task demo_session))" "fw_format_type (st_writer (ss_task demo_session)) = Format_Tcp"
  "healthy (ss_store demo_session)" "st_reader (ss_task demo_session) = FramedReader_tcp"
  "ServerHandlerMap_get (UnitId 1) (st_handlers (ss_task demo_session)) = Some 0"
  "st_auth (ss_task demo_session) = Auth_None" "ss_io demo_session = ([], [])" "mx_value (ss_store demo_session r) = ()"
  by (simp_all add: demo_session_def SessionTask_new_def healthy_def RequestHandler_wrap_def ServerHandlerMap_single_def
      ServerHandlerMap_get_def bt_get_def)

text \<open>Two units whose handlers keep the last register written; a broadcast reaches both.\<close>

definition demo_units :: "(u16, queue_stream) session" where
  "demo_units = \<lparr>ss_task = SessionTask_new (snd (ServerHandlerMap_add (UnitId 2) 1 (ServerHandlerMap_single (UnitId 1) 0))) Auth_None
     FrameWriter_rtu FramedReader_rtu_request DecodeLevel_default, ss_store = (\<lambda>_. RequestHandler_wrap 0), ss_io = ([], [])\<rparr>"

definition demo_register :: "u16 RequestHandler" where
  "demo_register = RequestHandler_default\<lparr>rh_write_single_register := \<lambda>v h. (Ok (), ix_value v)\<rparr>"

theorem session_implements_server_witness:
  "replies (list_platform True) (FrameHeader_new_rtu_header Broadcast) demo_units
    (None, (\<lambda>_. RequestHandler_wrap 0)(0 := RequestHandler_wrap 9, 1 := RequestHandler_wrap 9))
    (SessionTask_handle_frame (list_platform True) demo_register
      (frame_of (FrameHeader_new_rtu_header Broadcast) [6, 0, 7, 0, 9]) demo_units)"
proof -
  let ?f = "frame_of (FrameHeader_new_rtu_header Broadcast) [6, 0, 7, 0, 9]"
  have hd: "fr_header ?f = FrameHeader_new_rtu_header Broadcast" "Frame_payload ?f = [6, 0, 7, 0, 9]"
    by (simp_all add: MAX_ADU_LENGTH_def)
  have ok: "fw_wf (st_writer (ss_task demo_units))" "healthy (ss_store demo_units)" "handler_total demo_register"
    "header_ok (fw_format_type (st_writer (ss_task demo_units))) (fr_header ?f)" "\<not> overflowing_range (Frame_payload ?f)"
    unfolding hd by (simp_all add: demo_units_def SessionTask_new_def healthy_def RequestHandler_wrap_def header_ok_def
        FrameHeader_new_rtu_header_def handler_total_def demo_register_def RequestHandler_default_def fail_def)
  have fc: "f = WriteSingleRegister" if "FunctionCode_get_value f = 6" for f using that by (cases f) simp_all
  have it: "iterable (list_platform True) req"
    if "Frame_payload ?f = FunctionCode_get_value f # body" "decode_request f body = Ok req" for f body req
    using that hd(2) fc [of f] by (auto simp: iterable_def)
  have sv: "serve demo_register (st_handlers (ss_task demo_units)) (st_auth (ss_task demo_units))
      (fh_destination (fr_header ?f)) (Frame_payload ?f) (ss_store demo_units) =
      (None, (\<lambda>_. RequestHandler_wrap 0)(0 := RequestHandler_wrap 9, 1 := RequestHandler_wrap 9))"
    unfolding hd
    by (simp add: demo_units_def SessionTask_new_def FrameHeader_new_rtu_header_def function_table_def serve_request_def
        ServerHandlerMap_add_def ServerHandlerMap_single_def demo_register_def Indexed_new_def u16_be_def RequestHandler_wrap_def less_UnitId_def)
  show ?thesis
    using session_implements_server [OF lp.platform_axioms ok(1,4,5) it ok(3,2)]
    unfolding sv unfolding hd(1) .
qed

text \<open>
  C8: Reading a request from its bytes agrees with the table of the protocol, for every
  function code and every body: which bodies are requests, and the error for each that is not.
\<close>

theorem request_parse_meets_table:
  assumes "read_cursor P rview"
  shows "fst (Request_parse P f (rc_new P body)) = decode_request f body"
  using read_cursor.Request_parse_decode [OF assms, of f "rc_new P body"] read_cursor.rc_new [OF assms] by simp

theorem request_parse_meets_table_witness:
  "fst (Request_parse (list_platform True) WriteSingleCoil (rc_new (list_platform True) [0, 7, 0xAB, 0xCD])) =
    Err (BadResponse (UnknownCoilState 0xABCD))"
  using request_parse_meets_table [OF list_read_cursor [of True], of WriteSingleCoil "[0, 7, 0xAB, 0xCD]"]
  by (simp add: u16_be_def coil_of_def coil_from_u16_def conv_defs)

text \<open>
  C14: Whatever bytes arrive, a request that the server accepts from a PDU is well formed: it has the function
  of its code, its range is not empty and does not pass the last address, a read stays within the limit
  of its kind, 2000 coils or 125 registers, and a write of several values carries exactly the bytes of its range, with its
  iterator at the start. Registers written are at most 123, the documented limit. Coils written are at most 1976, as many as
  a PDU can hold: the documented limit of 1968 is not checked.
\<close>

theorem parsed_requests_well_formed:
  assumes "read_cursor P rview" and "length (rview c) < MAX_ADU_LENGTH" and "Request_parse P f c = (Ok req, c')"
  shows "request_ok req \<and> Request_get_function req = f \<and>
    (case req of
       Req_WriteMultipleRegisters x \<Rightarrow> unat (ar_count (wrs_range x)) \<le> 123
     | Req_WriteMultipleCoils x \<Rightarrow> unat (ar_count (wcs_range x)) \<le> 1976
     | _ \<Rightarrow> True)"
proof -
  have "decode_request f (rview c) = Ok req" using read_cursor.Request_parse_decode [OF assms(1), of f c] assms(3) by simp
  then show ?thesis using decode_request_ok decode_write_counts assms(2) by (simp add: MAX_ADU_LENGTH_def)
qed

text \<open>The limit for coils is exceeded by a PDU of the largest size.\<close>

lemma write_coils_limit_unchecked:
  "decode_request WriteMultipleCoils ([0, 0, 0x07, 0xB8, 247] @ replicate 247 0) =
     Ok (coils_request \<lparr>ar_start = 0, ar_count = 1976\<rparr> (replicate 247 0))"
  "MAX_WRITE_COILS_COUNT < 1976"
  by (simp_all add: u16_be_def range_of_def AddressRange_try_from_eq num_bytes_for_bits_def MAX_WRITE_COILS_COUNT_def)

theorem parsed_requests_well_formed_witness:
  "\<exists>req c'. Request_parse (list_platform True) ReadCoils [0, 3, 0, 9] = (Ok req, c') \<and>
    request_ok req \<and> Request_get_function req = ReadCoils"
proof -
  have len: "length [0, 3, 0, 9 :: u8] < MAX_ADU_LENGTH" by (simp add: MAX_ADU_LENGTH_def)
  obtain x c' where x: "Request_parse (list_platform True) ReadCoils [0, 3, 0, 9] = (x, c')" by fastforce
  have "x = Ok (Req_ReadCoils (ReadBitsRange \<lparr>ar_start = 3, ar_count = 9\<rparr>))"
    using read_cursor.Request_parse_decode [OF list_read_cursor [of True], of ReadCoils "[0, 3, 0, 9]"] x
    by (simp add: u16_be_def range_of_def AddressRange_try_from_def AddressRange_of_read_bits_def
        AddressRange_limited_count_def conv_defs)
  with x show ?thesis using parsed_requests_well_formed [OF list_read_cursor [of True] len, of ReadCoils] by auto
qed

text \<open>
  C16: A broadcast is never answered. Whatever the frame holds, and whatever the handlers do,
  including when one of them panics, nothing is written to the stream and the task itself is
  unchanged.
\<close>

theorem broadcast_never_answered:
  assumes "fh_destination (fr_header frame) = Broadcast"
  shows "ss_io (snd (SessionTask_handle_frame P H frame s)) = ss_io s \<and>
    ss_task (snd (SessionTask_handle_frame P H frame s)) = ss_task s"
  using assms
  by (auto simp: SessionTask_handle_frame_def SessionTask_handle_request_def SessionTask_reply_with_error_def
      SessionTask_reply_with_error_generic_def FrameDestination_is_broadcast_def ret_def Let_def for_list_execute_keeps
      split: prod.split result.split option.split Authorization.split)

theorem broadcast_never_answered_witness:
  "ss_io (snd (SessionTask_handle_frame (list_platform True) RequestHandler_default
      (frame_of (FrameHeader_new_rtu_header Broadcast) [5, 0, 1, 0xFF, 0]) demo_session)) = ([], [])"
  using broadcast_never_answered [of "frame_of (FrameHeader_new_rtu_header Broadcast) [5, 0, 1, 0xFF, 0]"
      "list_platform True" RequestHandler_default demo_session]
  by (simp add: FrameHeader_new_rtu_header_def demo_session_ok)

text \<open>
  C15: A request that the policy denies does nothing but the refusal: no handler runs, every
  handler and every lock is as before, and a unit that was addressed answers with the exception
  for an illegal function.
\<close>

theorem denied_request_harmless:
  assumes "platform P rview wbuf wpos incoming sent"
    and "fw_wf (st_writer (ss_task s))" and "header_ok (fw_format_type (st_writer (ss_task s))) (fr_header frame)"
    and "Frame_payload frame = FunctionCode_get_value f # body" and "decode_request f body = Ok req"
    and "AuthorizationType_is_authorized (st_auth (ss_task s))
      (FrameDestination_into_unit_id (fh_destination (fr_header frame))) req = Deny"
  shows "replies P (fr_header frame) s
    (unless_broadcast (fh_destination (fr_header frame)) (exception_pdu f IllegalFunction), ss_store s)
    (SessionTask_handle_frame P H frame s)"
proof -
  let ?h = "fr_header frame"
  have rc: "read_cursor P rview" using assms(1) by (rule platform.axioms(1))
  obtain c' where c': "rc_read_u8 P (rc_new P (Frame_payload frame)) = (Ok (FunctionCode_get_value f), c')" "rview c' = body"
    using read_cursor.rc_read_u8_Cons [OF rc, of "rc_new P (Frame_payload frame)"] assms(4)
    by (auto simp: read_cursor.rc_new [OF rc])
  obtain res c2 where p: "Request_parse P f c' = (res, c2)" by fastforce
  then have res: "res = Ok req" using read_cursor.Request_parse_decode [OF rc, of f c'] c'(2) assms(5) by simp
  have fn: "Request_get_function req = f" using decode_request_ok assms(5) by blast
  have "replies P ?h s (unless_broadcast (fh_destination ?h) (exception_pdu f IllegalFunction), ss_store s)
      (SessionTask_reply_with_error P ?h f IllegalFunction s)"
    using platform.session_exception [OF assms(1-3), of "Field_Exception f" f _ IllegalFunction]
    by (simp add: SessionTask_reply_with_error_def exception_pdu_def FunctionCode_as_error_def)
  then show ?thesis
    using c' p res fn assms(6) replies_none [OF assms(2), of P ?h]
    by (auto simp: SessionTask_handle_frame_def Let_def FrameDestination_is_broadcast_def unless_broadcast_def)
qed

theorem denied_request_harmless_witness:
  "replies (list_platform True) (FrameHeader_new_tcp_header (UnitId 1) (TxId 9))
    (demo_session\<lparr>ss_task := (ss_task demo_session)\<lparr>st_auth := Auth_Handler ReadOnlyAuthorizationHandler ''viewer''\<rparr>\<rparr>)
    (Some [0x86, 1], ss_store demo_session)
    (SessionTask_handle_frame (list_platform True) RequestHandler_default
      (frame_of (FrameHeader_new_tcp_header (UnitId 1) (TxId 9)) [6, 0, 1, 0, 2])
      (demo_session\<lparr>ss_task := (ss_task demo_session)\<lparr>st_auth := Auth_Handler ReadOnlyAuthorizationHandler ''viewer''\<rparr>\<rparr>))"
proof -
  let ?s = "demo_session\<lparr>ss_task := (ss_task demo_session)\<lparr>st_auth := Auth_Handler ReadOnlyAuthorizationHandler ''viewer''\<rparr>\<rparr>"
  let ?f = "frame_of (FrameHeader_new_tcp_header (UnitId 1) (TxId 9)) [6, 0, 1, 0, 2]"
  have hd: "fr_header ?f = FrameHeader_new_tcp_header (UnitId 1) (TxId 9)"
    "Frame_payload ?f = FunctionCode_get_value WriteSingleRegister # [0, 1, 0, 2]"
    by (simp_all add: MAX_ADU_LENGTH_def)
  have "decode_request WriteSingleRegister [0, 1, 0, 2] = Ok (Req_WriteSingleRegister (Indexed_new (u16_be 0 1) (u16_be 0 2)))"
    by simp
  from denied_request_harmless [OF lp.platform_axioms _ _ hd(2) this, where s = ?s and H = RequestHandler_default] show ?thesis
    unfolding hd(1)
    by (simp add: demo_session_ok header_ok_def heard_fields ReadOnlyAuthorizationHandler_def unless_broadcast_def
        exception_pdu_def FunctionCode_as_error_def)
qed

lemma demo_write: "fst (io_write (list_platform c) bs io) = Ok ()"
  by (cases io) (simp add: list_platform_def)

text \<open>
  C13: A TCP session serves what it receives. If the peer sends any requests one after the other, each cut into segments in any
  way but no segment with parts of two requests, if the stream can be written, and settings arrive at any time, then with more turns than requests and settings the session has read
  all its input and waits for more. What it has written are the replies of the abstract server to the requests, each once
  and in order, and its handlers are in the state that the abstract server gives them. It is ready to go on.
\<close>

theorem server_session_serves:
  assumes "platform P rview wbuf wpos incoming sent"
    and "server_up tcp_idle Format_Tcp s" and "handler_total H" and "\<And>bs io. fst (io_write P bs io) = Ok ()"
    and "\<forall>(tx, u, pdu) \<in> set qs. servable P pdu" and "arrive_in_turn qs (incoming (ss_io s))"
    and "\<forall>(c, recv) \<in> set cs. recv \<noteq> Ready None" and "length qs + interruptions cs < length cs"
  shows "\<exists>s'. SessionTask_run P H cs s = Some (Pending, s') \<and> incoming (ss_io s') = [] \<and> server_up tcp_idle Format_Tcp s' \<and>
    sent (ss_io s') = sent (ss_io s) @ fst (served H (st_handlers (ss_task s)) (st_auth (ss_task s)) qs (ss_store s)) \<and>
    ss_store s' = snd (served H (st_handlers (ss_task s)) (st_auth (ss_task s)) qs (ss_store s))"
  using platform.session_serves [OF assms] by (auto simp: serves_on_def)

text \<open>Two requests to write the register of a unit; the second arrives in two pieces, and a setting in between.\<close>

definition demo_served :: "(u16, queue_stream) session" where
  "demo_served = \<lparr>ss_task = SessionTask_new (ServerHandlerMap_single (UnitId 1) 0) Auth_None FrameWriter_tcp FramedReader_tcp
     DecodeLevel_default, ss_store = (\<lambda>_. RequestHandler_wrap 0),
     ss_io = ([Data [0, 1, 0, 0, 0, 6, 1, 6, 0, 7, 0, 8], Data [0, 2, 0, 0], Data [0, 6, 1, 6, 0, 7, 0, 9]], [])\<rparr>"

theorem server_session_serves_witness:
  "\<exists>s'. SessionTask_run (list_platform True) demo_register
      [(True, Pending), (False, Ready (Some (ChangeDecoding DecodeLevel_default))), (False, Pending), (True, Pending)] demo_served = Some (Pending, s') \<and>
    fst (ss_io s') = [] \<and>
    snd (ss_io s') = [0, 1, 0, 0, 0, 6, 1, 6, 0, 7, 0, 8, 0, 2, 0, 0, 0, 6, 1, 6, 0, 7, 0, 9] \<and> ss_store s' 0 = RequestHandler_wrap 9"
proof -
  let ?qs = "[(TxId 1, UnitId 1, [6, 0, 7, 0, 8]), (TxId 2, UnitId 1, [6, 0, 7, 0, 9])]"
  let ?cs = "[(True, Pending), (False, Ready (Some (ChangeDecoding DecodeLevel_default))), (False, Pending), (True, Pending)]"
  have wire: "mbap_frame_bytes (TxId t) (UnitId 1) [6, 0, 7, 0, v] = [be_hi t, be_lo t, 0, 0, 0, 6, 1, 6, 0, 7, 0, v]" for t v
    by (simp add: mbap_frame_bytes_def mbap_header_bytes_def be_bytes_def be_hi_def be_lo_def)
  have up: "server_up tcp_idle Format_Tcp demo_served" "handler_total demo_register"
    by (simp_all add: demo_served_def server_up_def reader_ready_def SessionTask_new_def FramedReader_tcp_def FramedReader_new_def
        MbapParser_new_def healthy_def RequestHandler_wrap_def handler_total_def demo_register_def RequestHandler_default_def fail_def)
  have fc: "f = WriteSingleRegister" if "FunctionCode_get_value f = 6" for f using that by (cases f) simp_all
  have ok: "\<forall>(tx, u, pdu) \<in> set ?qs. servable (list_platform True) pdu"
    by (auto simp: servable_def iterable_def MAX_ADU_LENGTH_def dest!: fc)
  have arr: "arrive_in_turn ?qs (fst (ss_io demo_served))"
    using arrive_in_turn.request [of "[[0, 2, 0, 0], [0, 6, 1, 6, 0, 7, 0, 9]]" "TxId 2" "UnitId 1" "[6, 0, 7, 0, 9]", OF _ _ arrive_in_turn.nothing]
      arrive_in_turn.request [of "[[0, 1, 0, 0, 0, 6, 1, 6, 0, 7, 0, 8]]" "TxId 1" "UnitId 1" "[6, 0, 7, 0, 8]"]
    by (simp add: wire demo_served_def be_hi_def be_lo_def)
  have cs: "\<forall>(c, recv) \<in> set ?cs. recv \<noteq> Ready None" "length ?qs + interruptions ?cs < length ?cs"
    by (simp_all add: interruptions_def)
  have sv: "served demo_register (st_handlers (ss_task demo_served)) (st_auth (ss_task demo_served)) ?qs (ss_store demo_served) =
      ([0, 1, 0, 0, 0, 6, 1, 6, 0, 7, 0, 8, 0, 2, 0, 0, 0, 6, 1, 6, 0, 7, 0, 9], (\<lambda>_. RequestHandler_wrap 0)(0 := RequestHandler_wrap 9))"
    by (simp add: demo_served_def SessionTask_new_def function_table_def serve_request_def serve_unit_def answer_write_def
        ServerHandlerMap_single_def demo_register_def indexed_u16_bytes_def wire Indexed_new_def u16_be_def be_bytes_def be_hi_def be_lo_def)
  show ?thesis
    using server_session_serves [OF lp.platform_axioms up demo_write ok arr cs] unfolding sv
    by (auto simp: demo_served_def)
qed

section \<open>A client and a server\<close>

text \<open>
  C1: A request makes the whole round trip on TCP. A client that is ready sends the request and
  waits; the server, which receives these bytes cut in any way, runs the handler once, keeps its new
  state and replies; and when the reply arrives at the client, cut in any way, the callback of the request
  runs once, with the outcome of the request on the application's data, and the client is ready again.
\<close>

theorem tcp_exchange:
  fixes w :: "'io client" and s :: "('h, 'io) session" and req :: ClientRequest
  defines "hdr \<equiv> FrameHeader_new_tcp_header (cr_id req) (cl_tx_id (cw_loop w))"
  assumes "platform P rview wbuf wpos incoming sent"
    and "client_up tcp_idle Format_Tcp w" and "incoming (cw_io w) = []"
    and "server_up tcp_idle Format_Tcp s" and "handler_total H" and "serves_device s (cr_id req) ref (cr_details req)"
    and "\<And>bs io. fst (io_write P bs io) = Ok ()"
    and "sendable P (cr_details req)" and "request_callback req = Some cb"
    and "arrives incoming (frame_bytes P Format_Tcp hdr (details_pdu (cr_details req))) (ss_io s) rest"
  shows "\<exists>pdu h' w1 s1.
    answer H (server_request (cr_details req)) (mx_value (ss_store s ref)) = (Ok pdu, h') \<and>
    ClientLoop_run_one_request P False (b # ts) req w = Some (Pending, w1) \<and>
    sent (cw_io w1) = sent (cw_io w) @ frame_bytes P Format_Tcp hdr (details_pdu (cr_details req)) \<and>
    SessionTask_poll_frame P H s = Some (Ready (Ok ()), s1) \<and>
    ss_store s1 = (ss_store s)(ref := RequestHandler_wrap h') \<and>
    sent (ss_io s1) = sent (ss_io s) @ frame_bytes P Format_Tcp hdr pdu \<and>
    (\<forall>io rest'. arrives incoming (frame_bytes P Format_Tcp hdr pdu) io rest' \<longrightarrow>
      (\<exists>r w2. ClientLoop_poll_request P False (b # ts) req (cl_tx_id (cw_loop w)) (w1\<lparr>cw_io := io\<rparr>) = Some (Ready r, w2) \<and>
        cw_log w2 = cw_log w @ [(cb, expected_outcome H (cr_details req) (mx_value (ss_store s ref)))] \<and>
        cw_current w2 = None \<and> reader_ready tcp_idle (cl_reader (cw_loop w2))))"
  using platform.exchange_tcp [OF assms(2-6) TrueI assms(7-10) assms(11) [unfolded hdr_def], of b ts]
  unfolding hdr_def .

text \<open>A client and a server to apply the two theorems to: register 7 of unit 1 is written.\<close>

definition demo_handler :: "unit RequestHandler" where
  "demo_handler = RequestHandler_default\<lparr>rh_write_single_register := \<lambda>v. ret ()\<rparr>"

definition demo_request :: ClientRequest where
  "demo_request = Request_new (UnitId 1) 1000000000
     (Det_WriteSingleRegister \<lparr>sw_request = Indexed_new 7 0xCAFE, sw_promise = Promise_new 5\<rparr>)"

definition demo_client :: "FrameWriter \<Rightarrow> FramedReader \<Rightarrow> segment list \<Rightarrow> queue_stream client" where
  "demo_client writer reader inc = \<lparr>cw_loop = ClientLoop_new writer reader DecodeLevel_default, cw_io = (inc, []),
     cw_log = [], cw_current = None\<rparr>"

definition demo_server :: "FrameWriter \<Rightarrow> FramedReader \<Rightarrow> segment list \<Rightarrow> (unit, queue_stream) session" where
  "demo_server writer reader inc = \<lparr>ss_task = SessionTask_new (ServerHandlerMap_single (UnitId 1) 0) Auth_None writer reader
     DecodeLevel_default, ss_store = (\<lambda>_. RequestHandler_wrap ()), ss_io = (inc, [])\<rparr>"

lemma demo_total: "handler_total demo_handler"
  by (simp add: handler_total_def demo_handler_def RequestHandler_default_def fail_def ret_def)

lemma demo_fields:
  "cr_id demo_request = UnitId 1" "request_callback demo_request = Some 5"
  "cw_io (demo_client writer reader inc) = (inc, [])" "cw_log (demo_client writer reader inc) = []"
  "cw_current (demo_client writer reader inc) = None" "cl_reader (cw_loop (demo_client writer reader inc)) = reader"
  "cl_writer (cw_loop (demo_client writer reader inc)) = writer"
  "cl_tx_id (cw_loop (demo_client writer reader inc)) = TxId 0" "ss_io (demo_server writer reader inc) = (inc, [])"
  "st_reader (ss_task (demo_server writer reader inc)) = reader" "st_writer (ss_task (demo_server writer reader inc)) = writer"
  "ss_store (demo_server writer reader inc) r = RequestHandler_wrap ()" "healthy (ss_store (demo_server writer reader inc))"
  by (simp_all add: demo_request_def demo_client_def demo_server_def Request_new_def Promise_new_def ClientLoop_new_def
      TxId_default_def TxId_new_def SessionTask_new_def healthy_def RequestHandler_wrap_def)

lemma demo_sendable:
  "sendable P (cr_details demo_request)" "serves_device (demo_server writer reader inc) (UnitId 1) 0 (cr_details demo_request)"
  "expected_outcome demo_handler (cr_details demo_request) h = Ok (Reply_Register (Indexed_new 7 0xCAFE))"
  by (simp_all add: sendable_def demo_request_def Request_new_def iterable_def serves_device_def demo_server_def
      SessionTask_new_def ServerHandlerMap_single_def ServerHandlerMap_get_def bt_get_def indexed_u16_bytes_def
      expected_write_def demo_handler_def ret_def)

theorem tcp_exchange_witness:
  "\<exists>pdu w1 s1 r w2.
    ClientLoop_run_one_request (list_platform True) False [True] demo_request (demo_client FrameWriter_tcp FramedReader_tcp []) = Some (Pending, w1) \<and>
    SessionTask_poll_frame (list_platform True) demo_handler (demo_server FrameWriter_tcp FramedReader_tcp
      [Data (frame_bytes (list_platform True) Format_Tcp (FrameHeader_new_tcp_header (UnitId 1) (TxId 0)) (details_pdu (cr_details demo_request)))]) =
      Some (Ready (Ok ()), s1) \<and>
    ClientLoop_poll_request (list_platform True) False [True] demo_request (TxId 0) (w1\<lparr>cw_io :=
      ([Data (frame_bytes (list_platform True) Format_Tcp (FrameHeader_new_tcp_header (UnitId 1) (TxId 0)) pdu)], [])\<rparr>) = Some (Ready r, w2) \<and>
    cw_log w2 = [(5, Ok (Reply_Register (Indexed_new 7 0xCAFE)))]"
proof -
  let ?hdr = "FrameHeader_new_tcp_header (UnitId 1) (TxId 0)" and ?P = "list_platform True"
  let ?bs = "frame_bytes ?P Format_Tcp ?hdr (details_pdu (cr_details demo_request))"
  let ?w = "demo_client FrameWriter_tcp FramedReader_tcp []" and ?s = "demo_server FrameWriter_tcp FramedReader_tcp [Data ?bs]"
  have one: "arrives fst bs ([Data bs], []) []" if "bs \<noteq> []" for bs
    using that by (auto simp: arrives_def intro!: exI [of _ "[bs]"])
  have ne: "frame_bytes ?P Format_Tcp h pdu \<noteq> []" for h pdu by (simp add: mbap_frame_bytes_def mbap_header_bytes_def rtu_frame_bytes_def)
  have up: "client_up tcp_idle Format_Tcp ?w" "server_up tcp_idle Format_Tcp ?s"
    by (simp_all add: client_up_def server_up_def reader_ready_def demo_fields FramedReader_tcp_def MbapParser_new_def FramedReader_new_def)
  have st: "cr_id demo_request \<noteq> UnitId_broadcast" "serves_device ?s (cr_id demo_request) 0 (cr_details demo_request)"
    "fst (cw_io ?w) = []" "cl_tx_id (cw_loop ?w) = TxId 0"
    by (simp_all add: demo_fields demo_sendable UnitId_broadcast_def)
  have arr: "arrives fst (frame_bytes ?P Format_Tcp (FrameHeader_new_tcp_header (cr_id demo_request) (cl_tx_id (cw_loop ?w)))
      (details_pdu (cr_details demo_request))) (ss_io ?s) []"
    unfolding demo_fields by (rule one [OF ne])
  obtain pdu w1 s1 where *: "ClientLoop_run_one_request ?P False [True] demo_request ?w = Some (Pending, w1)"
    "SessionTask_poll_frame ?P demo_handler ?s = Some (Ready (Ok ()), s1)"
    "\<forall>io rest'. arrives fst (frame_bytes ?P Format_Tcp ?hdr pdu) io rest' \<longrightarrow>
      (\<exists>r w2. ClientLoop_poll_request ?P False [True] demo_request (TxId 0) (w1\<lparr>cw_io := io\<rparr>) = Some (Ready r, w2) \<and>
        cw_log w2 = [(5, Ok (Reply_Register (Indexed_new 7 0xCAFE)))])"
    using tcp_exchange [OF lp.platform_axioms up(1) st(3) up(2) demo_total st(2) demo_write demo_sendable(1) demo_fields(2) arr, of True "[]"]
    unfolding demo_fields demo_sendable append_Nil by blast
  show ?thesis using * one [OF ne, of ?hdr pdu] by blast
qed

text \<open>
  C5: The same on a serial line, for every unit id that is not the broadcast address.
\<close>

theorem rtu_exchange:
  fixes w :: "'io client" and s :: "('h, 'io) session" and req :: ClientRequest
  defines "hdr \<equiv> FrameHeader_new_tcp_header (cr_id req) (cl_tx_id (cw_loop w))"
  assumes "platform P rview wbuf wpos incoming sent"
    and "client_up (serial_idle Response) Format_Rtu w" and "incoming (cw_io w) = []"
    and "server_up (serial_idle Request) Format_Rtu s" and "handler_total H"
    and "cr_id req \<noteq> UnitId_broadcast" and "serves_device s (cr_id req) ref (cr_details req)"
    and "\<And>bs io. fst (io_write P bs io) = Ok ()"
    and "sendable P (cr_details req)" and "request_callback req = Some cb"
    and "arrives incoming (frame_bytes P Format_Rtu hdr (details_pdu (cr_details req))) (ss_io s) rest"
  shows "\<exists>pdu h' w1 s1.
    answer H (server_request (cr_details req)) (mx_value (ss_store s ref)) = (Ok pdu, h') \<and>
    ClientLoop_run_one_request P False (b # ts) req w = Some (Pending, w1) \<and>
    sent (cw_io w1) = sent (cw_io w) @ frame_bytes P Format_Rtu hdr (details_pdu (cr_details req)) \<and>
    SessionTask_poll_frame P H s = Some (Ready (Ok ()), s1) \<and>
    ss_store s1 = (ss_store s)(ref := RequestHandler_wrap h') \<and>
    sent (ss_io s1) = sent (ss_io s) @ frame_bytes P Format_Rtu hdr pdu \<and>
    (\<forall>io rest'. arrives incoming (frame_bytes P Format_Rtu hdr pdu) io rest' \<longrightarrow>
      (\<exists>r w2. ClientLoop_poll_request P False (b # ts) req (cl_tx_id (cw_loop w)) (w1\<lparr>cw_io := io\<rparr>) = Some (Ready r, w2) \<and>
        cw_log w2 = cw_log w @ [(cb, expected_outcome H (cr_details req) (mx_value (ss_store s ref)))] \<and>
        cw_current w2 = None \<and> reader_ready (serial_idle Response) (cl_reader (cw_loop w2))))"
  using platform.exchange_rtu [OF assms(2-6) _ assms(8-11) assms(12) [unfolded hdr_def], of b ts] assms(7)
  unfolding hdr_def rtu_device_def by blast

theorem rtu_exchange_witness:
  "\<exists>pdu w1 s1 r w2.
    ClientLoop_run_one_request (list_platform True) False [True] demo_request (demo_client FrameWriter_rtu FramedReader_rtu_response []) = Some (Pending, w1) \<and>
    SessionTask_poll_frame (list_platform True) demo_handler (demo_server FrameWriter_rtu FramedReader_rtu_request
      [Data (frame_bytes (list_platform True) Format_Rtu (FrameHeader_new_tcp_header (UnitId 1) (TxId 0)) (details_pdu (cr_details demo_request)))]) =
      Some (Ready (Ok ()), s1) \<and>
    ClientLoop_poll_request (list_platform True) False [True] demo_request (TxId 0) (w1\<lparr>cw_io :=
      ([Data (frame_bytes (list_platform True) Format_Rtu (FrameHeader_new_tcp_header (UnitId 1) (TxId 0)) pdu)], [])\<rparr>) = Some (Ready r, w2) \<and>
    cw_log w2 = [(5, Ok (Reply_Register (Indexed_new 7 0xCAFE)))]"
proof -
  let ?hdr = "FrameHeader_new_tcp_header (UnitId 1) (TxId 0)" and ?P = "list_platform True"
  let ?bs = "frame_bytes ?P Format_Rtu ?hdr (details_pdu (cr_details demo_request))"
  let ?w = "demo_client FrameWriter_rtu FramedReader_rtu_response []" and ?s = "demo_server FrameWriter_rtu FramedReader_rtu_request [Data ?bs]"
  have one: "arrives fst bs ([Data bs], []) []" if "bs \<noteq> []" for bs
    using that by (auto simp: arrives_def intro!: exI [of _ "[bs]"])
  have ne: "frame_bytes ?P Format_Rtu h pdu \<noteq> []" for h pdu by (simp add: mbap_frame_bytes_def mbap_header_bytes_def rtu_frame_bytes_def)
  have up: "client_up (serial_idle Response) Format_Rtu ?w" "server_up (serial_idle Request) Format_Rtu ?s"
    by (simp_all add: client_up_def server_up_def reader_ready_def demo_fields FramedReader_rtu_response_def FramedReader_rtu_request_def RtuParser_new_request_parser_def RtuParser_new_response_parser_def FramedReader_new_def)
  have st: "cr_id demo_request \<noteq> UnitId_broadcast" "serves_device ?s (cr_id demo_request) 0 (cr_details demo_request)"
    "fst (cw_io ?w) = []" "cl_tx_id (cw_loop ?w) = TxId 0"
    by (simp_all add: demo_fields demo_sendable UnitId_broadcast_def)
  have arr: "arrives fst (frame_bytes ?P Format_Rtu (FrameHeader_new_tcp_header (cr_id demo_request) (cl_tx_id (cw_loop ?w)))
      (details_pdu (cr_details demo_request))) (ss_io ?s) []"
    unfolding demo_fields by (rule one [OF ne])
  obtain pdu w1 s1 where *: "ClientLoop_run_one_request ?P False [True] demo_request ?w = Some (Pending, w1)"
    "SessionTask_poll_frame ?P demo_handler ?s = Some (Ready (Ok ()), s1)"
    "\<forall>io rest'. arrives fst (frame_bytes ?P Format_Rtu ?hdr pdu) io rest' \<longrightarrow>
      (\<exists>r w2. ClientLoop_poll_request ?P False [True] demo_request (TxId 0) (w1\<lparr>cw_io := io\<rparr>) = Some (Ready r, w2) \<and>
        cw_log w2 = [(5, Ok (Reply_Register (Indexed_new 7 0xCAFE)))])"
    using rtu_exchange [OF lp.platform_axioms up(1) st(3) up(2) demo_total st(1,2) demo_write demo_sendable(1) demo_fields(2) arr, of True "[]"]
    unfolding demo_fields demo_sendable append_Nil by blast
  show ?thesis using * one [OF ne, of ?hdr pdu] by blast
qed

section \<open>The client\<close>

text \<open>
  C7: A request whose deadline has passed is always settled. Whatever the peer has sent, in
  whichever order \<open>select!\<close> polls its branches, one poll ends the request and runs its callback exactly once,
  provided the list of polling choices is longer than the frames the input can hold.
\<close>

theorem timed_out_request_settled:
  assumes "platform P rview wbuf wpos incoming sent" and "request_callback req = Some cb"
    and "rb_wf (fdr_buffer (cl_reader (cw_loop w)))" and "proper (incoming (cw_io w))"
    and "pending_input incoming (cl_reader (cw_loop w)) (cw_io w) < length ts"
  shows "\<exists>r w' outcome. ClientLoop_poll_request P True ts req tx w = Some (Ready r, w') \<and>
    cw_current w' = None \<and> cw_log w' = cw_log w @ [(cb, outcome)]"
proof -
  have bs: "byte_stream P incoming sent" and rc: "read_cursor P rview"
    using platform.axioms [OF assms(1)] by simp_all
  obtain x w' where x: "ClientLoop_poll_request P True ts req tx w = Some (x, w')" "x \<noteq> Pending"
    using byte_stream.poll_request_returns [OF bs byte_stream.bounded_input [OF bs assms(3,4)] assms(5), of True req tx] by blast
  then obtain r where "x = Ready r" by (cases x) simp_all
  then show ?thesis using read_cursor.poll_request_once [OF rc assms(2) x(1)] x by auto
qed

theorem timed_out_request_settled_witness:
  "\<exists>r w' outcome. ClientLoop_poll_request (list_platform True) True (replicate 20 False) demo_request (TxId 0)
      (demo_client FrameWriter_tcp FramedReader_tcp [Data [0, 9, 0, 0, 0, 2, 1, 6]]) = Some (Ready r, w') \<and>
    cw_current w' = None \<and> cw_log w' = [(5, outcome)]"
  using timed_out_request_settled [OF lp.platform_axioms demo_fields(2),
      of "demo_client FrameWriter_tcp FramedReader_tcp [Data [0, 9, 0, 0, 0, 2, 1, 6]]" "replicate 20 False" True "TxId 0"]
  by (simp add: demo_fields pending_input_def FramedReader_tcp_def FramedReader_new_def)

text \<open>
  C4: A client session loses no request and answers none twice. Over any sequence of turns, the session
  comes to a result or waits, and the callbacks that have run, followed by the request
  still in flight, are in order those of the request in flight before and of the requests taken from the channel.
\<close>

theorem client_session_conserves:
  assumes "platform P rview wbuf wpos incoming sent"
    and "rb_wf (fdr_buffer (cl_reader (cw_loop w)))" and "proper (incoming (cw_io w))"
    and "\<forall>(ff, recv, fired, ts) \<in> set es. open_requests (received recv) \<and>
      pending_input incoming (cl_reader (cw_loop w)) (cw_io w) < length ts"
    and "open_requests (in_flight w)"
  shows "\<exists>x w' new. ClientLoop_run P es w = Some (x, w') \<and> open_requests (in_flight w') \<and> cw_log w' = cw_log w @ new \<and>
    map fst new @ callbacks (in_flight w') = callbacks (in_flight w @ all_taken P es w)"
proof -
  have bs: "byte_stream P incoming sent" and rc: "read_cursor P rview"
    using platform.axioms [OF assms(1)] by simp_all
  obtain x w' where x: "ClientLoop_run P es w = Some (x, w')"
    using byte_stream.run_returns [OF bs byte_stream.bounded_input [OF bs assms(2,3)], of es] assms(4) by fastforce
  have "open_requests (all_taken P es w)" by (rule all_taken_open) (use assms(4) in fastforce)
  from read_cursor.run_conserves [OF rc assms(5) this x] x show ?thesis by (auto simp: conserves_def)
qed

definition demo_turns :: "turn list" where
  "demo_turns = [(False, Ready (Some (Cmd_Request demo_request)), False, replicate 9 True), (False, Pending, True, replicate 9 True)]"

theorem client_session_conserves_witness:
  "\<exists>x w' new. ClientLoop_run (list_platform True) demo_turns (demo_client FrameWriter_tcp FramedReader_tcp []) = Some (x, w') \<and>
    open_requests (in_flight w') \<and> cw_log w' = [] @ new \<and> map fst new @ callbacks (in_flight w') =
      callbacks (in_flight (demo_client FrameWriter_tcp FramedReader_tcp []) @
        all_taken (list_platform True) demo_turns (demo_client FrameWriter_tcp FramedReader_tcp []))"
proof -
  let ?w = "demo_client FrameWriter_tcp FramedReader_tcp []"
  have r: "rb_wf (fdr_buffer (cl_reader (cw_loop ?w)))" "proper (fst (cw_io ?w))" "open_requests (in_flight ?w)"
    "pending_input fst (cl_reader (cw_loop ?w)) (cw_io ?w) = 1"
    by (simp_all add: demo_fields FramedReader_tcp_def FramedReader_new_def pending_input_def open_requests_def in_flight_def)
  have "\<forall>(ff, recv, fired, ts) \<in> set demo_turns. open_requests (received recv) \<and>
      pending_input fst (cl_reader (cw_loop ?w)) (cw_io ?w) < length ts"
    unfolding r(4) by (simp add: demo_turns_def open_requests_def demo_fields)
  from client_session_conserves [OF lp.platform_axioms r(1,2) this r(3)] show ?thesis unfolding demo_fields .
qed

text \<open>
  C26: A TCP channel loses no request and answers none twice, for as long as it runs. Over any rounds of
  being disabled, connecting, sessions and waits, the callbacks that have run, followed by the
  request in flight, are in order those of the requests that the task has taken from its queue. The run
  always comes to a result or waits.
\<close>

theorem tcp_channel_conserves:
  assumes "platform P rview wbuf wpos incoming sent"
    and "rb_wf (fdr_buffer (cl_reader (tc_loop t)))" and "tc_current t = None"
    and "\<forall>(rs, a) \<in> set rounds. open_requests (requests_of rs) \<and> attempt_open a \<and> attempt_bounded incoming a"
  shows "\<exists>x t' new. TcpChannelTask_run P R rounds t = Some (x, t') \<and> open_requests (tcp_flight t') \<and>
    tc_log t' = tc_log t @ new \<and> map fst new @ callbacks (tcp_flight t') = callbacks (tcp_taken P R rounds t)"
proof -
  have bs: "byte_stream P incoming sent" using platform.axioms [OF assms(1)] by simp
  have bounded: "\<forall>(rs, a) \<in> set rounds. attempt_bounded incoming a" using assms(4) by auto
  obtain x t' where run: "TcpChannelTask_run P R rounds t = Some (x, t')"
    using byte_stream.tcp_run_returns [OF bs assms(2) bounded] by blast
  have "accounts (tcp_taken P R rounds t) t t'"
    by (rule platform.run_accounts [OF assms(1) _ assms(3) run]) (use assms(4) in auto)
  with run show ?thesis by (auto simp: accounts_def)
qed

definition demo_rounds :: "(Command option list \<times> queue_stream attempt) list" where
  "demo_rounds = [([Some (Cmd_Request demo_request), Some (Cmd_Setting Enable)],
     \<lparr>at_connecting = [Some (Cmd_Request demo_request)], at_connect = Err UnexpectedEof, at_handshake = Panic, at_turns = [],
      at_waiting = [None]\<rparr>)]"

theorem tcp_channel_conserves_witness:
  "\<exists>x t' new. TcpChannelTask_run (list_platform True) doubling_retry_strategy demo_rounds
      (TcpChannelTask_new (Doubling_create 5 9) DecodeLevel_default) = Some (x, t') \<and> open_requests (tcp_flight t') \<and>
    tc_log t' = new \<and> map fst new @ callbacks (tcp_flight t') =
      callbacks (tcp_taken (list_platform True) doubling_retry_strategy demo_rounds
        (TcpChannelTask_new (Doubling_create 5 9) DecodeLevel_default)) \<and>
    callbacks (tcp_taken (list_platform True) doubling_retry_strategy demo_rounds
        (TcpChannelTask_new (Doubling_create 5 9) DecodeLevel_default)) = [5, 5]"
proof -
  let ?t = "TcpChannelTask_new (Doubling_create 5 9) DecodeLevel_default"
  have fail: "ClientLoop_fail_next_request (Some (Cmd_Request demo_request)) (c, log) = (Ok (), (c, log @ [(5, Err NoConnection)]))" for c log
    by (rule fail_next_request_once) (simp add: demo_fields)
  have enable: "ClientLoop_fail_next_request (Some (Cmd_Setting Enable)) (c, log) = (Ok (), (c\<lparr>cl_enabled := True\<rparr>, log))"
    if "\<not> cl_enabled c" for c log
    using that by (simp add: ClientLoop_fail_next_request_def)
  have gone: "ClientLoop_fail_next_request None (c, log) = (Err Change_Shutdown, (c, log))" for c log
    by (simp add: ClientLoop_fail_next_request_def StateChange_from_Shutdown_def)
  have step: "Doubling_after_failed_connect (Doubling_create 5 9) = (Ok 5, \<lparr>db_min = 5, db_max = 9, db_current = 9\<rparr>)"
    by (simp add: Doubling_after_failed_connect_def Doubling_create_def Duration_mul_def DURATION_MAX_def)
  have "rb_wf (fdr_buffer (cl_reader (tc_loop ?t)))" "tc_current ?t = None" "tc_log ?t = []"
    by (simp_all add: TcpChannelTask_new_def ClientLoop_new_def FramedReader_tcp_def FramedReader_new_def)
  moreover have "\<forall>(rs, a) \<in> set demo_rounds. open_requests (requests_of rs) \<and> attempt_open a \<and> attempt_bounded fst a"
    by (simp add: demo_rounds_def attempt_open_def attempt_bounded_def open_requests_def demo_fields)
  moreover have "callbacks (tcp_taken (list_platform True) doubling_retry_strategy demo_rounds ?t) = [5, 5]"
    by (simp add: tcp_taken_def demo_rounds_def TcpChannelTask_update_def TcpChannelTask_new_def fail enable gone
        taken_attempt_def taken_waiting_def asked_def callbacks_def demo_fields doubling_retry_strategy_def step
        ClientLoop_fail_requests_for_def TcpChannelTask_try_connect_and_run_def TcpChannelTask_connect_def
        TcpChannelTask_wait_def ClientLoop_new_def StateChange_from_Shutdown_def ClientLoop_is_enabled_def Let_def)
  ultimately show ?thesis
    using tcp_channel_conserves [OF lp.platform_axioms [of True], of ?t demo_rounds doubling_retry_strategy] by simp
qed

text \<open>
  C20: A late response is skipped. While a request waits on TCP, a frame that carries another
  transaction id is dropped, and the frame with the id of the request is returned.
\<close>

theorem stale_response_skipped:
  assumes "platform P rview wbuf wpos incoming sent"
    and "reader_ready tcp_idle (cl_reader (cw_loop w))" and "other \<noteq> tx"
    and "concat stale = mbap_frame_bytes other u' pdu'" and "length pdu' \<le> MAX_ADU_LENGTH"
    and "concat segs = mbap_frame_bytes tx u pdu" and "length pdu \<le> MAX_ADU_LENGTH"
    and "\<forall>s \<in> set (stale @ segs). s \<noteq> []" and "incoming (cw_io w) = map Data (stale @ segs) @ rest"
  shows "\<exists>f w'. ClientLoop_await_response P tx False (b # c # ts) w = Some (Ready (Ok f), w') \<and>
    fr_header f = FrameHeader_new_tcp_header u tx \<and> Frame_payload f = pdu \<and>
    reader_ready tcp_idle (cl_reader (cw_loop w')) \<and> incoming (cw_io w') = rest \<and> cw_log w' = cw_log w"
proof -
  let ?r = "cl_reader (cw_loop w)"
  have step: "\<exists>r' io'. FramedReader_next_frame P r io = Some (Ready (Ok (frame_of (FrameHeader_new_tcp_header v t) q)), r', io') \<and>
      reader_ready tcp_idle r' \<and> incoming io' = after"
    if "reader_ready tcp_idle r" "concat ss = mbap_frame_bytes t v q" "length q \<le> MAX_ADU_LENGTH" "\<forall>s \<in> set ss. s \<noteq> []"
      "incoming io = map Data ss @ after" for r io ss t v q after
  proof -
    have r: "tcp_idle (fdr_parser r)" "rb_wf (fdr_buffer r)" "rb_view (fdr_buffer r) = []"
      using that(1) by (simp_all add: reader_ready_def)
    have "tcp_expects (fdr_parser r) (rb_view (fdr_buffer r) @ concat ss) (frame_of (FrameHeader_new_tcp_header v t) q)"
      using r that(2,3) by (cases "fdr_parser r") auto
    moreover have "(if rb_view (fdr_buffer r) = [] then 0 else rb_end (fdr_buffer r)) + length (concat ss) \<le> MAX_FRAME_LENGTH"
      using r that(2,3) by (simp add: MAX_ADU_LENGTH_def)
    ultimately show ?thesis
      using platform.next_tcp_frame [OF assms(1) r(2) _ _ that(4,5)] by (fastforce simp: reader_ready_def)
  qed
  obtain r1 io1 where 1: "FramedReader_next_frame P ?r (cw_io w) =
      Some (Ready (Ok (frame_of (FrameHeader_new_tcp_header u' other) pdu')), r1, io1)" "reader_ready tcp_idle r1"
    "incoming io1 = map Data segs @ rest"
    using step [OF assms(2,4,5), of "cw_io w" "map Data segs @ rest"] assms(8,9) by auto
  obtain r2 io2 where 2: "FramedReader_next_frame P r1 io1 =
      Some (Ready (Ok (frame_of (FrameHeader_new_tcp_header u tx) pdu)), r2, io2)" "reader_ready tcp_idle r2" "incoming io2 = rest"
    using step [OF 1(2) assms(6,7) _ 1(3)] assms(8) by auto
  show ?thesis
    using 1(1) 2 assms(3,7) by (simp add: heard_fields)
qed

theorem stale_response_skipped_witness:
  "\<exists>f w'. ClientLoop_await_response (list_platform True) (TxId 8) False [True, True]
      (demo_client FrameWriter_tcp FramedReader_tcp [Data (mbap_frame_bytes (TxId 7) (UnitId 1) [6, 0]), Data (mbap_frame_bytes (TxId 8) (UnitId 1) [0x86, 4])]) =
      Some (Ready (Ok f), w') \<and> Frame_payload f = [0x86, 4]"
proof -
  let ?a = "mbap_frame_bytes (TxId 7) (UnitId 1) [6, 0]" and ?b = "mbap_frame_bytes (TxId 8) (UnitId 1) [0x86, 4]"
  have ne: "mbap_frame_bytes t u q \<noteq> []" for t u q by (simp add: mbap_frame_bytes_def mbap_header_bytes_def)
  show ?thesis
    using stale_response_skipped [OF lp.platform_axioms, of "demo_client FrameWriter_tcp FramedReader_tcp [Data ?a, Data ?b]"
        "TxId 7" "TxId 8" "[?a]" "UnitId 1" "[6, 0]" "[?b]" "UnitId 1" "[0x86, 4]" "[]" True, where b = True and c = True and ts = "[]"] ne
    by (auto simp: demo_fields reader_ready_def FramedReader_tcp_def FramedReader_new_def MbapParser_new_def MAX_ADU_LENGTH_def)
qed

text \<open>
  C18: The outcome of a request is read off the response by the table of the protocol: the
  function code decides between the values and an exception, and every malformed response has its
  error. A response in error leaves the request to its caller, a good one completes it.
\<close>

theorem response_meets_table:
  assumes "read_cursor P rview"
  shows "Request_handle_response P payload (d, log) = (case response_outcome d payload of
     Ok v \<Rightarrow> (Ok (), details_succeed v d log) | Err e \<Rightarrow> (Err e, (d, log)) | Panic \<Rightarrow> (Panic, (d, log)))"
  by (rule read_cursor.handle_response_outcome [OF assms])

theorem response_meets_table_witness:
  "Request_handle_response (list_platform True) [0x86, 2] (cr_details demo_request, []) =
    (Err (Exception IllegalDataAddress), (cr_details demo_request, []))"
proof -
  have "response_outcome (cr_details demo_request) [0x86, 2] = Err (Exception IllegalDataAddress)"
    by (simp add: demo_request_def Request_new_def Let_def FunctionCode_as_error_def ExceptionCode_from_u8_def conv_defs)
  then show ?thesis using response_meets_table [OF list_read_cursor [of True], of "[0x86, 2]" "cr_details demo_request" "[]"] by simp
qed

text \<open>
  C21: A request that does not fit into a frame ends in an internal error, the kind that the documentation
  reserves for faults of the library and says never happens: the limits on the number of values are
  not checked when the request is made. The damage is contained: nothing is sent, the callback
  runs once, the stream is untouched and the session goes on.
\<close>

theorem oversized_request_refused:
  assumes "platform P rview wbuf wpos incoming sent" and "fw_wf (cl_writer (cw_loop w))"
    and "request_callback req = Some cb"
    and "MAX_FRAME_LENGTH < overhead (fw_format_type (cl_writer (cw_loop w))) + length (details_body (cr_details req))"
  shows "\<exists>e w'. ClientLoop_run_one_request P fired ts req w = Some (Ready (Ok ()), w') \<and>
    cw_log w' = cw_log w @ [(cb, Err (Internal e))] \<and> cw_io w' = cw_io w \<and> cw_current w' = None \<and>
    fw_wf (cl_writer (cw_loop w')) \<and> cl_reader (cw_loop w') = cl_reader (cw_loop w)"
proof -
  let ?tx = "cl_tx_id (cw_loop w)"
  let ?w1 = "w\<lparr>cw_loop := (cw_loop w)\<lparr>cl_tx_id := TxId (tx_value ?tx + 1)\<rparr>\<rparr>"
  let ?h = "FrameHeader_new_tcp_header (cr_id req) ?tx"
  have "header_ok (fw_format_type (cl_writer (cw_loop w))) ?h" by (simp add: header_ok_def heard_fields)
  then obtain e fw where fw: "FrameWriter_format_request P ?h (RequestDetails_function (cr_details req))
      (RequestDetails_serialize P (cr_details req)) (cl_writer (cw_loop w)) = (Err (Internal e), fw)" "fw_wf fw"
    using platform.send_oversized [OF assms(1,2) _ assms(4), of ?h "RequestDetails_function (cr_details req)"]
    by (auto simp: same_writer_def)
  let ?w2 = "?w1\<lparr>cw_loop := (cw_loop ?w1)\<lparr>cl_writer := fw\<rparr>\<rparr>"
  obtain d' where "RequestDetails_fail (Internal e) (cr_details req) (cw_log w) = (d', cw_log w @ [(cb, Err (Internal e))])"
    "pr_callback (details_promise d') = None" using request_ops(2) [OF assms(3)] by blast
  then have "ClientLoop_finish_request req (Err (Internal e)) ?w2 =
      (Ok (), ?w2\<lparr>cw_log := cw_log w @ [(cb, Err (Internal e))], cw_current := None\<rparr>)"
    by (simp add: ClientLoop_finish_request_def Request_drop_done)
  then show ?thesis
    using fw by (simp add: ClientLoop_run_one_request_def TxId_next_eq ClientLoop_send_request_def)
qed

theorem oversized_request_refused_witness:
  "\<exists>e w'. ClientLoop_run_one_request (list_platform True) False [] (Request_new (UnitId 1) 1
      (Det_WriteMultipleRegisters \<lparr>mw_request = \<lparr>wm_range = \<lparr>ar_start = 0, ar_count = 200\<rparr>, wm_values = replicate 200 0\<rparr>,
        mw_promise = Promise_new 5\<rparr>)) (demo_client FrameWriter_tcp FramedReader_tcp []) = Some (Ready (Ok ()), w') \<and>
    cw_log w' = [(5, Err (Internal e))]"
  using oversized_request_refused [OF lp.platform_axioms, of "demo_client FrameWriter_tcp FramedReader_tcp []" "Request_new (UnitId 1) 1
      (Det_WriteMultipleRegisters \<lparr>mw_request = \<lparr>wm_range = \<lparr>ar_start = 0, ar_count = 200\<rparr>, wm_values = replicate 200 0\<rparr>,
        mw_promise = Promise_new 5\<rparr>)" 5 True False "[]"]
  by (auto simp: demo_fields Request_new_def Promise_new_def)

text \<open>
  Requests that arrive while there is no connection fail at once, each exactly once and in
  order of arrival, and change nothing else.
\<close>

lemma offline_requests_fail_in_order:
  assumes "\<forall>(req, cb) \<in> set reqs. request_callback req = Some cb"
  shows "ClientLoop_fail_requests (map (\<lambda>(req, cb). Some (Cmd_Request req)) reqs) (c, log) =
    (Pending, (c, log @ map (\<lambda>(req, cb). (cb, Err NoConnection)) reqs), [])"
  by (rule fail_requests_fifo [OF assms])

lemma offline_requests_fail_in_order_witness:
  "ClientLoop_fail_requests [Some (Cmd_Request demo_request), Some (Cmd_Request demo_request)]
      (ClientLoop_new FrameWriter_tcp FramedReader_tcp DecodeLevel_default, []) =
    (Pending, (ClientLoop_new FrameWriter_tcp FramedReader_tcp DecodeLevel_default, [(5, Err NoConnection), (5, Err NoConnection)]), [])"
  using offline_requests_fail_in_order [of "[(demo_request, 5), (demo_request, 5)]"
      "ClientLoop_new FrameWriter_tcp FramedReader_tcp DecodeLevel_default" "[]"]
  by (simp add: demo_fields)

section \<open>Values and ranges\<close>

text \<open>
  An address range is accepted exactly when it is not empty and ends at or before the last
  address, 65535; the two ways to fail have their own errors. No sum wraps around.
\<close>

lemma address_range_bounds:
  "AddressRange_try_from start count =
     (if unat count = 0 then Err CountOfZero
      else if unat start + unat count \<le> 65536 then Ok \<lparr>ar_start = start, ar_count = count\<rparr>
      else Err (AddressOverflow start count))"
  by (simp add: AddressRange_try_from_eq unat_eq_0)

text \<open>
  C17: What a server writes for the values of a range is what the client reads. The reply writer emits the
  byte count and the packed values; iterating over these bytes gives, for every
  address of the range in order, the value that the handler returned for it. This holds for up to 2000 coils and up to
  125 registers, the limits of the two kinds of read; with overflow checks the range must end before the last address.
\<close>

theorem values_round_trip:
  assumes "write_cursor P wbuf wpos" and "valid_range r"
    and "\<not> overflow_checks P \<or> unat (ar_start r) + unat (ar_count r) < 65536"
    and "\<And>a. a \<in> set (range_addresses r) \<Longrightarrow> getb a = Ok (vb a)" and "\<And>a. a \<in> set (range_addresses r) \<Longrightarrow> getr a = Ok (vr a)"
  shows "(unat (ar_count r) \<le> 2000 \<longrightarrow> (\<exists>n bytes. emits wbuf wpos (BitWriter_serialize P \<lparr>bw_range = ReadBitsRange r, bw_getter = getb\<rparr>) (n # bytes) \<and>
      unat n = length bytes \<and> BitIterator_collect P \<lparr>bi_bytes = bytes, bi_range = r, bi_pos = 0\<rparr> =
        Ok (indexed_values r (\<lambda>i. vb (ar_start r + of_nat i))))) \<and>
    (unat (ar_count r) \<le> 125 \<longrightarrow> (\<exists>n bytes. emits wbuf wpos (RegisterWriter_serialize P \<lparr>rw_range = ReadRegistersRange r, rw_getter = getr\<rparr>) (n # bytes) \<and>
      unat n = length bytes \<and> RegisterIterator_collect P \<lparr>ri_bytes = bytes, ri_range = r, ri_pos = 0\<rparr> =
        Ok (indexed_values r (\<lambda>i. vr (ar_start r + of_nat i)))))"
proof -
  let ?as = "range_addresses r"
  have len: "length ?as = unat (ar_count r)" by (simp add: range_addresses_def)
  have same: "indexed_values r (bit_at (packed_bits (map vb ?as))) = indexed_values r (\<lambda>i. vb (ar_start r + of_nat i))"
    "indexed_values r (register_at (register_bytes (map vr ?as))) = indexed_values r (\<lambda>i. vr (ar_start r + of_nat i))"
    by (auto simp: indexed_values_def packed_bits_reads register_bytes_reads range_addresses_def)
  have bits: "BitIterator_collect P \<lparr>bi_bytes = packed_bits (map vb ?as), bi_range = r, bi_pos = 0\<rparr> =
      Ok (indexed_values r (\<lambda>i. vb (ar_start r + of_nat i)))"
    using BitIterator_collect_all [OF assms(2), of "packed_bits (map vb ?as)" P]
    by (simp add: length_packed_bits len num_bytes_for_bits_def same)
  have regs: "RegisterIterator_collect P \<lparr>ri_bytes = register_bytes (map vr ?as), ri_range = r, ri_pos = 0\<rparr> =
      Ok (indexed_values r (\<lambda>i. vr (ar_start r + of_nat i)))"
    using RegisterIterator_collect_all [OF assms(2), of "register_bytes (map vr ?as)" P]
    by (simp add: len same)
  have "emits wbuf wpos (BitWriter_serialize P \<lparr>bw_range = ReadBitsRange r, bw_getter = getb\<rparr>) (bool_slice_bytes (map vb ?as))"
    "unat (of_nat ((length (map vb ?as) + 7) div 8) :: u8) = length (packed_bits (map vb ?as))" if "unat (ar_count r) \<le> 2000"
    using write_cursor.emits_BitWriter [OF assms(1), of "\<lparr>bw_range = ReadBitsRange r, bw_getter = getb\<rparr>" vb] assms(3,4) that len
    by (simp_all add: length_packed_bits unat_of_nat take_bit_nat_eq_self)
  moreover have "emits wbuf wpos (RegisterWriter_serialize P \<lparr>rw_range = ReadRegistersRange r, rw_getter = getr\<rparr>)
      (u16_slice_bytes (map vr ?as))"
    "unat (of_nat (2 * length (map vr ?as)) :: u8) = length (register_bytes (map vr ?as))" if "unat (ar_count r) \<le> 125"
    using write_cursor.emits_RegisterWriter [OF assms(1), of "\<lparr>rw_range = ReadRegistersRange r, rw_getter = getr\<rparr>" vr] assms(3,5) that len
    by (simp_all add: unat_of_nat take_bit_nat_eq_self del: of_nat_mult)
  ultimately show ?thesis using bits regs unfolding bool_slice_bytes_def u16_slice_bytes_def by blast
qed

theorem values_round_trip_witness:
  "\<exists>n bytes. emits fst snd (BitWriter_serialize (list_platform True) \<lparr>bw_range = ReadBitsRange \<lparr>ar_start = 3, ar_count = 2\<rparr>,
      bw_getter = \<lambda>a. Ok (a = 4)\<rparr>) (n # bytes) \<and> BitIterator_collect (list_platform True)
      \<lparr>bi_bytes = bytes, bi_range = \<lparr>ar_start = 3, ar_count = 2\<rparr>, bi_pos = 0\<rparr> =
        Ok (indexed_values \<lparr>ar_start = 3, ar_count = 2\<rparr> (\<lambda>i. 3 + of_nat i = (4 :: u16)))"
  using values_round_trip [OF list_write_cursor [of True], of "\<lparr>ar_start = 3, ar_count = 2\<rparr>" "\<lambda>a. Ok (a = 4)" "\<lambda>a. a = 4"
      "\<lambda>a. Ok a" "\<lambda>a. a"]
  by (auto simp: valid_range_def)

text \<open>
  C39: A range that ends at the last address cannot be iterated in a build with overflow checks:
  after the addresses before the last one, the iterator panics instead of giving the last one.
\<close>

theorem last_address_panics:
  assumes "overflow_checks P" and "unat (ar_start r) + unat (ar_count r) = 65536"
    and "for_list body (addresses_from (ar_start r) (unat (ar_count r) - 1)) s = (Ok u, s')"
  shows "for_addresses P body (AddressRange_iter r) s = (Panic, s')"
  using for_addresses_panic [OF assms(1), of "AddressRange_iter r" body s] assms(2,3)
  by (simp add: AddressRange_iter_def AddressIterator_new_def)

theorem last_address_panics_witness:
  "for_addresses (list_platform True) (\<lambda>a s. (Ok () :: (unit, unit) result, s @ [a]))
    (AddressRange_iter \<lparr>ar_start = 0xFFFE, ar_count = 2\<rparr>) [] = (Panic, [0xFFFE])"
  by (rule last_address_panics [where u = "()"]) (simp_all add: list_platform_def)

text \<open>
  C40: A reader whose buffer is full but starts with bytes already consumed cannot go on: when the parser needs more
  bytes, the unread part is not moved to the front, the read gets no room, and the session ends as if
  the peer had closed the stream, whatever the peer has sent.
\<close>

theorem full_buffer_ends_session:
  assumes "FrameParser_parse P (fdr_parser r, fdr_buffer r) = (Ok None, (p, rb))"
    and "rb_wf rb" and "0 < rb_begin rb" and "rb_begin rb < rb_end rb" and "rb_end rb = MAX_FRAME_LENGTH"
    and "io_read P 0 io = (Ready (Ok []), io')"
  shows "\<exists>r'. FramedReader_next_frame P r io = Some (Ready (Err (Io UnexpectedEof)), r', io')"
proof -
  have "ReadBuffer_rewind rb = rb" by (rule ReadBuffer_rewind_no_shift [OF assms(2-4)])
  moreover have "length (rb_buffer rb) = MAX_FRAME_LENGTH" using assms(2) by (simp add: rb_wf_def)
  ultimately have "\<exists>rb'. ReadBuffer_read_some P rb io = (Ready (Err UnexpectedEof), rb', io')"
    using assms(5,6) by (simp add: ReadBuffer_read_some_def Let_def)
  then show ?thesis using assms(1) by (auto simp: FramedReader_next_frame.simps [of P r io] RequestError_from_io_def)
qed

theorem full_buffer_ends_session_witness:
  "\<exists>r'. FramedReader_next_frame (list_platform True)
      \<lparr>fdr_parser = Parser_Tcp MbapParser_new, fdr_buffer = \<lparr>rb_buffer = replicate 260 0, rb_begin = 258, rb_end = 260\<rparr>\<rparr>
      ([Data [0, 0, 0, 2, 1, 7]], []) = Some (Ready (Err (Io UnexpectedEof)), r', ([Data [0, 0, 0, 2, 1, 7]], []))"
  by (rule full_buffer_ends_session [where p = "Parser_Tcp MbapParser_new" and
        rb = "\<lparr>rb_buffer = replicate 260 0, rb_begin = 258, rb_end = 260\<rparr>"])
    (simp_all add: MbapParser_parse_def MbapParser_new_def ReadBuffer_len_def rb_wf_def list_platform_def conv_defs)

end
